(* ===== verification/Prelude.thy ===== *)
theory Prelude
  imports Complex_Main "HOL-Library.Multiset" "HOL-Library.List_Lexorder" "HOL-Library.Char_ord"
begin

text \<open>
  Shared vocabulary of the development: the Go types every component uses, the stable sort of
  the Go standard library, and the list lemmas the component proofs share.

  A \<open>time.Time\<close> is an instant in nanoseconds since the Unix epoch and a \<open>time.Duration\<close> is a
  number of nanoseconds; both are unbounded integers here. A Go \<open>string\<close> is a list of bytes. A
  \<open>float64\<close> is modelled by the exact rational it stands for, so no statement depends on rounding.
  A call that can fail returns a value of a sum type, \<open>Inl\<close> the error.
\<close>

named_theorems step_simps \<open>unfoldings of the operations of a component\<close>

type_synonym gotime = int
type_synonym duration = int
type_synonym float64 = rat

abbreviation (input) nanos_per_second :: int where
  "nanos_per_second \<equiv> 1000000000"

definition seconds :: "int \<Rightarrow> duration" where
  "seconds n = n * nanos_per_second"

definition minutes :: "int \<Rightarrow> duration" where
  "minutes n = n * (60 * nanos_per_second)"

text \<open>\<open>Time.Unix\<close>: whole seconds since the epoch, rounded towards minus infinity.\<close>

definition unix :: "gotime \<Rightarrow> int" where
  "unix t = t div nanos_per_second"

text \<open>The zero \<open>time.Time\<close>, 0001-01-01T00:00:00Z, and \<open>Time.IsZero\<close>.\<close>

definition zero_time :: gotime where
  "zero_time = -62135596800 * nanos_per_second"

definition time_is_zero :: "gotime \<Rightarrow> bool" where
  "time_is_zero t \<longleftrightarrow> t = zero_time"

lemma unix_mono: "s \<le> t \<Longrightarrow> unix s \<le> unix t"
  by (simp add: unix_def zdiv_mono1)

text \<open>Go's integer division and remainder truncate towards zero.\<close>

definition go_div :: "int \<Rightarrow> int \<Rightarrow> int" where
  "go_div a b = sgn a * sgn b * (\<bar>a\<bar> div \<bar>b\<bar>)"

definition go_mod :: "int \<Rightarrow> int \<Rightarrow> int" where
  "go_mod a b = a - go_div a b * b"

lemma go_div_nonneg [simp]: "0 \<le> a \<Longrightarrow> 0 < b \<Longrightarrow> go_div a b = a div b"
  by (cases "a = 0") (auto simp: go_div_def)

lemma go_mod_nonneg [simp]: "0 \<le> a \<Longrightarrow> 0 < b \<Longrightarrow> go_mod a b = a mod b"
  by (simp add: go_mod_def minus_div_mult_eq_mod)

section \<open>Results\<close>

text \<open>Sequencing of fallible calls: \<open>if err != nil { return err }\<close>.\<close>

fun rbind :: "'e + 'a \<Rightarrow> ('a \<Rightarrow> 'e + 'b) \<Rightarrow> 'e + 'b" where
  "rbind (Inl e) f = Inl e"
| "rbind (Inr x) f = f x"

fun is_ok :: "'e + 'a \<Rightarrow> bool" where
  "is_ok (Inl e) = False"
| "is_ok (Inr x) = True"

lemma rbind_Inr_iff: "rbind m f = Inr y \<longleftrightarrow> (\<exists>x. m = Inr x \<and> f x = Inr y)"
  by (cases m) auto

lemma rbind_Inl_iff: "rbind m f = Inl e \<longleftrightarrow> m = Inl e \<or> (\<exists>x. m = Inr x \<and> f x = Inl e)"
  by (cases m) auto

lemma is_ok_iff: "is_ok r \<longleftrightarrow> (\<exists>x. r = Inr x)"
  by (cases r) auto

text \<open>A sequence of checks, each of which returns early with its error.\<close>

fun first_error :: "'e option list \<Rightarrow> 'e option" where
  "first_error [] = None"
| "first_error (Some e # es) = Some e"
| "first_error (None # es) = first_error es"

lemma first_error_None: "first_error es = None \<longleftrightarrow> list_all (\<lambda>e. e = None) es"
  by (induction es rule: first_error.induct) auto

section \<open>Strings\<close>

text \<open>ASCII case folding, the part of \<open>strings.ToLower\<close> the models rely on.\<close>

definition lower_char :: "char \<Rightarrow> char" where
  "lower_char c = (if 65 \<le> (of_char c :: nat) \<and> (of_char c :: nat) \<le> 90
                   then char_of ((of_char c :: nat) + 32) else c)"

definition to_lower :: "string \<Rightarrow> string" where
  "to_lower s = map lower_char s"

lemma lower_char_idem [simp]: "lower_char (lower_char c) = lower_char c"
  by (simp add: lower_char_def)

lemma to_lower_idem [simp]: "to_lower (to_lower s) = to_lower s"
  by (simp add: to_lower_def comp_def)

lemma to_lower_Nil [simp]: "to_lower [] = []"
  by (simp add: to_lower_def)

text \<open>\<open>strings.TrimSpace\<close>, for ASCII white space.\<close>

definition is_space :: "char \<Rightarrow> bool" where
  "is_space c \<longleftrightarrow> c \<in> {CHR '' '', CHR 0x09, CHR 0x0a, CHR 0x0b, CHR 0x0c, CHR 0x0d}"

definition trim_space :: "string \<Rightarrow> string" where
  "trim_space s = rev (dropWhile is_space (rev (dropWhile is_space s)))"

text \<open>\<open>strings.Split\<close> at a single character.\<close>

fun split_on :: "char \<Rightarrow> string \<Rightarrow> string list" where
  "split_on sep [] = [[]]"
| "split_on sep (c # cs) =
     (if c = sep then [] # split_on sep cs
      else (case split_on sep cs of [] \<Rightarrow> [[c]] | w # ws \<Rightarrow> (c # w) # ws))"

text \<open>\<open>strconv.Itoa\<close>.\<close>

fun nat_digits :: "nat \<Rightarrow> string" where
  "nat_digits n = (if n < 10 then [char_of (48 + n)] else nat_digits (n div 10) @ [char_of (48 + n mod 10)])"

declare nat_digits.simps [simp del]

definition itoa :: "int \<Rightarrow> string" where
  "itoa i = (if i < 0 then ''-'' @ nat_digits (nat (- i)) else nat_digits (nat i))"

text \<open>Arithmetic on a 64-bit \<open>int\<close> wraps around.\<close>

definition int64 :: "int \<Rightarrow> int" where
  "int64 x = (x + 2 ^ 63) mod 2 ^ 64 - 2 ^ 63"

lemma int64_id: "- (2 ^ 63) \<le> x \<Longrightarrow> x < 2 ^ 63 \<Longrightarrow> int64 x = x"
  by (simp add: int64_def)

text \<open>\<open>strings.Join\<close>, on any kind of pieces.\<close>

fun join :: "'a list \<Rightarrow> 'a list list \<Rightarrow> 'a list" where
  "join sep [] = []"
| "join sep [x] = x"
| "join sep (x # y # xs) = x @ sep @ join sep (y # xs)"

lemma join_Cons: "join sep (x # xs) = x @ (if xs = [] then [] else sep @ join sep xs)"
  by (cases xs) auto

section \<open>Association lists with the order of a range loop\<close>

text \<open>
  A Go map is a partial function where the code only looks keys up. Where the code ranges over
  a map, the iteration order is arbitrary, and the model takes the entries as a list with
  distinct keys, in the order one iteration happens to visit them.
\<close>

fun aget :: "('k \<times> 'v) list \<Rightarrow> 'k \<Rightarrow> 'v option" where
  "aget [] k = None"
| "aget ((k', v) # xs) k = (if k' = k then Some v else aget xs k)"

fun aput :: "('k \<times> 'v) list \<Rightarrow> 'k \<Rightarrow> 'v \<Rightarrow> ('k \<times> 'v) list" where
  "aput [] k v = [(k, v)]"
| "aput ((k', w) # xs) k v = (if k' = k then (k', v) # xs else (k', w) # aput xs k v)"

lemma aget_aput: "aget (aput xs k v) k' = (if k' = k then Some v else aget xs k')"
  by (induction xs k v rule: aput.induct) auto

lemma keys_aput: "fst ` set (aput xs k v) = insert k (fst ` set xs)"
  by (induction xs k v rule: aput.induct) auto

lemma distinct_aput: "distinct (map fst xs) \<Longrightarrow> distinct (map fst (aput xs k v))"
  by (induction xs k v rule: aput.induct) (auto simp: keys_aput)

lemma aget_None_iff: "aget xs k = None \<longleftrightarrow> k \<notin> fst ` set xs"
  by (induction xs k rule: aget.induct) auto

lemma aget_SomeD: "aget xs k = Some v \<Longrightarrow> (k, v) \<in> set xs"
  by (induction xs k rule: aget.induct) (auto split: if_splits)

lemma aget_mem: "distinct (map fst xs) \<Longrightarrow> (k, v) \<in> set xs \<Longrightarrow> aget xs k = Some v"
  by (induction xs k rule: aget.induct) force+

section \<open>Stable sorting\<close>

text \<open>
  \<open>sort.SliceStable (xs, less)\<close>: the sorted permutation of \<open>xs\<close> that keeps the order of
  elements neither of which is less than the other. The comparison function must be a strict
  weak order, which is the contract the standard library documents.
\<close>

fun insert_stable :: "('a \<Rightarrow> 'a \<Rightarrow> bool) \<Rightarrow> 'a \<Rightarrow> 'a list \<Rightarrow> 'a list" where
  "insert_stable lt x [] = [x]"
| "insert_stable lt x (y # ys) =
     (if lt y x then y # insert_stable lt x ys else x # y # ys)"

definition slice_stable :: "('a \<Rightarrow> 'a \<Rightarrow> bool) \<Rightarrow> 'a list \<Rightarrow> 'a list" where
  "slice_stable lt xs = foldr (insert_stable lt) xs []"

lemma slice_stable_Nil [simp]: "slice_stable lt [] = []"
  by (simp add: slice_stable_def)

lemma slice_stable_Cons [simp]:
  "slice_stable lt (x # xs) = insert_stable lt x (slice_stable lt xs)"
  by (simp add: slice_stable_def)

lemma mset_insert_stable [simp]: "mset (insert_stable lt x ys) = add_mset x (mset ys)"
  by (induction ys) auto

lemma mset_slice_stable [simp]: "mset (slice_stable lt xs) = mset xs"
  by (induction xs) auto

lemma set_slice_stable [simp]: "set (slice_stable lt xs) = set xs"
  by (metis mset_slice_stable set_mset_mset)

lemma length_slice_stable [simp]: "length (slice_stable lt xs) = length xs"
  by (metis mset_slice_stable size_mset)

lemma set_insert_stable [simp]: "set (insert_stable lt x ys) = insert x (set ys)"
  by (metis mset_insert_stable set_mset_add_mset_insert set_mset_mset)

lemma distinct_slice_stable [simp]: "distinct (slice_stable lt xs) = distinct xs"
  by (metis mset_slice_stable mset_eq_imp_distinct_iff)

locale strict_weak =
  fixes lt :: "'a \<Rightarrow> 'a \<Rightarrow> bool"
  assumes asym: "lt a b \<Longrightarrow> \<not> lt b a"
    and neg_trans: "\<not> lt a b \<Longrightarrow> \<not> lt b c \<Longrightarrow> \<not> lt a c"
begin

lemma irrefl: "\<not> lt a a"
  using asym by blast

lemma insert_sorted:
  "sorted_wrt (\<lambda>a b. \<not> lt b a) ys \<Longrightarrow> sorted_wrt (\<lambda>a b. \<not> lt b a) (insert_stable lt x ys)"
proof (induction ys)
  case Nil
  show ?case by simp
next
  case (Cons y ys)
  show ?case
  proof (cases "lt y x")
    case True
    with Cons show ?thesis using asym by auto
  next
    case False
    with Cons.prems have "\<forall>z\<in>set ys. \<not> lt z x"
      using neg_trans by auto
    with False Cons.prems show ?thesis by auto
  qed
qed

lemma sorted: "sorted_wrt (\<lambda>a b. \<not> lt b a) (slice_stable lt xs)"
  by (induction xs) (auto intro: insert_sorted)

lemma insert_class:
  "sorted_wrt (\<lambda>a b. \<not> lt b a) ys \<Longrightarrow>
   filter (\<lambda>y. \<not> lt k y \<and> \<not> lt y k) (insert_stable lt x ys) =
   filter (\<lambda>y. \<not> lt k y \<and> \<not> lt y k) (x # ys)"
proof (induction ys)
  case Nil
  show ?case by simp
next
  case (Cons y ys)
  show ?case
  proof (cases "lt y x")
    case True
    then have "\<not> ((\<not> lt k x \<and> \<not> lt x k) \<and> (\<not> lt k y \<and> \<not> lt y k))"
      using neg_trans by blast
    with True Cons show ?thesis by auto
  qed simp
qed

text \<open>Stability: elements of one equivalence class keep their order.\<close>

lemma stable:
  "filter (\<lambda>y. \<not> lt k y \<and> \<not> lt y k) (slice_stable lt xs) =
   filter (\<lambda>y. \<not> lt k y \<and> \<not> lt y k) xs"
  by (induction xs) (auto simp: insert_class sorted)

text \<open>Sorting commutes with filtering.\<close>

lemma insert_front:
  "sorted_wrt (\<lambda>a b. \<not> lt b a) (y # ys) \<Longrightarrow> \<not> lt y x \<Longrightarrow> insert_stable lt x ys = x # ys"
proof (cases ys)
  case (Cons z zs)
  assume "sorted_wrt (\<lambda>a b. \<not> lt b a) (y # ys)" "\<not> lt y x"
  then have "\<not> lt z x" using neg_trans [of z y x] Cons by auto
  then show ?thesis using Cons by simp
qed simp

lemma insert_filter:
  "sorted_wrt (\<lambda>a b. \<not> lt b a) ys \<Longrightarrow>
   filter P (insert_stable lt x ys) = (if P x then insert_stable lt x (filter P ys) else filter P ys)"
proof (induction ys)
  case (Cons y ys)
  have "insert_stable lt x (filter P ys) = x # filter P ys" if "\<not> lt y x"
    using Cons.prems that by (intro insert_front [of y]) (auto intro: sorted_wrt_filter)
  with Cons show ?case by auto
qed simp

lemma filter_slice_stable: "filter P (slice_stable lt xs) = slice_stable lt (filter P xs)"
  by (induction xs) (auto simp: insert_filter sorted)

text \<open>On elements the order tells apart, the result depends on the multiset of elements only.\<close>

lemma sorted_unique:
  "sorted_wrt (\<lambda>a b. \<not> lt b a) xs \<Longrightarrow> sorted_wrt (\<lambda>a b. \<not> lt b a) ys \<Longrightarrow> mset xs = mset ys \<Longrightarrow>
   (\<And>a b. a \<in> set xs \<Longrightarrow> b \<in> set xs \<Longrightarrow> \<not> lt a b \<Longrightarrow> \<not> lt b a \<Longrightarrow> a = b) \<Longrightarrow> xs = ys"
proof (induction xs arbitrary: ys)
  case Nil
  then show ?case by simp
next
  case (Cons x xs)
  then obtain y zs where ys: "ys = y # zs"
    by (cases ys) auto
  have "set (x # xs) = set ys"
    using Cons.prems(3) mset_eq_setD by blast
  then have "y \<in> set (x # xs)" "x \<in> set (y # zs)"
    by (auto simp: ys)
  then have "x = y"
    using Cons.prems(1,2,4) irrefl by (auto simp: ys)
  with Cons show ?case by (auto simp: ys)
qed

lemma slice_stable_order_independent:
  assumes "mset xs = mset ys"
    and "\<And>a b. a \<in> set xs \<Longrightarrow> b \<in> set xs \<Longrightarrow> \<not> lt a b \<Longrightarrow> \<not> lt b a \<Longrightarrow> a = b"
  shows "slice_stable lt xs = slice_stable lt ys"
  by (rule sorted_unique) (use assms sorted in auto)

end

lemma strict_weak_key_desc: "strict_weak (\<lambda>a b. (key b :: 'k :: linorder) < key a)"
  by unfold_locales auto

section \<open>Longest prefixes and running sums\<close>

lemma sum_list_map_filter_le:
  fixes f :: "'a \<Rightarrow> int"
  assumes "\<And>x. x \<in> set xs \<Longrightarrow> 0 \<le> f x"
  shows "sum_list (map f (filter p xs)) \<le> sum_list (map f xs)"
  using assms by (induction xs) fastforce+

lemma sum_list_nonneg_int:
  fixes f :: "'a \<Rightarrow> int"
  assumes "\<And>x. x \<in> set xs \<Longrightarrow> 0 \<le> f x"
  shows "0 \<le> sum_list (map f xs)"
  using assms by (induction xs) auto

end
