(* ===== verification/JobStore.thy ===== *)
theory JobStore
  imports Prelude
begin

text \<open>
  The durable queue of internal/jobs/store.go: the tables jobs and job_schedules with the
  columns of migrations 00054, 00055 and 00075, and every statement the store issues, one
  definition per method. A statement is atomic, as a single SQL statement is; \<open>now\<close> is the
  instant it runs at. An UPDATE ... WHERE is \<open>sql_update\<close>, its RowsAffected \<open>sql_count\<close>.
\<close>

datatype status = StatusQueued | StatusRunning | StatusDone | StatusFailed | StatusCancelled

fun status_str :: "status \<Rightarrow> string" where
  "status_str StatusQueued = ''queued''"
| "status_str StatusRunning = ''running''"
| "status_str StatusDone = ''done''"
| "status_str StatusFailed = ''failed''"
| "status_str StatusCancelled = ''cancelled''"

record job =
  j_id :: int
  j_kind :: string
  j_owner :: string
  j_payload :: string
  j_status :: status
  j_attempts :: int
  j_max_attempts :: int
  j_error :: string
  j_run_at :: gotime
  j_created_at :: gotime
  j_started_at :: "gotime option"
  j_finished_at :: "gotime option"
  j_locked_by :: string
  j_locked_at :: "gotime option"
  j_heartbeat_at :: "gotime option"

record schedule =
  s_kind :: string
  s_interval :: int
  s_next_run :: gotime
  s_last_run :: "gotime option"

record store =
  rows :: "job list"
  next_id :: int
  scheds :: "schedule list"

definition sql_update :: "('r \<Rightarrow> bool) \<Rightarrow> ('r \<Rightarrow> 'r) \<Rightarrow> 'r list \<Rightarrow> 'r list" where
  "sql_update p f rs = map (\<lambda>r. if p r then f r else r) rs"

definition sql_count :: "('r \<Rightarrow> bool) \<Rightarrow> 'r list \<Rightarrow> int" where
  "sql_count p rs = int (length (filter p rs))"

section \<open>Enqueue and claim\<close>

definition Enqueue ::
    "store \<Rightarrow> gotime \<Rightarrow> string \<Rightarrow> string \<Rightarrow> string \<Rightarrow> int \<Rightarrow> gotime \<Rightarrow> store \<times> int" where
  "Enqueue s now kind owner payload maxAttempts runAt =
     (let mx = (if maxAttempts < 1 then 1 else maxAttempts);
          ra = (if time_is_zero runAt then now else runAt);
          pl = (if payload = [] then ''{}'' else payload);
          row = \<lparr>j_id = next_id s, j_kind = kind, j_owner = owner, j_payload = pl,
                 j_status = StatusQueued, j_attempts = 0, j_max_attempts = mx, j_error = [],
                 j_run_at = ra, j_created_at = now, j_started_at = None, j_finished_at = None,
                 j_locked_by = [], j_locked_at = None, j_heartbeat_at = None\<rparr>
      in (s\<lparr>rows := rows s @ [row], next_id := next_id s + 1\<rparr>, next_id s))"

definition claimable :: "gotime \<Rightarrow> string list \<Rightarrow> string list \<Rightarrow> job \<Rightarrow> bool" where
  "claimable now incl excl r \<longleftrightarrow>
     j_status r = StatusQueued \<and> j_run_at r \<le> now \<and>
     (incl = [] \<or> j_kind r \<in> set incl) \<and> (excl = [] \<or> j_kind r \<notin> set excl)"

text \<open>\<open>ORDER BY run_at LIMIT 1\<close>; rows with equal run_at keep the order of the table.\<close>

fun oldest :: "job list \<Rightarrow> job option" where
  "oldest [] = None"
| "oldest (r # rs) =
     (case oldest rs of None \<Rightarrow> Some r
      | Some r' \<Rightarrow> if j_run_at r' < j_run_at r then Some r' else Some r)"

definition claim_row :: "gotime \<Rightarrow> string \<Rightarrow> job \<Rightarrow> job" where
  "claim_row now w r =
     r\<lparr>j_status := StatusRunning, j_attempts := j_attempts r + 1, j_started_at := Some now,
       j_locked_by := w, j_locked_at := Some now, j_heartbeat_at := Some now\<rparr>"

text \<open>
  \<open>skip\<close> are the ids another transaction holds a row lock on at this moment: SKIP LOCKED passes
  over them.
\<close>

definition ClaimNext ::
    "store \<Rightarrow> gotime \<Rightarrow> int set \<Rightarrow> string \<Rightarrow> string list \<Rightarrow> string list \<Rightarrow> store \<times> job option" where
  "ClaimNext s now skip w incl excl =
     (case oldest (filter (\<lambda>r. claimable now incl excl r \<and> j_id r \<notin> skip) (rows s)) of
        None \<Rightarrow> (s, None)
      | Some r \<Rightarrow>
          (s\<lparr>rows := sql_update (\<lambda>x. j_id x = j_id r) (claim_row now w) (rows s)\<rparr>,
           Some (claim_row now w r)))"

definition ClaimByID :: "store \<Rightarrow> gotime \<Rightarrow> int \<Rightarrow> string \<Rightarrow> store \<times> job option" where
  "ClaimByID s now i w =
     (case filter (\<lambda>x. j_id x = i \<and> j_status x = StatusQueued) (rows s) of
        [] \<Rightarrow> (s, None)
      | r # _ \<Rightarrow>
          (s\<lparr>rows := sql_update (\<lambda>x. j_id x = i \<and> j_status x = StatusQueued) (claim_row now w) (rows s)\<rparr>,
           Some (claim_row now w r)))"

section \<open>Writes guarded by the claim\<close>

text \<open>The predicate every executor-side write carries: running, and locked by this worker.\<close>

definition owns :: "int \<Rightarrow> string \<Rightarrow> job \<Rightarrow> bool" where
  "owns i w r \<longleftrightarrow> j_id r = i \<and> j_status r = StatusRunning \<and> j_locked_by r = w"

definition guarded_write :: "(job \<Rightarrow> job) \<Rightarrow> store \<Rightarrow> int \<Rightarrow> string \<Rightarrow> store \<times> bool" where
  "guarded_write f s i w =
     (s\<lparr>rows := sql_update (owns i w) f (rows s)\<rparr>, sql_count (owns i w) (rows s) > 0)"

definition requeue_row :: "job \<Rightarrow> job" where
  "requeue_row r =
     r\<lparr>j_status := StatusQueued, j_attempts := max (j_attempts r - 1) 0, j_started_at := None,
       j_locked_by := [], j_locked_at := None\<rparr>"

definition Requeue :: "store \<Rightarrow> int \<Rightarrow> string \<Rightarrow> store \<times> bool" where
  "Requeue s i w = guarded_write requeue_row s i w"

definition complete_row :: "gotime \<Rightarrow> job \<Rightarrow> job" where
  "complete_row now r = r\<lparr>j_status := StatusDone, j_finished_at := Some now, j_error := []\<rparr>"

definition Complete :: "gotime \<Rightarrow> store \<Rightarrow> int \<Rightarrow> string \<Rightarrow> store \<times> bool" where
  "Complete now s i w = guarded_write (complete_row now) s i w"

fun fail_row :: "gotime \<Rightarrow> string \<Rightarrow> gotime option \<Rightarrow> job \<Rightarrow> job" where
  "fail_row now msg (Some retryAt) r =
     r\<lparr>j_status := StatusQueued, j_run_at := retryAt, j_error := msg, j_locked_by := [],
       j_locked_at := None\<rparr>"
| "fail_row now msg None r =
     r\<lparr>j_status := StatusFailed, j_finished_at := Some now, j_error := msg\<rparr>"

definition Fail ::
    "gotime \<Rightarrow> string \<Rightarrow> gotime option \<Rightarrow> store \<Rightarrow> int \<Rightarrow> string \<Rightarrow> store \<times> bool" where
  "Fail now msg retryAt s i w = guarded_write (fail_row now msg retryAt) s i w"

definition heartbeat_row :: "gotime \<Rightarrow> job \<Rightarrow> job" where
  "heartbeat_row now r = r\<lparr>j_heartbeat_at := Some now\<rparr>"

definition Heartbeat :: "gotime \<Rightarrow> store \<Rightarrow> int \<Rightarrow> string \<Rightarrow> store \<times> bool" where
  "Heartbeat now s i w = guarded_write (heartbeat_row now) s i w"

section \<open>Cancel and reap\<close>

definition pending :: "job \<Rightarrow> bool" where
  "pending r \<longleftrightarrow> j_status r = StatusQueued \<or> j_status r = StatusRunning"

definition cancel_row :: "gotime \<Rightarrow> job \<Rightarrow> job" where
  "cancel_row now r =
     r\<lparr>j_status := StatusCancelled, j_finished_at := Some now, j_error := ''cancelled by admin'',
       j_locked_by := [], j_locked_at := None\<rparr>"

definition MarkCancelled :: "gotime \<Rightarrow> store \<Rightarrow> int \<Rightarrow> store \<times> bool" where
  "MarkCancelled now s i =
     (s\<lparr>rows := sql_update (\<lambda>r. j_id r = i \<and> pending r) (cancel_row now) (rows s)\<rparr>,
      sql_count (\<lambda>r. j_id r = i \<and> pending r) (rows s) > 0)"

text \<open>\<open>COALESCE (heartbeat_at, locked_at, started_at)\<close>.\<close>

definition last_sign :: "job \<Rightarrow> gotime option" where
  "last_sign r = (case j_heartbeat_at r of Some t \<Rightarrow> Some t
     | None \<Rightarrow> (case j_locked_at r of Some t \<Rightarrow> Some t | None \<Rightarrow> j_started_at r))"

definition stale :: "gotime \<Rightarrow> duration \<Rightarrow> job \<Rightarrow> bool" where
  "stale now lease r \<longleftrightarrow> j_status r = StatusRunning \<and>
     (case last_sign r of None \<Rightarrow> False | Some t \<Rightarrow> t < now - lease)"

definition reap_row :: "gotime \<Rightarrow> job \<Rightarrow> job" where
  "reap_row now r =
     (if j_attempts r < j_max_attempts r
      then r\<lparr>j_status := StatusQueued, j_error := ''reclaimed: worker lost (pod restart)'',
             j_run_at := now, j_started_at := None, j_locked_by := [], j_locked_at := None,
             j_heartbeat_at := None\<rparr>
      else r\<lparr>j_status := StatusFailed, j_error := ''worker lost (pod restart)'',
             j_finished_at := Some now\<rparr>)"

definition ReapStaleRunning :: "gotime \<Rightarrow> duration \<Rightarrow> store \<Rightarrow> store \<times> int" where
  "ReapStaleRunning now ttl s =
     (let lease = (if ttl < seconds 1 then seconds 1 else ttl) in
      (s\<lparr>rows := sql_update (stale now lease) (reap_row now) (rows s)\<rparr>,
       sql_count (stale now lease) (rows s)))"

section \<open>Schedules\<close>

definition UpsertSchedule :: "gotime \<Rightarrow> store \<Rightarrow> string \<Rightarrow> duration \<Rightarrow> store" where
  "UpsertSchedule now s kind interval =
     (let n = go_div interval nanos_per_second;
          secs = (if n < 1 then 1 else n);
          nxt = now + seconds secs
      in if \<exists>sc\<in>set (scheds s). s_kind sc = kind
         then s\<lparr>scheds := sql_update (\<lambda>sc. s_kind sc = kind)
                 (\<lambda>sc. sc\<lparr>s_interval := secs, s_next_run := min (s_next_run sc) nxt\<rparr>) (scheds s)\<rparr>
         else s\<lparr>scheds := scheds s @
                 [\<lparr>s_kind = kind, s_interval = secs, s_next_run = nxt, s_last_run = None\<rparr>]\<rparr>)"

definition due :: "gotime \<Rightarrow> schedule \<Rightarrow> bool" where
  "due now sc \<longleftrightarrow> s_next_run sc \<le> now"

definition ClaimDueSchedules :: "gotime \<Rightarrow> store \<Rightarrow> store \<times> string list" where
  "ClaimDueSchedules now s =
     (s\<lparr>scheds := sql_update (due now)
          (\<lambda>sc. sc\<lparr>s_last_run := Some now, s_next_run := now + seconds (s_interval sc)\<rparr>) (scheds s)\<rparr>,
      map s_kind (filter (due now) (scheds s)))"

definition ListSchedules :: "store \<Rightarrow> schedule list" where
  "ListSchedules s = slice_stable (\<lambda>a b. s_kind a < s_kind b) (scheds s)"

section \<open>Reads\<close>

definition List_jobs :: "store \<Rightarrow> string \<Rightarrow> string \<Rightarrow> int \<Rightarrow> job list" where
  "List_jobs s st kind n =
     (let l1 = (if n < 1 then 50 else n);
          l2 = (if l1 > 500 then 500 else l1)
      in take (nat l2) (slice_stable (\<lambda>a b. j_created_at b < j_created_at a)
           (filter (\<lambda>r. (st = [] \<or> status_str (j_status r) = st) \<and> (kind = [] \<or> j_kind r = kind)) (rows s))))"

definition Get :: "store \<Rightarrow> int \<Rightarrow> job option" where
  "Get s i = (case filter (\<lambda>r. j_id r = i) (rows s) of [] \<Rightarrow> None | r # _ \<Rightarrow> Some r)"

text \<open>\<open>DISTINCT ON (owner)\<close> after ordering by owner and newest first.\<close>

fun distinct_on :: "('r \<Rightarrow> 'k) \<Rightarrow> 'r list \<Rightarrow> 'r list" where
  "distinct_on f [] = []"
| "distinct_on f (r # rs) = r # filter (\<lambda>x. f x \<noteq> f r) (distinct_on f rs)"

definition owner_newest :: "job \<Rightarrow> job \<Rightarrow> bool" where
  "owner_newest a b \<longleftrightarrow> j_owner a < j_owner b \<or> j_owner a = j_owner b \<and> j_created_at b < j_created_at a"

definition ListLatestPerOwner :: "store \<Rightarrow> string \<Rightarrow> job list" where
  "ListLatestPerOwner s kind =
     distinct_on j_owner (slice_stable owner_newest
       (filter (\<lambda>r. j_kind r = kind \<and> j_owner r \<noteq> []) (rows s)))"

definition HasPending :: "store \<Rightarrow> string \<Rightarrow> string \<Rightarrow> bool" where
  "HasPending s kind owner =
     (sql_count (\<lambda>r. j_kind r = kind \<and> j_owner r = owner \<and> pending r) (rows s) > 0)"

definition PendingID :: "store \<Rightarrow> string \<Rightarrow> string \<Rightarrow> int option" where
  "PendingID s kind owner =
     (case map j_id (filter (\<lambda>r. j_kind r = kind \<and> j_owner r = owner \<and> pending r) (rows s)) of
        [] \<Rightarrow> None
      | i # is \<Rightarrow> Some (foldr max is i))"

definition HasPendingKind :: "store \<Rightarrow> string \<Rightarrow> bool" where
  "HasPendingKind s kind = (\<exists>r\<in>set (rows s). j_kind r = kind \<and> pending r)"

text \<open>The per-kind aggregate of the admin overview.\<close>

record kind_stats =
  ks_kind :: string
  ks_queued :: int
  ks_running :: int
  ks_done_recent :: int
  ks_failed_recent :: int
  ks_avg_ms :: float64
  ks_last_run :: gotime
  ks_last_status :: status

definition last_activity :: "job \<Rightarrow> gotime" where
  "last_activity r = (case j_finished_at r of Some t \<Rightarrow> t
     | None \<Rightarrow> (case j_started_at r of Some t \<Rightarrow> t | None \<Rightarrow> j_created_at r))"

definition finished_since :: "gotime \<Rightarrow> job \<Rightarrow> bool" where
  "finished_since since r = (case j_finished_at r of None \<Rightarrow> False | Some t \<Rightarrow> since \<le> t)"

text \<open>Run durations in milliseconds, of the rows the FILTER clause keeps.\<close>

definition run_ms :: "gotime \<Rightarrow> job list \<Rightarrow> float64 list" where
  "run_ms since rs = [of_int (f - b) / 1000000. r \<leftarrow> rs,
      j_status r = StatusDone \<or> j_status r = StatusFailed, finished_since since r,
      Some f \<leftarrow> [j_finished_at r], Some b \<leftarrow> [j_started_at r]]"

definition avg :: "float64 list \<Rightarrow> float64" where
  "avg xs = (if xs = [] then 0 else sum_list xs / of_nat (length xs))"

fun latest :: "job \<Rightarrow> job list \<Rightarrow> job" where
  "latest r [] = r"
| "latest r (x # xs) = latest (if last_activity r < last_activity x then x else r) xs"

definition stats_of_kind :: "gotime \<Rightarrow> job \<Rightarrow> job list \<Rightarrow> kind_stats" where
  "stats_of_kind since r rs =
     (let g = r # rs; cnt = (\<lambda>p. sql_count p g) in
      \<lparr>ks_kind = j_kind r,
       ks_queued = cnt (\<lambda>x. j_status x = StatusQueued),
       ks_running = cnt (\<lambda>x. j_status x = StatusRunning),
       ks_done_recent = cnt (\<lambda>x. j_status x = StatusDone \<and> finished_since since x),
       ks_failed_recent = cnt (\<lambda>x. j_status x = StatusFailed \<and> finished_since since x),
       ks_avg_ms = avg (run_ms since g),
       ks_last_run = last_activity (latest r rs),
       ks_last_status = j_status (latest r rs)\<rparr>)"

definition ListJobKindStats :: "store \<Rightarrow> gotime \<Rightarrow> kind_stats list" where
  "ListJobKindStats s since =
     [stats_of_kind since r rs. k \<leftarrow> sort (remdups (map j_kind (rows s))),
        r # rs \<leftarrow> [filter (\<lambda>r. j_kind r = k) (rows s)]]"

section \<open>Well-formedness\<close>

definition store_wf :: "store \<Rightarrow> bool" where
  "store_wf s \<longleftrightarrow> distinct (map j_id (rows s)) \<and> (\<forall>i\<in>set (map j_id (rows s)). i < next_id s) \<and>
     distinct (map s_kind (scheds s))"

definition terminal :: "job \<Rightarrow> bool" where
  "terminal r \<longleftrightarrow> j_status r \<in> {StatusDone, StatusFailed, StatusCancelled}"

text \<open>What no statement changes about a row: its identity and its retry budget.\<close>

definition same_job :: "job \<Rightarrow> job \<Rightarrow> bool" where
  "same_job r r' \<longleftrightarrow> j_id r' = j_id r \<and> j_kind r' = j_kind r \<and> j_owner r' = j_owner r \<and>
     j_payload r' = j_payload r \<and> j_max_attempts r' = j_max_attempts r \<and>
     j_created_at r' = j_created_at r"

lemmas row_defs = claim_row_def requeue_row_def complete_row_def heartbeat_row_def cancel_row_def
  reap_row_def

lemma same_job_refl [simp, intro]: "same_job r r"
  by (simp add: same_job_def)

lemma same_job_rows [simp]:
  "same_job r (claim_row now w r)" "same_job r (requeue_row r)" "same_job r (complete_row now r)"
  "same_job r (fail_row now msg ra r)" "same_job r (heartbeat_row now r)"
  "same_job r (cancel_row now r)" "same_job r (reap_row now r)"
  by (auto simp: same_job_def row_defs) (cases ra; simp)+

lemma terminal_iff: "terminal r \<longleftrightarrow> \<not> pending r"
  by (cases "j_status r") (auto simp: terminal_def pending_def)

lemma owns_pending: "owns i w r \<Longrightarrow> pending r"
  by (simp add: owns_def pending_def)

lemma stale_running: "stale now lease r \<Longrightarrow> j_status r = StatusRunning"
  by (simp add: stale_def)

lemma sql_update_ids:
  "(\<And>r. same_job r (f r)) \<Longrightarrow> map j_id (sql_update p f rs) = map j_id rs"
  by (simp add: sql_update_def same_job_def)

lemma sql_update_none: "(\<And>r. r \<in> set rs \<Longrightarrow> \<not> p r) \<Longrightarrow> sql_update p f rs = rs"
  by (simp add: sql_update_def map_idI)

lemma set_sql_update:
  "set (sql_update p f rs) = (\<lambda>r. if p r then f r else r) ` set rs"
  by (simp add: sql_update_def)

lemma sql_count_pos: "0 < sql_count p rs \<longleftrightarrow> (\<exists>r\<in>set rs. p r)"
proof -
  have "filter p rs \<noteq> [] \<longleftrightarrow> (\<exists>r\<in>set rs. p r)"
    by (simp add: filter_empty_conv)
  then show ?thesis
    by (simp add: sql_count_def)
qed

lemma oldest_None [simp]: "oldest rs = None \<longleftrightarrow> rs = []"
  by (cases rs) (auto split: option.splits)

lemma oldest_Some:
  "oldest rs = Some r \<Longrightarrow> r \<in> set rs \<and> (\<forall>x\<in>set rs. j_run_at r \<le> j_run_at x)"
  by (induction rs arbitrary: r) (force split: option.splits if_splits)+

text \<open>Looking a row up by its id.\<close>

lemma Get_None_iff: "Get s i = None \<longleftrightarrow> i \<notin> set (map j_id (rows s))"
proof -
  have "filter (\<lambda>r. j_id r = i) (rows s) = [] \<longleftrightarrow> i \<notin> set (map j_id (rows s))"
    by (auto simp: filter_empty_conv)
  then show ?thesis
    by (cases "filter (\<lambda>r. j_id r = i) (rows s)") (simp_all add: Get_def)
qed

lemma Get_Some_iff:
  assumes "distinct (map j_id (rows s))"
  shows "Get s i = Some r \<longleftrightarrow> r \<in> set (rows s) \<and> j_id r = i"
proof -
  have "(case filter (\<lambda>r. j_id r = i) rs of [] \<Rightarrow> None | r # _ \<Rightarrow> Some r) = Some r \<longleftrightarrow>
      r \<in> set rs \<and> j_id r = i" if "distinct (map j_id rs)" for rs
    using that by (induction rs) (auto simp: rev_image_eqI)
  from this [OF assms] show ?thesis by (simp add: Get_def)
qed

section \<open>The compare-and-set contract\<close>

text \<open>
  Every executor-side write is an update guarded by the claim. The contract says which rows it
  may touch; its consequence, proved once, is that a worker that lost its claim changes nothing
  and learns it from the result.
\<close>

locale claim_guarded =
  fixes cas :: "store \<Rightarrow> int \<Rightarrow> string \<Rightarrow> store \<times> bool"
    and effect :: "job \<Rightarrow> job"
  assumes write_rows: "rows (fst (cas s i w)) = sql_update (owns i w) effect (rows s)"
    and write_frame: "next_id (fst (cas s i w)) = next_id s" "scheds (fst (cas s i w)) = scheds s"
    and write_result: "snd (cas s i w) \<longleftrightarrow> (\<exists>r\<in>set (rows s). owns i w r)"
    and effect_same: "same_job r (effect r)"
begin

lemma store_eq: "fst (cas s i w) = s\<lparr>rows := sql_update (owns i w) effect (rows s)\<rparr>"
  by (rule store.equality) (auto simp: write_rows write_frame)

lemma lost_claim:
  assumes "\<And>r. r \<in> set (rows s) \<Longrightarrow> \<not> owns i w r"
  shows "cas s i w = (s, False)"
proof -
  have "fst (cas s i w) = s"
    using assms by (simp add: store_eq sql_update_none)
  moreover have "\<not> snd (cas s i w)"
    using assms by (auto simp: write_result)
  ultimately show ?thesis
    by (cases "cas s i w") simp
qed

lemma terminal_untouched:
  "r \<in> set (rows s) \<Longrightarrow> terminal r \<Longrightarrow> r \<in> set (rows (fst (cas s i w)))"
  by (force simp: write_rows set_sql_update terminal_iff dest: owns_pending)

lemma other_row_untouched:
  "r \<in> set (rows s) \<Longrightarrow> j_id r \<noteq> i \<Longrightarrow> r \<in> set (rows (fst (cas s i w)))"
  by (force simp: write_rows set_sql_update owns_def)

lemma ids: "map j_id (rows (fst (cas s i w))) = map j_id (rows s)"
  by (simp add: write_rows sql_update_ids effect_same)

lemma wf_write: "store_wf s \<Longrightarrow> store_wf (fst (cas s i w))"
  unfolding store_wf_def ids write_frame .

end

lemma claim_guarded_guarded_write:
  "(\<And>r. same_job r (f r)) \<Longrightarrow> claim_guarded (guarded_write f) f"
  by unfold_locales (auto simp: guarded_write_def sql_count_pos)

interpretation requeue: claim_guarded Requeue requeue_row
  unfolding Requeue_def [abs_def] by (rule claim_guarded_guarded_write) simp

interpretation complete: claim_guarded "Complete now" "complete_row now" for now
  unfolding Complete_def [abs_def] by (rule claim_guarded_guarded_write) simp

interpretation fail: claim_guarded "Fail now msg ra" "fail_row now msg ra" for now msg ra
  unfolding Fail_def [abs_def] by (rule claim_guarded_guarded_write) simp

interpretation heartbeat: claim_guarded "Heartbeat now" "heartbeat_row now" for now
  unfolding Heartbeat_def [abs_def] by (rule claim_guarded_guarded_write) simp

end
