(* ===== verification/JobRegistry.thy ===== *)
theory JobRegistry
  imports JobStore
begin

text \<open>
  The registry of job kinds and the routing policy derived from it (internal/jobs/jobs.go). Each
  Go map is an association list with distinct keys. A handler is arbitrary code, here a function
  from the claimed job to its result: nil, an error, or a panic.
\<close>

datatype handler_result = HandlerOk | HandlerErr string | HandlerPanic string

type_synonym handler = "job \<Rightarrow> handler_result"

record registry =
  handlers :: "(string \<times> handler) list"
  concurrency :: "(string \<times> int) list"
  offload :: "(string \<times> bool) list"
  chains :: "(string \<times> string list) list"
  userScoped :: "(string \<times> bool) list"

definition NewRegistry :: registry where
  "NewRegistry = \<lparr>handlers = [], concurrency = [], offload = [], chains = [], userScoped = []\<rparr>"

definition Register :: "registry \<Rightarrow> string \<Rightarrow> handler \<Rightarrow> registry" where
  "Register r kind h = r\<lparr>handlers := aput (handlers r) kind h\<rparr>"

definition Handler :: "registry \<Rightarrow> string \<Rightarrow> handler option" where
  "Handler r kind = aget (handlers r) kind"

definition SetConcurrency :: "registry \<Rightarrow> string \<Rightarrow> int \<Rightarrow> registry" where
  "SetConcurrency r kind mx = r\<lparr>concurrency := aput (concurrency r) kind mx\<rparr>"

definition Concurrency :: "registry \<Rightarrow> (string \<times> int) list" where
  "Concurrency r = concurrency r"

definition sorted_keys :: "(string \<times> 'v) list \<Rightarrow> string list" where
  "sorted_keys m = sort (map fst m)"

definition Kinds :: "registry \<Rightarrow> string list" where
  "Kinds r = sorted_keys (handlers r)"

definition SetOffload :: "registry \<Rightarrow> string \<Rightarrow> registry" where
  "SetOffload r kind = r\<lparr>offload := aput (offload r) kind True\<rparr>"

definition OffloadKinds :: "registry \<Rightarrow> string list" where
  "OffloadKinds r = sorted_keys (offload r)"

definition SetChain :: "registry \<Rightarrow> string \<Rightarrow> string list \<Rightarrow> registry" where
  "SetChain r kind steps = r\<lparr>chains := aput (chains r) kind steps\<rparr>"

definition Chains :: "registry \<Rightarrow> (string \<times> string list) list" where
  "Chains r = chains r"

fun SetUserScoped :: "registry \<Rightarrow> string list \<Rightarrow> registry" where
  "SetUserScoped r [] = r"
| "SetUserScoped r (k # ks) = SetUserScoped (r\<lparr>userScoped := aput (userScoped r) k True\<rparr>) ks"

definition UserScopedKinds :: "registry \<Rightarrow> string list" where
  "UserScopedKinds r = sorted_keys (userScoped r)"

definition DeriveKindFilter ::
    "string \<Rightarrow> string list \<Rightarrow> string list \<Rightarrow> string list \<Rightarrow> string list \<times> string list" where
  "DeriveKindFilter role off envInclude envExclude =
     (if envInclude \<noteq> [] \<or> envExclude \<noteq> [] then (envInclude, envExclude)
      else if role = ''worker'' then (off, [])
      else if role = ''server'' then ([], off)
      else ([], []))"

definition registry_wf :: "registry \<Rightarrow> bool" where
  "registry_wf r \<longleftrightarrow> distinct (map fst (handlers r)) \<and> distinct (map fst (concurrency r)) \<and>
     distinct (map fst (offload r)) \<and> distinct (map fst (chains r)) \<and> distinct (map fst (userScoped r))"

lemma registry_wf_ops [simp]:
  "registry_wf NewRegistry"
  "registry_wf r \<Longrightarrow> registry_wf (Register r k h)"
  "registry_wf r \<Longrightarrow> registry_wf (SetConcurrency r k mx)"
  "registry_wf r \<Longrightarrow> registry_wf (SetOffload r k)"
  "registry_wf r \<Longrightarrow> registry_wf (SetChain r k steps)"
  by (simp_all add: registry_wf_def NewRegistry_def Register_def SetConcurrency_def SetOffload_def
      SetChain_def distinct_aput)

lemma registry_wf_SetUserScoped [simp]: "registry_wf r \<Longrightarrow> registry_wf (SetUserScoped r ks)"
  by (induction r ks rule: SetUserScoped.induct) (simp_all add: registry_wf_def distinct_aput)

lemma set_sorted_keys [simp]: "set (sorted_keys m) = fst ` set m"
  by (simp add: sorted_keys_def)

text \<open>The last registration of a kind is the one that runs.\<close>

lemma Handler_Register [simp]:
  "Handler (Register r k h) k' = (if k' = k then Some h else Handler r k')"
  by (simp add: Handler_def Register_def aget_aput)

text \<open>
  Under the derived filters, with an offload set that is not empty and no operator override,
  a due queued job is claimable by exactly one of the two roles: no kind is orphaned and none is
  drained by both.
\<close>

lemma routing_partition:
  assumes "off \<noteq> []" "j_status r = StatusQueued" "j_run_at r \<le> now"
  shows "(case DeriveKindFilter ''worker'' off [] [] of (i, e) \<Rightarrow> claimable now i e r) \<noteq>
         (case DeriveKindFilter ''server'' off [] [] of (i, e) \<Rightarrow> claimable now i e r)"
  using assms by (auto simp: DeriveKindFilter_def claimable_def)

lemma routing_partition_witness:
  "\<exists>r. (case DeriveKindFilter ''worker'' [''label-image''] [] [] of (i, e) \<Rightarrow> claimable 5 i e r) \<noteq>
        (case DeriveKindFilter ''server'' [''label-image''] [] [] of (i, e) \<Rightarrow> claimable 5 i e r)"
proof -
  define r where "r = last (rows (fst (Enqueue \<lparr>rows = [], next_id = 1, scheds = []\<rparr> 5
                       ''label-image'' [] [] 3 zero_time)))"
  have "j_status r = StatusQueued" "j_run_at r \<le> 5"
    by (simp_all add: r_def Enqueue_def time_is_zero_def)
  from routing_partition [OF _ this, of "[''label-image'']"] show ?thesis
    by (intro exI [of _ r]) simp
qed

end
