(* ===== verification/JobLimiter.thy ===== *)
theory JobLimiter
  imports Prelude
begin

text \<open>
  The per-kind concurrency caps of the job queue (internal/jobs/limiter.go): the in-process
  limiter, whose release closures run at most once, and the limiter on a Redis sorted set, whose
  slots expire unless their holder refreshes them. Both implement the interface KindLimiter, here
  the locale \<open>kind_limiter\<close>, inside which the cap theorem is proved once.

  A sorted set is an association list from members to scores with distinct members; the commands
  ZADD, ZADD XX, ZREM, ZCARD and ZREMRANGEBYSCORE are written out from their documented meaning.
\<close>

text \<open>A transport error of the Redis client, by its message.\<close>

type_synonym net_error = string

section \<open>The in-process limiter\<close>

text \<open>
  \<open>counts\<close> is the Go map with its zero default; \<open>slots\<close> holds, for every release closure handed
  out, its kind and whether its \<open>sync.Once\<close> has fired.
\<close>

record mem_limiter =
  counts :: "string \<Rightarrow> int"
  slots :: "(string \<times> bool) list"

datatype mem_release = MemNoop | MemSlot nat

definition newMemLimiter :: mem_limiter where
  "newMemLimiter = \<lparr>counts = (\<lambda>_. 0), slots = []\<rparr>"

definition mem_Acquire ::
    "mem_limiter \<Rightarrow> gotime \<Rightarrow> string \<Rightarrow> string \<Rightarrow> int \<Rightarrow> mem_limiter \<times> mem_release option" where
  "mem_Acquire l now kind holder mx =
     (if mx \<le> 0 then (l, Some MemNoop)
      else if counts l kind \<ge> mx then (l, None)
      else (l\<lparr>counts := (counts l)(kind := counts l kind + 1), slots := slots l @ [(kind, False)]\<rparr>,
            Some (MemSlot (length (slots l)))))"

text \<open>The closure returned by Acquire, run under its \<open>once\<close>.\<close>

fun mem_Release :: "mem_limiter \<Rightarrow> mem_release \<Rightarrow> mem_limiter" where
  "mem_Release l MemNoop = l"
| "mem_Release l (MemSlot i) =
     (if i < length (slots l) \<and> \<not> snd (slots l ! i)
      then (let kind = fst (slots l ! i) in
            l\<lparr>counts := (if counts l kind > 0 then (counts l)(kind := counts l kind - 1) else counts l),
              slots := (slots l)[i := (kind, True)]\<rparr>)
      else l)"

definition mem_Refresh :: "mem_limiter \<Rightarrow> gotime \<Rightarrow> string \<Rightarrow> string \<Rightarrow> mem_limiter" where
  "mem_Refresh l now kind holder = l"

definition mem_Excluded ::
    "mem_limiter \<Rightarrow> gotime \<Rightarrow> (string \<times> int) list \<Rightarrow> mem_limiter \<times> string list" where
  "mem_Excluded l now limits =
     (l, [kind. (kind, mx) \<leftarrow> limits, \<not> mx \<le> 0, counts l kind \<ge> mx])"

definition open_slots :: "(string \<times> bool) list \<Rightarrow> string \<Rightarrow> int" where
  "open_slots ss k = int (length (filter (\<lambda>p. fst p = k \<and> \<not> snd p) ss))"

definition mem_wf :: "mem_limiter \<Rightarrow> bool" where
  "mem_wf l \<longleftrightarrow> (\<forall>k. counts l k = open_slots (slots l) k)"

lemma open_slots_nonneg [simp]: "0 \<le> open_slots ss k"
  by (simp add: open_slots_def)

lemma open_slots_Cons [simp]:
  "open_slots (s # ss) k = open_slots ss k + (if fst s = k \<and> \<not> snd s then 1 else 0)"
  by (simp add: open_slots_def)

lemma open_slots_snoc [simp]:
  "open_slots (ss @ [(k', b)]) k = open_slots ss k + (if k' = k \<and> \<not> b then 1 else 0)"
  by (simp add: open_slots_def)

lemma open_slots_fire:
  assumes "i < length ss" "\<not> snd (ss ! i)"
  shows "open_slots (ss[i := (fst (ss ! i), True)]) k =
         open_slots ss k - (if fst (ss ! i) = k then 1 else 0)"
  using assms
proof (induction ss arbitrary: i)
  case Nil
  then show ?case by simp
next
  case (Cons s ss)
  then show ?case
    by (cases i) auto
qed

lemma mem_wf_new: "mem_wf newMemLimiter"
  by (simp add: mem_wf_def newMemLimiter_def open_slots_def)

lemma mem_wf_Acquire: "mem_wf l \<Longrightarrow> mem_wf (fst (mem_Acquire l now k h mx))"
  by (auto simp: mem_wf_def mem_Acquire_def)

lemma open_slots_pos:
  assumes "i < length ss" "\<not> snd (ss ! i)"
  shows "0 < open_slots ss (fst (ss ! i))"
proof -
  have "ss ! i \<in> set (filter (\<lambda>p. fst p = fst (ss ! i) \<and> \<not> snd p) ss)"
    using assms by simp
  then have "0 < length (filter (\<lambda>p. fst p = fst (ss ! i) \<and> \<not> snd p) ss)"
    by (metis length_pos_if_in_set)
  then show ?thesis
    by (simp add: open_slots_def)
qed

lemma mem_wf_Release: "mem_wf l \<Longrightarrow> mem_wf (mem_Release l r)"
  by (cases r) (auto simp: mem_wf_def Let_def open_slots_fire dest: open_slots_pos)

section \<open>The Redis limiter\<close>

definition semTTL :: duration where
  "semTTL = minutes 2"

definition slotRefreshInterval :: duration where
  "slotRefreshInterval = seconds 30"

definition semKey :: "string \<Rightarrow> string" where
  "semKey kind = ''boomtime:jobs:sem:'' @ kind"

text \<open>One sorted set per key: members with their scores.\<close>

type_synonym zset = "(string \<times> int) list"
type_synonym redis = "string \<Rightarrow> zset"

definition zremrangebyscore :: "int \<Rightarrow> zset \<Rightarrow> zset" where
  "zremrangebyscore cutoff z = filter (\<lambda>(m, score). \<not> score \<le> cutoff) z"

definition zrem :: "string \<Rightarrow> zset \<Rightarrow> zset" where
  "zrem member z = filter (\<lambda>(m, score). m \<noteq> member) z"

definition zadd_xx :: "string \<Rightarrow> int \<Rightarrow> zset \<Rightarrow> zset" where
  "zadd_xx member score z = (if aget z member = None then z else aput z member score)"

text \<open>\<open>acquireScript\<close>: prune, compare the cardinality with the cap, add. The result is the reply.\<close>

definition acquireScript :: "zset \<Rightarrow> int \<Rightarrow> int \<Rightarrow> int \<Rightarrow> string \<Rightarrow> zset \<times> int" where
  "acquireScript z now cutoff mx holder =
     (let z1 = zremrangebyscore cutoff z in
      if int (length z1) < mx then (aput z1 holder now, 1) else (z1, 0))"

datatype redis_release = RedisNoop | RedisSlot string string

definition redis_Acquire ::
    "net_error option \<Rightarrow> redis \<Rightarrow> gotime \<Rightarrow> string \<Rightarrow> string \<Rightarrow> int \<Rightarrow> redis \<times> (net_error + redis_release option)" where
  "redis_Acquire net r now kind holder mx =
     (if mx \<le> 0 then (r, Inr (Some RedisNoop))
      else (case net of
          Some e \<Rightarrow> (r, Inl e)
        | None \<Rightarrow>
            (let cutoff = unix (now - semTTL);
                 (z, res) = acquireScript (r (semKey kind)) (unix now) cutoff mx holder;
                 r' = r(semKey kind := z)
             in if res \<noteq> 1 then (r', Inr None)
                else (r', Inr (Some (RedisSlot (semKey kind) holder))))))"

fun redis_Release :: "redis \<Rightarrow> redis_release \<Rightarrow> redis" where
  "redis_Release r RedisNoop = r"
| "redis_Release r (RedisSlot key holder) = r(key := zrem holder (r key))"

definition redis_Refresh :: "redis \<Rightarrow> gotime \<Rightarrow> string \<Rightarrow> string \<Rightarrow> redis" where
  "redis_Refresh r now kind holder =
     r(semKey kind := zadd_xx holder (unix now) (r (semKey kind)))"

text \<open>
  Excluded pipelines one prune and one ZCARD per limited kind, in the iteration order of the
  limits, and then compares the cardinalities.
\<close>

fun excluded_pipe :: "int \<Rightarrow> (string \<times> int) list \<Rightarrow> redis \<Rightarrow> redis \<times> (string \<times> int \<times> int) list" where
  "excluded_pipe cutoff [] r = (r, [])"
| "excluded_pipe cutoff ((kind, mx) # limits) r =
     (if mx \<le> 0 then excluded_pipe cutoff limits r
      else (let z = zremrangebyscore cutoff (r (semKey kind));
                (r', es) = excluded_pipe cutoff limits (r(semKey kind := z))
            in (r', (kind, mx, int (length z)) # es)))"

definition redis_Excluded ::
    "net_error option \<Rightarrow> redis \<Rightarrow> gotime \<Rightarrow> (string \<times> int) list \<Rightarrow> redis \<times> (net_error + string list)" where
  "redis_Excluded net r now limits =
     (if limits = [] then (r, Inr [])
      else (let cutoff = unix (now - semTTL);
                (r', entries) = excluded_pipe cutoff limits r
            in if entries = [] then (r, Inr [])
               else (case net of
                   Some e \<Rightarrow> (r, Inl e)
                 | None \<Rightarrow> (r', Inr [kind. (kind, mx, n) \<leftarrow> entries, n \<ge> mx]))))"

definition redis_wf :: "redis \<Rightarrow> bool" where
  "redis_wf r \<longleftrightarrow> (\<forall>k. distinct (map fst (r k)))"

lemma semKey_inj [simp]: "semKey a = semKey b \<longleftrightarrow> a = b"
  by (simp add: semKey_def)

lemma length_aput_le: "length (aput z m s) \<le> Suc (length z)"
  by (induction z m s rule: aput.induct) auto

lemma length_aput_present: "aget z m \<noteq> None \<Longrightarrow> length (aput z m s) = length z"
  by (induction z m s rule: aput.induct) auto

lemma distinct_filter_keys: "distinct (map fst z) \<Longrightarrow> distinct (map fst (filter P z))"
  by (simp add: distinct_map_filter)

lemma aget_filter_None: "aget z m = None \<Longrightarrow> aget (filter P z) m = None"
  by (auto simp: aget_None_iff)

section \<open>The interface\<close>

text \<open>
  \<open>held\<close> is the number of reserved slots of a kind, \<open>live\<close> the number that count against the
  cap at an instant. The two laws on \<open>acquire\<close> are admission (granted exactly when the live
  slots are below a positive cap) and the cap itself.
\<close>

locale kind_limiter =
  fixes acquire :: "'s \<Rightarrow> gotime \<Rightarrow> string \<Rightarrow> string \<Rightarrow> int \<Rightarrow> 's \<times> 'r option"
    and release :: "'s \<Rightarrow> 'r \<Rightarrow> 's"
    and refresh :: "'s \<Rightarrow> gotime \<Rightarrow> string \<Rightarrow> string \<Rightarrow> 's"
    and excluded :: "'s \<Rightarrow> gotime \<Rightarrow> (string \<times> int) list \<Rightarrow> 's \<times> string list"
    and held :: "'s \<Rightarrow> string \<Rightarrow> int"
    and live :: "'s \<Rightarrow> gotime \<Rightarrow> string \<Rightarrow> int"
    and wf :: "'s \<Rightarrow> bool"
  assumes wf_acquire: "wf s \<Longrightarrow> wf (fst (acquire s t k h m))"
    and wf_release: "wf s \<Longrightarrow> wf (release s r)"
    and wf_refresh: "wf s \<Longrightarrow> wf (refresh s t k h)"
    and wf_excluded: "wf s \<Longrightarrow> wf (fst (excluded s t ls))"
    and admission: "0 < m \<Longrightarrow> snd (acquire s t k h m) = None \<longleftrightarrow> m \<le> live s t k"
    and cap: "wf s \<Longrightarrow> 0 < m \<Longrightarrow> held s k \<le> m \<Longrightarrow> held (fst (acquire s t k h m)) k \<le> m"
    and unlimited: "m \<le> 0 \<Longrightarrow> fst (acquire s t k h m) = s"
    and acquire_frame: "k' \<noteq> k \<Longrightarrow> held (fst (acquire s t k h m)) k' = held s k'"
    and release_le: "wf s \<Longrightarrow> held (release s r) k \<le> held s k"
    and refresh_le: "held (refresh s t k h) k' \<le> held s k'"
    and excluded_le: "held (fst (excluded s t ls)) k \<le> held s k"
    and excluded_live: "distinct (map fst ls) \<Longrightarrow>
      k \<in> set (snd (excluded s t ls)) \<longleftrightarrow> (\<exists>m. (k, m) \<in> set ls \<and> 0 < m \<and> m \<le> live s t k)"

text \<open>A client: any sequence of calls, with the caps of the registry fixed.\<close>

datatype 'r lim_op =
    LAcquire gotime string string
  | LRelease 'r
  | LRefresh gotime string string
  | LExcluded gotime

definition cap_of :: "(string \<times> int) list \<Rightarrow> string \<Rightarrow> int" where
  "cap_of limits k = (case aget limits k of None \<Rightarrow> 0 | Some m \<Rightarrow> m)"

fun lim_step where
  "lim_step acquire release refresh excluded limits s (LAcquire t k h) =
     fst (acquire s t k h (cap_of limits k))"
| "lim_step acquire release refresh excluded limits s (LRelease r) = release s r"
| "lim_step acquire release refresh excluded limits s (LRefresh t k h) = refresh s t k h"
| "lim_step acquire release refresh excluded limits s (LExcluded t) = fst (excluded s t limits)"

definition lim_run where
  "lim_run acquire release refresh excluded limits s ops =
     foldl (lim_step acquire release refresh excluded limits) s ops"

context kind_limiter
begin

definition capped :: "(string \<times> int) list \<Rightarrow> 's \<Rightarrow> bool" where
  "capped limits s \<longleftrightarrow> wf s \<and> (\<forall>k. 0 < cap_of limits k \<longrightarrow> held s k \<le> cap_of limits k)"

lemma capped_acquire:
  assumes "capped limits s"
  shows "capped limits (fst (acquire s t k h (cap_of limits k)))"
proof -
  have "held (fst (acquire s t k h (cap_of limits k))) k' \<le> cap_of limits k'"
    if "0 < cap_of limits k'" for k'
    using assms that by (cases "k' = k") (auto simp: capped_def acquire_frame cap)
  then show ?thesis
    using assms by (auto simp: capped_def wf_acquire)
qed

lemma capped_step:
  assumes "capped limits s"
  shows "capped limits (lim_step acquire release refresh excluded limits s op)"
proof (cases op)
  case (LAcquire t k h)
  with assms show ?thesis by (simp add: capped_acquire)
next
  case (LRelease r)
  with assms show ?thesis
    by (auto simp: capped_def wf_release intro: order_trans [OF release_le])
next
  case (LRefresh t k h)
  with assms show ?thesis
    by (auto simp: capped_def wf_refresh intro: order_trans [OF refresh_le])
next
  case (LExcluded t)
  with assms show ?thesis
    by (auto simp: capped_def wf_excluded intro: order_trans [OF excluded_le])
qed

lemma capped_run:
  "capped limits s \<Longrightarrow> capped limits (lim_run acquire release refresh excluded limits s ops)"
  unfolding lim_run_def
  by (induction ops arbitrary: s) (auto intro: capped_step)

lemma held_run_le_cap:
  assumes "wf s" "\<And>k. held s k = 0" "0 < cap_of limits k"
  shows "held (lim_run acquire release refresh excluded limits s ops) k \<le> cap_of limits k"
proof -
  from assms have "capped limits s" by (auto simp: capped_def)
  then have "capped limits (lim_run acquire release refresh excluded limits s ops)"
    by (rule capped_run)
  with assms(3) show ?thesis by (simp add: capped_def)
qed

text \<open>A kind the exclude pass does not report is admitted if nothing happens in between.\<close>

lemma not_excluded_admitted:
  assumes "distinct (map fst limits)" "(k, m) \<in> set limits" "0 < m"
  shows "k \<in> set (snd (excluded s t limits)) \<longleftrightarrow> snd (acquire s t k h m) = None"
proof -
  have "(k, m') \<in> set limits \<Longrightarrow> m' = m" for m'
    using aget_mem [OF assms(1), of k m] aget_mem [OF assms(1), of k m'] assms(2) by simp
  then have "k \<in> set (snd (excluded s t limits)) \<longleftrightarrow> m \<le> live s t k"
    unfolding excluded_live [OF assms(1)] using assms(2,3) by blast
  then show ?thesis
    by (simp only: admission [OF assms(3)])
qed

end

interpretation mem: kind_limiter mem_Acquire mem_Release mem_Refresh mem_Excluded counts
    "\<lambda>l t k. counts l k" mem_wf
proof (unfold_locales, goal_cases)
  case (1 s t k h m)
  then show ?case by (rule mem_wf_Acquire)
next
  case (8 k' k s t h m)
  then show ?case by (auto simp: mem_Acquire_def)
next
  case (9 s r k)
  then show ?case by (cases r) (auto simp: Let_def)
next
  case (12 ls k s t)
  then show ?case by (force simp: mem_Excluded_def)
qed (auto simp: mem_wf_Release mem_Refresh_def mem_Excluded_def mem_Acquire_def)

text \<open>The Redis limiter on a reachable server, in the shape of the interface.\<close>

definition redis_acquire where
  "redis_acquire r t k h m =
     (case redis_Acquire None r t k h m of (r', Inl e) \<Rightarrow> (r', None) | (r', Inr x) \<Rightarrow> (r', x))"

definition redis_excluded where
  "redis_excluded r t ls =
     (case redis_Excluded None r t ls of (r', Inl e) \<Rightarrow> (r', []) | (r', Inr x) \<Rightarrow> (r', x))"

definition redis_held :: "redis \<Rightarrow> string \<Rightarrow> int" where
  "redis_held r k = int (length (r (semKey k)))"

definition redis_live :: "redis \<Rightarrow> gotime \<Rightarrow> string \<Rightarrow> int" where
  "redis_live r t k = int (length (zremrangebyscore (unix (t - semTTL)) (r (semKey k))))"

lemma redis_acquire_eq:
  "redis_acquire r t k h m =
     (if m \<le> 0 then (r, Some RedisNoop)
      else (let z = zremrangebyscore (unix (t - semTTL)) (r (semKey k)) in
            if redis_live r t k < m
            then (r(semKey k := aput z h (unix t)), Some (RedisSlot (semKey k) h))
            else (r(semKey k := z), None)))"
  by (simp add: redis_acquire_def redis_Acquire_def acquireScript_def redis_live_def Let_def)

lemma prune_prune [simp]:
  "zremrangebyscore c (zremrangebyscore c z) = zremrangebyscore c z"
  by (simp add: zremrangebyscore_def case_prod_unfold)

lemma prune_update:
  "zremrangebyscore c ((r(key := zremrangebyscore c (r key))) k) = zremrangebyscore c (r k)"
  by simp

lemma excluded_pipe_entries:
  "distinct (map fst ls) \<Longrightarrow>
   set (snd (excluded_pipe c ls r)) =
     {(k, m, int (length (zremrangebyscore c (r (semKey k))))) | k m. (k, m) \<in> set ls \<and> 0 < m}"
proof (induction c ls r rule: excluded_pipe.induct)
  case (1 c r)
  then show ?case by simp
next
  case (2 c kind mx ls r)
  show ?case
  proof (cases "mx \<le> 0")
    case True
    with 2 show ?thesis by auto
  next
    case False
    let ?r = "r(semKey kind := zremrangebyscore c (r (semKey kind)))"
    have "set (snd (excluded_pipe c ls ?r)) =
        {(k, m, int (length (zremrangebyscore c (r (semKey k))))) | k m. (k, m) \<in> set ls \<and> 0 < m}"
      using 2(2) [OF False refl] 2(3) by (simp only: prune_update distinct.simps list.map fst_conv)
    with False show ?thesis
      by (auto simp: Let_def split: prod.splits)
  qed
qed

lemma excluded_pipe_state:
  "fst (excluded_pipe c ls r) k = r k \<or> fst (excluded_pipe c ls r) k = zremrangebyscore c (r k)"
proof (induction c ls r rule: excluded_pipe.induct)
  case (2 c kind mx ls r)
  show ?case
  proof (cases "mx \<le> 0")
    case True
    with 2 show ?thesis by simp
  next
    case False
    let ?r = "r(semKey kind := zremrangebyscore c (r (semKey kind)))"
    have "fst (excluded_pipe c ls ?r) k = ?r k \<or> fst (excluded_pipe c ls ?r) k = zremrangebyscore c (?r k)"
      using 2(2) False by blast
    moreover have "?r k = r k \<or> ?r k = zremrangebyscore c (r k)"
      by simp
    ultimately have "fst (excluded_pipe c ls ?r) k = r k \<or>
        fst (excluded_pipe c ls ?r) k = zremrangebyscore c (r k)"
      by (metis prune_prune)
    with False show ?thesis
      by (simp add: Let_def case_prod_unfold)
  qed
qed simp

lemma redis_excluded_state:
  "fst (redis_excluded r t ls) k = r k \<or>
   fst (redis_excluded r t ls) k = zremrangebyscore (unix (t - semTTL)) (r k)"
  using excluded_pipe_state [of "unix (t - semTTL)" ls r k]
  by (auto simp: redis_excluded_def redis_Excluded_def Let_def split: prod.splits if_splits)

lemma redis_excluded_set:
  assumes "distinct (map fst ls)"
  shows "k \<in> set (snd (redis_excluded r t ls)) \<longleftrightarrow>
         (\<exists>m. (k, m) \<in> set ls \<and> 0 < m \<and> m \<le> redis_live r t k)"
  using excluded_pipe_entries [OF assms, of "unix (t - semTTL)" r]
  by (force simp: redis_excluded_def redis_Excluded_def redis_live_def Let_def split: prod.splits if_splits)

lemma length_prune_le [simp]: "length (zremrangebyscore c z) \<le> length z"
  by (simp add: zremrangebyscore_def)

interpretation redis: kind_limiter redis_acquire redis_Release redis_Refresh redis_excluded
    redis_held redis_live redis_wf
proof (unfold_locales, goal_cases)
  case (1 s t k h m)
  then show ?case
    by (auto simp: redis_wf_def redis_acquire_eq Let_def distinct_aput zremrangebyscore_def
        distinct_filter_keys)
next
  case (2 s r)
  then show ?case
    by (cases r) (auto simp: redis_wf_def zrem_def distinct_filter_keys)
next
  case (3 s t k h)
  then show ?case
    by (auto simp: redis_wf_def redis_Refresh_def zadd_xx_def distinct_aput)
next
  case (4 s t ls)
  then have "distinct (map fst (fst (redis_excluded s t ls) k))" for k
    using redis_excluded_state [of s t ls k]
    by (auto simp: redis_wf_def zremrangebyscore_def distinct_filter_keys)
  then show ?case by (simp add: redis_wf_def)
next
  case (5 m s t k h)
  then show ?case by (auto simp: redis_acquire_eq Let_def)
next
  case (6 s m k t h)
  then have "redis_live s t k < m \<Longrightarrow>
      int (length (aput (zremrangebyscore (unix (t - semTTL)) (s (semKey k))) h (unix t))) \<le> m"
    using length_aput_le [of "zremrangebyscore (unix (t - semTTL)) (s (semKey k))" h "unix t"]
    by (simp add: redis_live_def)
  moreover from length_prune_le
  have "int (length (zremrangebyscore (unix (t - semTTL)) (s (semKey k)))) \<le> redis_held s k"
    by (simp add: redis_held_def)
  with 6 have "int (length (zremrangebyscore (unix (t - semTTL)) (s (semKey k)))) \<le> m"
    by linarith
  ultimately show ?case
    using 6 by (auto simp: redis_acquire_eq redis_held_def Let_def)
next
  case (7 m s t k h)
  then show ?case by (simp add: redis_acquire_eq)
next
  case (8 k' k s t h m)
  then show ?case by (auto simp: redis_acquire_eq redis_held_def Let_def)
next
  case (9 s r k)
  then show ?case by (cases r) (auto simp: redis_held_def zrem_def)
next
  case (10 s t k h k')
  then show ?case
    by (auto simp: redis_held_def redis_Refresh_def zadd_xx_def length_aput_present)
next
  case (11 s t ls k)
  then show ?case
    using redis_excluded_state [of s t ls "semKey k"] by (auto simp: redis_held_def)
next
  case (12 ls k s t)
  then show ?case by (rule redis_excluded_set)
qed

end
