(* ===== verification/JobExec.thy ===== *)
theory JobExec
  imports JobRegistry JobLimiter
begin

text \<open>
  Running claimed jobs: internal/jobs/exec.go (retry back-off and the outcome of one run),
  internal/jobs/local.go (the slot around a run, the drain loop, in-process cancellation) and
  internal/jobs/scheduler.go. What happens outside the calling worker during a run (other
  workers, the reaper, an admin) is the argument \<open>env\<close> of the definitions that span a run.
\<close>

section \<open>One run\<close>

datatype outcome = OutcomeDone | OutcomeRetry | OutcomeFailed

record job_event =
  ev_id :: int
  ev_kind :: string
  ev_owner :: string
  ev_status :: status
  ev_error :: string

definition retryDelay :: "int \<Rightarrow> duration" where
  "retryDelay attempt =
     (let d = attempt * seconds 30 in if d > minutes 10 then minutes 10 else d)"

text \<open>A store call that may fail at the database; a failed call leaves the store as it was.\<close>

definition db_call :: "string option \<Rightarrow> store \<Rightarrow> store \<times> 'a \<Rightarrow> store \<times> (string + 'a)" where
  "db_call dberr s res =
     (case dberr of Some e \<Rightarrow> (s, Inl e) | None \<Rightarrow> (fst res, Inr (snd res)))"

text \<open>The result of a run: the store, the outcome, the notifications and the metrics label.\<close>

record exec_result =
  x_store :: store
  x_outcome :: outcome
  x_events :: "job_event list"
  x_metric :: string

definition notify :: "job \<Rightarrow> status \<Rightarrow> string \<Rightarrow> job_event" where
  "notify j st msg = \<lparr>ev_id = j_id j, ev_kind = j_kind j, ev_owner = j_owner j, ev_status = st, ev_error = msg\<rparr>"

fun handler_error :: "handler_result \<Rightarrow> string option" where
  "handler_error HandlerOk = None"
| "handler_error (HandlerErr e) = Some e"
| "handler_error (HandlerPanic v) = Some (''panic: '' @ v)"

definition lost_result :: "store \<Rightarrow> exec_result" where
  "lost_result s = \<lparr>x_store = s, x_outcome = OutcomeFailed, x_events = [], x_metric = ''lost''\<rparr>"

text \<open>
  \<open>s\<close> is the store when the run ends, \<open>cancelled\<close> whether the context was cancelled by then,
  \<open>dberr\<close> the error of the terminal write, if any.
\<close>

definition execute ::
    "registry \<Rightarrow> store \<Rightarrow> gotime \<Rightarrow> job \<Rightarrow> bool \<Rightarrow> string option \<Rightarrow> exec_result" where
  "execute reg s now j cancelled dberr =
     (case Handler reg (j_kind j) of
        None \<Rightarrow>
          (let (s', _) = db_call dberr s
                 (Fail now (''no handler registered for kind '' @ j_kind j) None s (j_id j) (j_locked_by j))
           in \<lparr>x_store = s', x_outcome = OutcomeFailed,
               x_events = [notify j StatusFailed (''no handler for kind '' @ j_kind j)],
               x_metric = ''failed''\<rparr>)
      | Some h \<Rightarrow>
          (if cancelled
           then \<lparr>x_store = s, x_outcome = OutcomeFailed, x_events = [], x_metric = ''cancelled''\<rparr>
           else (case handler_error (h j) of
               None \<Rightarrow>
                 (case db_call dberr s (Complete now s (j_id j) (j_locked_by j)) of
                    (s', Inr False) \<Rightarrow> lost_result s'
                  | (s', _) \<Rightarrow>
                      \<lparr>x_store = s', x_outcome = OutcomeDone, x_events = [notify j StatusDone []],
                       x_metric = ''done''\<rparr>)
             | Some e \<Rightarrow>
                 (if j_attempts j < j_max_attempts j
                  then (case db_call dberr s
                          (Fail now e (Some (now + retryDelay (j_attempts j))) s (j_id j) (j_locked_by j)) of
                          (s', Inr False) \<Rightarrow> lost_result s'
                        | (s', _) \<Rightarrow>
                            \<lparr>x_store = s', x_outcome = OutcomeRetry, x_events = [], x_metric = ''retry''\<rparr>)
                  else (case db_call dberr s (Fail now e None s (j_id j) (j_locked_by j)) of
                          (s', Inr False) \<Rightarrow> lost_result s'
                        | (s', _) \<Rightarrow>
                            \<lparr>x_store = s', x_outcome = OutcomeFailed, x_events = [notify j StatusFailed e],
                             x_metric = ''failed''\<rparr>)))))"

section \<open>The slot around a run\<close>

record provider =
  p_id :: string
  p_workers :: int
  p_include :: "string list"
  p_exclude :: "string list"
  p_cancels :: "(int \<times> bool) list"

definition SetKindFilter :: "provider \<Rightarrow> string list \<Rightarrow> string list \<Rightarrow> provider" where
  "SetKindFilter p incl excl = p\<lparr>p_include := incl, p_exclude := excl\<rparr>"

definition SetWorkers :: "provider \<Rightarrow> int \<Rightarrow> provider" where
  "SetWorkers p n = p\<lparr>p_workers := (if n < 1 then 1 else n)\<rparr>"

definition workerID :: "provider \<Rightarrow> int \<Rightarrow> string" where
  "workerID p slot = (if p_workers p \<le> 1 then p_id p else p_id p @ ''#'' @ itoa slot)"

definition holder_id :: "provider \<Rightarrow> job \<Rightarrow> string" where
  "holder_id p j = p_id p @ '':'' @ itoa (j_id j)"

definition claimExclude :: "provider \<Rightarrow> (string + string list) option \<Rightarrow> string list" where
  "claimExclude p excluded =
     (case excluded of None \<Rightarrow> p_exclude p
      | Some (Inl e) \<Rightarrow> p_exclude p
      | Some (Inr excl) \<Rightarrow> p_exclude p @ excl)"

definition track :: "provider \<Rightarrow> job \<Rightarrow> provider" where
  "track p j = p\<lparr>p_cancels := aput (p_cancels p) (j_id j) False\<rparr>"

definition untrack :: "provider \<Rightarrow> job \<Rightarrow> provider" where
  "untrack p j = p\<lparr>p_cancels := filter (\<lambda>(i, c). i \<noteq> j_id j) (p_cancels p)\<rparr>"

definition Cancel :: "provider \<Rightarrow> int \<Rightarrow> provider \<times> bool" where
  "Cancel p i =
     (case aget (p_cancels p) i of None \<Rightarrow> (p, False)
      | Some c \<Rightarrow> (p\<lparr>p_cancels := aput (p_cancels p) i True\<rparr>, True))"

text \<open>
  The world a run sees: the provider, the store and the limiter. \<open>env\<close> is what the others do to
  it while the handler runs; \<open>fatal\<close> says whether the parent context was cancelled meanwhile.
\<close>

type_synonym 'l world = "provider \<times> store \<times> 'l"

definition execTracked ::
    "registry \<Rightarrow> ('l world \<Rightarrow> 'l world) \<Rightarrow> bool \<Rightarrow> gotime \<Rightarrow> string option \<Rightarrow> job \<Rightarrow> 'l world \<Rightarrow>
     'l world \<times> outcome \<times> job_event list" where
  "execTracked reg env fatal now dberr j w =
     (let (p, s, l) = w;
          (p1, s1, l1) = env (track p j, s, l);
          cancelled = (fatal \<or> aget (p_cancels p1) (j_id j) = Some True);
          x = execute reg s1 now j cancelled dberr
      in ((untrack p1 j, x_store x, l1), x_outcome x, x_events x))"

text \<open>
  runJob on an optional limiter: \<open>acquire\<close> may fail (run unthrottled), refuse (requeue the row)
  or grant a slot, which is released after the run. The flag is runJob's result.
\<close>

definition runJob ::
    "('l \<Rightarrow> gotime \<Rightarrow> string \<Rightarrow> string \<Rightarrow> int \<Rightarrow> 'l \<times> (string + 'r option)) \<Rightarrow> ('l \<Rightarrow> 'r \<Rightarrow> 'l) \<Rightarrow> bool \<Rightarrow>
     registry \<Rightarrow> ('l world \<Rightarrow> 'l world) \<Rightarrow> bool \<Rightarrow> gotime \<Rightarrow> gotime \<Rightarrow> string option \<Rightarrow> job \<Rightarrow> 'l world \<Rightarrow>
     'l world \<times> bool" where
  "runJob acquire release limited reg env fatal t1 t2 dberr j w =
     (let mx = cap_of (Concurrency reg) (j_kind j);
          plain = (\<lambda>w. (fst (execTracked reg env fatal t2 dberr j w), True))
      in if \<not> limited \<or> \<not> mx > 0 then plain w
         else (case w of (p, s, l) \<Rightarrow>
           (case acquire l t1 (j_kind j) (holder_id p j) mx of
              (l', Inl e) \<Rightarrow> plain (p, s, l')
            | (l', Inr None) \<Rightarrow> ((p, fst (Requeue s (j_id j) (j_locked_by j)), l'), False)
            | (l', Inr (Some rel)) \<Rightarrow>
                (case fst (execTracked reg env fatal t2 dberr j (p, s, l')) of
                   (p2, s2, l2) \<Rightarrow> ((p2, s2, release l2 rel), True)))))"

section \<open>The claim loops\<close>

text \<open>
  What one turn of a worker's loop observes: the context error, the result of the limiter's
  Excluded, the error of the claim, the instant of the claim and the rows locked by others, and
  the surroundings of the run that follows.
\<close>

record 'l turn =
  t_ctx :: "string option"
  t_excluded :: "'l \<Rightarrow> 'l \<times> (string + string list) option"
  t_claim_err :: "string option"
  t_now :: gotime
  t_skip :: "int set"
  t_env :: "'l world \<Rightarrow> 'l world"
  t_fatal :: bool
  t_start :: gotime
  t_end :: gotime
  t_dberr :: "string option"

text \<open>
  drainLoop over the turns given: None says the loop is still running after the last of them,
  otherwise the world it left, the number of jobs run and the error it returned.
\<close>

fun drainLoop ::
    "('l \<Rightarrow> gotime \<Rightarrow> string \<Rightarrow> string \<Rightarrow> int \<Rightarrow> 'l \<times> (string + 'r option)) \<Rightarrow> ('l \<Rightarrow> 'r \<Rightarrow> 'l) \<Rightarrow> bool \<Rightarrow>
     registry \<Rightarrow> int \<Rightarrow> 'l turn list \<Rightarrow> 'l world \<Rightarrow> int \<Rightarrow> ('l world \<times> int \<times> string option) option" where
  "drainLoop acquire release limited reg slot [] w n = None"
| "drainLoop acquire release limited reg slot (t # ts) w n =
     (case t_ctx t of Some e \<Rightarrow> Some (w, n, Some e)
      | None \<Rightarrow>
          (let (p, s, l) = w; (l1, ex) = t_excluded t l in
           case t_claim_err t of Some e \<Rightarrow> Some ((p, s, l1), n, Some e)
           | None \<Rightarrow>
               (case ClaimNext s (t_now t) (t_skip t) (workerID p slot) (p_include p) (claimExclude p ex) of
                  (s1, None) \<Rightarrow> Some ((p, s1, l1), n, None)
                | (s1, Some j) \<Rightarrow>
                    (case runJob acquire release limited reg (t_env t) (t_fatal t) (t_start t) (t_end t)
                            (t_dberr t) j (p, s1, l1) of
                       (w', did) \<Rightarrow>
                         drainLoop acquire release limited reg slot ts w' (if did then n + 1 else n)))))"

text \<open>runLoop polls: only the context ends it; a failed or empty claim waits for the next turn.\<close>

fun runLoop ::
    "('l \<Rightarrow> gotime \<Rightarrow> string \<Rightarrow> string \<Rightarrow> int \<Rightarrow> 'l \<times> (string + 'r option)) \<Rightarrow> ('l \<Rightarrow> 'r \<Rightarrow> 'l) \<Rightarrow> bool \<Rightarrow>
     registry \<Rightarrow> int \<Rightarrow> 'l turn list \<Rightarrow> 'l world \<Rightarrow> 'l world option" where
  "runLoop acquire release limited reg slot [] w = None"
| "runLoop acquire release limited reg slot (t # ts) w =
     (case t_ctx t of Some e \<Rightarrow> Some w
      | None \<Rightarrow>
          (let (p, s, l) = w; (l1, ex) = t_excluded t l in
           case t_claim_err t of Some e \<Rightarrow> runLoop acquire release limited reg slot ts (p, s, l1)
           | None \<Rightarrow>
               (case ClaimNext s (t_now t) (t_skip t) (workerID p slot) (p_include p) (claimExclude p ex) of
                  (s1, None) \<Rightarrow> runLoop acquire release limited reg slot ts (p, s1, l1)
                | (s1, Some j) \<Rightarrow>
                    runLoop acquire release limited reg slot ts
                      (fst (runJob acquire release limited reg (t_env t) (t_fatal t) (t_start t) (t_end t)
                              (t_dberr t) j (p, s1, l1))))))"

section \<open>Enqueueing and the scheduler\<close>

record enqueueConfig =
  c_maxAttempts :: int
  c_runAt :: gotime
  c_owner :: string

datatype EnqueueOption = Owner string | MaxAttempts int | Delay duration | At gotime

fun apply_opt :: "gotime \<Rightarrow> EnqueueOption \<Rightarrow> enqueueConfig \<Rightarrow> enqueueConfig" where
  "apply_opt now (Owner u) c = c\<lparr>c_owner := u\<rparr>"
| "apply_opt now (MaxAttempts n) c = c\<lparr>c_maxAttempts := n\<rparr>"
| "apply_opt now (Delay d) c = c\<lparr>c_runAt := now + d\<rparr>"
| "apply_opt now (At t) c = c\<lparr>c_runAt := t\<rparr>"

definition resolveEnqueue :: "gotime \<Rightarrow> EnqueueOption list \<Rightarrow> enqueueConfig" where
  "resolveEnqueue now opts =
     fold (apply_opt now) opts \<lparr>c_maxAttempts = 1, c_runAt = zero_time, c_owner = []\<rparr>"

definition provider_Enqueue ::
    "store \<Rightarrow> gotime \<Rightarrow> string \<Rightarrow> string \<Rightarrow> EnqueueOption list \<Rightarrow> store \<times> int" where
  "provider_Enqueue s now kind payload opts =
     (let c = resolveEnqueue now opts
      in Enqueue s now kind (c_owner c) payload (c_maxAttempts c) (c_runAt c))"

text \<open>
  Which of the scheduler's calls fail at the database: the claim of the due schedules, the pending
  check of a kind and the enqueue of a kind.
\<close>

record fire_errs =
  e_claim :: bool
  e_pending :: "string \<Rightarrow> bool"
  e_enqueue :: "string \<Rightarrow> bool"

definition no_errs :: fire_errs where
  "no_errs = \<lparr>e_claim = False, e_pending = (\<lambda>_. False), e_enqueue = (\<lambda>_. False)\<rparr>"

fun fire_kinds :: "fire_errs \<Rightarrow> gotime \<Rightarrow> string list \<Rightarrow> store \<Rightarrow> store" where
  "fire_kinds er now [] s = s"
| "fire_kinds er now (k # ks) s =
     (if \<not> e_pending er k \<and> HasPendingKind s k then fire_kinds er now ks s
      else if e_enqueue er k then fire_kinds er now ks s
      else fire_kinds er now ks (fst (provider_Enqueue s now k [] [MaxAttempts 3])))"

definition fire :: "fire_errs \<Rightarrow> gotime \<Rightarrow> store \<Rightarrow> store" where
  "fire er now s =
     (if e_claim er then s
      else (case ClaimDueSchedules now s of (s1, kinds) \<Rightarrow> fire_kinds er now kinds s1))"

end
