(* ===== verification/JobSystem.thy ===== *)
theory JobSystem
  imports JobExec
begin

text \<open>
  The fleet: any number of worker slots, the reaper, the scheduler and an administrator working on
  one store. A worker slot is idle, has claimed a job, or is inside the handler of one. The step
  relation has one rule per operation of the code, with every argument the environment chooses
  (clock, filters, rows locked by others, handler results, database errors) left open.

  \<open>sys_runs\<close> counts, per job id, how often a handler was entered. It is a ghost: no rule reads it.
\<close>

datatype wstate = WIdle | WClaimed job | WRunning job bool

record sys =
  sys_store :: store
  sys_workers :: "string \<Rightarrow> wstate"
  sys_runs :: "int \<Rightarrow> int"

definition init_sys :: sys where
  "init_sys = \<lparr>sys_store = \<lparr>rows = [], next_id = 1, scheds = []\<rparr>, sys_workers = (\<lambda>_. WIdle),
               sys_runs = (\<lambda>_. 0)\<rparr>"

inductive sys_step :: "string set \<Rightarrow> registry \<Rightarrow> sys \<Rightarrow> sys \<Rightarrow> bool"
  for W :: "string set" and reg :: registry where
  step_enqueue:
    "sys_step W reg s (s\<lparr>sys_store := fst (Enqueue (sys_store s) now kind owner payload mx ra)\<rparr>)"
| step_schedule:
    "sys_step W reg s (s\<lparr>sys_store := UpsertSchedule now (sys_store s) kind interval\<rparr>)"
| step_fire:
    "sys_step W reg s (s\<lparr>sys_store := fire er now (sys_store s)\<rparr>)"
| step_claim_due:
    "sys_step W reg s (s\<lparr>sys_store := fst (ClaimDueSchedules now (sys_store s))\<rparr>)"
| step_claim:
    "w \<in> W \<Longrightarrow> sys_workers s w = WIdle \<Longrightarrow>
     ClaimNext (sys_store s) now skip w incl excl = (st, Some j) \<Longrightarrow>
     sys_step W reg s (s\<lparr>sys_store := st, sys_workers := (sys_workers s)(w := WClaimed j)\<rparr>)"
| step_claim_id:
    "w \<in> W \<Longrightarrow> sys_workers s w = WIdle \<Longrightarrow>
     ClaimByID (sys_store s) now i w = (st, Some j) \<Longrightarrow>
     sys_step W reg s (s\<lparr>sys_store := st, sys_workers := (sys_workers s)(w := WClaimed j)\<rparr>)"
| step_slot_lost:
    "sys_workers s w = WClaimed j \<Longrightarrow>
     sys_step W reg s (s\<lparr>sys_store := fst (db_call dberr (sys_store s)
                          (Requeue (sys_store s) (j_id j) (j_locked_by j))),
                        sys_workers := (sys_workers s)(w := WIdle)\<rparr>)"
| step_no_handler:
    "sys_workers s w = WClaimed j \<Longrightarrow> Handler reg (j_kind j) = None \<Longrightarrow>
     sys_step W reg s (s\<lparr>sys_store := x_store (execute reg (sys_store s) now j c dberr),
                        sys_workers := (sys_workers s)(w := WIdle)\<rparr>)"
| step_start:
    "sys_workers s w = WClaimed j \<Longrightarrow> Handler reg (j_kind j) \<noteq> None \<Longrightarrow>
     sys_step W reg s (s\<lparr>sys_workers := (sys_workers s)(w := WRunning j False),
                        sys_runs := (sys_runs s)(j_id j := sys_runs s (j_id j) + 1)\<rparr>)"
| step_heartbeat:
    "sys_workers s w = WRunning j c \<Longrightarrow>
     sys_step W reg s (s\<lparr>sys_store := fst (Heartbeat now (sys_store s) (j_id j) (j_locked_by j))\<rparr>)"
| step_signal:
    "sys_workers s w = WRunning j c \<Longrightarrow>
     sys_step W reg s (s\<lparr>sys_workers := (sys_workers s)(w := WRunning j True)\<rparr>)"
| step_finish:
    "sys_workers s w = WRunning j c \<Longrightarrow>
     sys_step W reg s (s\<lparr>sys_store := x_store (execute (Register reg (j_kind j) h) (sys_store s) now j c dberr),
                        sys_workers := (sys_workers s)(w := WIdle)\<rparr>)"
| step_crash:
    "sys_step W reg s (s\<lparr>sys_workers := (sys_workers s)(w := WIdle)\<rparr>)"
| step_cancel:
    "sys_step W reg s (s\<lparr>sys_store := fst (MarkCancelled now (sys_store s) i)\<rparr>)"
| step_reap:
    "sys_step W reg s (s\<lparr>sys_store := fst (ReapStaleRunning now ttl (sys_store s))\<rparr>)"

inductive reachable :: "string set \<Rightarrow> registry \<Rightarrow> sys \<Rightarrow> bool"
  for W :: "string set" and reg :: registry where
  reach_init: "reachable W reg init_sys"
| reach_step: "reachable W reg s \<Longrightarrow> sys_step W reg s s' \<Longrightarrow> reachable W reg s'"

section \<open>The invariant\<close>

fun claimed_id :: "wstate \<Rightarrow> int option" where
  "claimed_id (WClaimed j) = Some (j_id j)"
| "claimed_id x = None"

fun job_of :: "wstate \<Rightarrow> job option" where
  "job_of WIdle = None"
| "job_of (WClaimed j) = Some j"
| "job_of (WRunning j c) = Some j"

text \<open>Claims charged but not yet turned into a run.\<close>

definition claims :: "string set \<Rightarrow> (string \<Rightarrow> wstate) \<Rightarrow> int \<Rightarrow> int" where
  "claims W ws i = (\<Sum>w\<in>W. if claimed_id (ws w) = Some i then 1 else 0)"

definition attempts_ok :: "job \<Rightarrow> bool" where
  "attempts_ok r \<longleftrightarrow> 0 \<le> j_attempts r \<and> j_attempts r \<le> j_max_attempts r \<and>
     (j_status r = StatusQueued \<longrightarrow> j_attempts r < j_max_attempts r)"

text \<open>A worker's copy of the row agrees with the row as long as the worker owns it.\<close>

definition snapshot_ok :: "string set \<Rightarrow> store \<Rightarrow> string \<Rightarrow> job \<Rightarrow> bool" where
  "snapshot_ok W st w j \<longleftrightarrow> w \<in> W \<and> j_locked_by j = w \<and> j_id j < next_id st \<and>
     (\<forall>r\<in>set (rows st). owns (j_id j) w r \<longrightarrow>
        j_attempts r = j_attempts j \<and> j_max_attempts r = j_max_attempts j)"

definition fleet_inv :: "string set \<Rightarrow> store \<Rightarrow> (string \<Rightarrow> wstate) \<Rightarrow> (int \<Rightarrow> int) \<Rightarrow> bool" where
  "fleet_inv W st ws runs \<longleftrightarrow> store_wf st \<and> (\<forall>r\<in>set (rows st). attempts_ok r) \<and>
     (\<forall>w j. job_of (ws w) = Some j \<longrightarrow> snapshot_ok W st w j) \<and>
     (\<forall>r\<in>set (rows st). runs (j_id r) + claims W ws (j_id r) \<le> j_attempts r) \<and>
     (\<forall>i. 0 \<le> runs i) \<and> (\<forall>i\<ge>next_id st. runs i = 0)"

lemma claims_nonneg [simp]: "0 \<le> claims W ws i"
  by (simp add: claims_def sum_nonneg)

lemma claims_upd:
  assumes "finite W" "w \<in> W"
  shows "claims W (ws(w := x)) i = claims W ws i - (if claimed_id (ws w) = Some i then 1 else 0) +
           (if claimed_id x = Some i then 1 else 0)"
proof -
  have "(\<Sum>v\<in>W - {w}. if claimed_id ((ws(w := x)) v) = Some i then 1 else (0::int)) =
        (\<Sum>v\<in>W - {w}. if claimed_id (ws v) = Some i then 1 else 0)"
    by (rule sum.cong) auto
  then show ?thesis
    by (simp add: claims_def sum.remove [OF assms])
qed

lemma claims_drop_le:
  "finite W \<Longrightarrow> claimed_id x = None \<Longrightarrow> claims W (ws(w := x)) i \<le> claims W ws i"
  by (auto simp: claims_def intro!: sum_mono)

lemma claims_pos:
  "finite W \<Longrightarrow> w \<in> W \<Longrightarrow> claimed_id (ws w) = Some i \<Longrightarrow> 1 \<le> claims W ws i"
  using claims_upd [of W w ws WIdle i] claims_nonneg [of W "ws(w := WIdle)" i] by simp

lemma inv_wfD: "fleet_inv W st ws runs \<Longrightarrow> store_wf st"
  by (simp add: fleet_inv_def)

lemma inv_snapD:
  assumes "fleet_inv W st ws runs" "job_of (ws w) = Some j"
  shows "snapshot_ok W st w j" "w \<in> W" "j_locked_by j = w" "j_id j < next_id st"
  using assms by (simp_all add: fleet_inv_def snapshot_ok_def)

lemma inv_budgetD:
  assumes "fleet_inv W st ws runs" "r \<in> set (rows st)"
  shows "runs (j_id r) + claims W ws (j_id r) \<le> j_attempts r" "attempts_ok r"
  using assms by (simp_all add: fleet_inv_def)

lemma inv_injD: "fleet_inv W st ws runs \<Longrightarrow> inj_on j_id (set (rows st))"
  by (simp add: fleet_inv_def store_wf_def distinct_map)

lemma claims_fresh:
  assumes "fleet_inv W st ws runs" "next_id st \<le> i"
  shows "claims W ws i = 0"
proof -
  have "claimed_id (ws w) \<noteq> Some i" for w
    using assms(2) inv_snapD(4) [OF assms(1), of w] by (cases "ws w") auto
  then show ?thesis by (simp add: claims_def)
qed

section \<open>Preservation\<close>

text \<open>
  A row update is mild when it keeps the identity, the charge and the budget rule of the row and
  gives nobody ownership. Every statement except claim and requeue is mild on the rows it meets.
\<close>

definition mild :: "(job \<Rightarrow> job) \<Rightarrow> job \<Rightarrow> bool" where
  "mild g r \<longleftrightarrow> same_job r (g r) \<and> (attempts_ok r \<longrightarrow> attempts_ok (g r)) \<and>
     j_attempts (g r) = j_attempts r \<and> (\<forall>i w. owns i w (g r) \<longrightarrow> owns i w r)"

lemma mild_id [simp]: "mild (\<lambda>r. r) r"
  by (simp add: mild_def)

lemma mild_if [simp]: "mild (\<lambda>r. if p r then f r else r) r \<longleftrightarrow> (p r \<longrightarrow> mild f r)"
  by (simp add: mild_def)

lemma store_wf_ids:
  assumes "store_wf st" "map j_id (rows st') = map j_id (rows st)" "next_id st' = next_id st"
    "distinct (map s_kind (scheds st'))"
  shows "store_wf st'"
  using assms unfolding store_wf_def by metis

lemma inv_mild:
  assumes inv: "fleet_inv W st ws runs"
    and rows: "rows st' = map g (rows st)" and mild: "\<And>r. r \<in> set (rows st) \<Longrightarrow> mild g r"
    and "next_id st' = next_id st" "distinct (map s_kind (scheds st'))"
  shows "fleet_inv W st' ws runs"
proof -
  have ids: "map j_id (rows st') = map j_id (rows st)"
    using mild by (auto simp: rows mild_def same_job_def)
  have "snapshot_ok W st' w j" if "job_of (ws w) = Some j" for w j
    using inv that mild assms(4)
    by (auto simp: fleet_inv_def snapshot_ok_def rows mild_def same_job_def)
  moreover have "store_wf st'"
    by (rule store_wf_ids [OF inv_wfD [OF inv] ids assms(4,5)])
  moreover have "attempts_ok r" "runs (j_id r) + claims W ws (j_id r) \<le> j_attempts r"
    if "r \<in> set (rows st')" for r
    using that inv mild by (auto simp: fleet_inv_def rows mild_def same_job_def)
  ultimately show ?thesis
    using inv assms(4) by (auto simp: fleet_inv_def)
qed

lemma inv_idle:
  assumes "fleet_inv W st ws runs" "finite W"
  shows "fleet_inv W st (ws(w := WIdle)) runs"
proof -
  have "claims W (ws(w := WIdle)) i \<le> claims W ws i" for i
    by (rule claims_drop_le) (use assms in auto)
  then have "runs (j_id r) + claims W (ws(w := WIdle)) (j_id r) \<le> j_attempts r" if "r \<in> set (rows st)" for r
    using inv_budgetD(1) [OF assms(1) that] by (meson add_left_mono order_trans)
  with assms show ?thesis
    by (auto simp: fleet_inv_def)
qed

lemma inv_Enqueue:
  assumes "fleet_inv W st ws runs"
  shows "fleet_inv W (fst (Enqueue st now kind owner payload mx ra)) ws runs"
proof -
  let ?st = "fst (Enqueue st now kind owner payload mx ra)"
  obtain row where st: "?st = st\<lparr>rows := rows st @ [row], next_id := next_id st + 1\<rparr>"
    and row: "j_id row = next_id st" "attempts_ok row" "j_attempts row = 0" "\<And>i w. \<not> owns i w row"
    by (auto simp: Enqueue_def Let_def attempts_ok_def owns_def)
  have "claims W ws (next_id st) = 0" "runs (next_id st) = 0"
    using assms claims_fresh by (auto simp: fleet_inv_def)
  with assms row show ?thesis
    unfolding st by (fastforce simp: fleet_inv_def store_wf_def snapshot_ok_def)
qed

lemma inv_fire_kinds: "fleet_inv W st ws runs \<Longrightarrow> fleet_inv W (fire_kinds er now ks st) ws runs"
  by (induction er now ks st rule: fire_kinds.induct) (auto simp: provider_Enqueue_def Let_def inv_Enqueue)

lemma inv_scheds:
  "fleet_inv W st ws runs \<Longrightarrow> map s_kind sc = map s_kind (scheds st) \<Longrightarrow> fleet_inv W (st\<lparr>scheds := sc\<rparr>) ws runs"
  by (rule inv_mild [where g = "\<lambda>r. r"]) (auto dest: inv_wfD simp: store_wf_def)

lemma sched_keys_update:
  "(\<And>x. s_kind (f x) = s_kind x) \<Longrightarrow> map s_kind (sql_update p f xs) = map s_kind xs"
  by (simp add: sql_update_def)

lemma inv_ClaimDueSchedules:
  "fleet_inv W st ws runs \<Longrightarrow> fleet_inv W (fst (ClaimDueSchedules now st)) ws runs"
  unfolding ClaimDueSchedules_def fst_conv by (intro inv_scheds sched_keys_update) simp_all

lemma inv_fire: "fleet_inv W st ws runs \<Longrightarrow> fleet_inv W (fire er now st) ws runs"
  using inv_fire_kinds inv_ClaimDueSchedules [of W st ws runs now]
  by (auto simp: fire_def split: prod.splits)

lemma inv_UpsertSchedule:
  assumes "fleet_inv W st ws runs"
  shows "fleet_inv W (UpsertSchedule now st kind interval) ws runs"
proof (cases "\<exists>sc\<in>set (scheds st). s_kind sc = kind")
  case True
  then show ?thesis
    unfolding UpsertSchedule_def Let_def if_P [OF True]
    by (intro inv_scheds sched_keys_update assms) simp
next
  case False
  have "distinct (map s_kind (scheds st))"
    using inv_wfD [OF assms] by (simp add: store_wf_def)
  with False show ?thesis
    unfolding UpsertSchedule_def Let_def if_not_P [OF False]
    by (intro inv_mild [OF assms, where g = "\<lambda>r. r"]) auto
qed

lemma inv_claim:
  assumes "fleet_inv W st ws runs" "finite W" "w \<in> W" "ws w = WIdle"
    and r: "r \<in> set (rows st)" "j_status r = StatusQueued"
    and st': "rows st' = sql_update p (claim_row now w) (rows st)" "next_id st' = next_id st"
      "scheds st' = scheds st"
    and p: "\<And>x. x \<in> set (rows st) \<Longrightarrow> p x \<longleftrightarrow> x = r"
  shows "fleet_inv W st' (ws(w := WClaimed (claim_row now w r))) runs"
proof -
  have inj: "inj_on j_id (set (rows st))"
    using assms(1) by (simp add: fleet_inv_def store_wf_def distinct_map)
  have rows: "set (rows st') = insert (claim_row now w r) (set (rows st) - {r})"
    using r(1) p by (auto simp: st' set_sql_update)
  have ids: "map j_id (rows st') = map j_id (rows st)"
    unfolding st' by (rule sql_update_ids) simp
  have cl: "claims W (ws(w := WClaimed (claim_row now w r))) i = claims W ws i + (if j_id r = i then 1 else 0)" for i
    using assms(2-4) by (simp add: claims_upd claim_row_def)
  have snap: "snapshot_ok W st' v j" if "job_of ((ws(w := WClaimed (claim_row now w r))) v) = Some j" for v j
  proof (cases "v = w")
    case True
    with that have j: "j = claim_row now w r" by simp
    have uniq: "x = r" if "x \<in> set (rows st)" "j_id x = j_id r" for x
      using inj that r(1) by (auto dest: inj_onD)
    from True j show ?thesis
      using assms(1,3) r(1) by (auto dest!: uniq simp: snapshot_ok_def rows owns_def claim_row_def st'(2) fleet_inv_def store_wf_def)
  next
    case False
    with that have "snapshot_ok W st v j"
      using assms(1) by (auto simp: fleet_inv_def)
    with False show ?thesis
      by (auto simp: snapshot_ok_def rows owns_def claim_row_def st'(2))
  qed
  have "attempts_ok (claim_row now w r)"
    using assms(1) r by (auto simp: fleet_inv_def attempts_ok_def claim_row_def)
  moreover have "runs (j_id x) + claims W (ws(w := WClaimed (claim_row now w r))) (j_id x) \<le> j_attempts x"
    if "x \<in> set (rows st')" for x
  proof (cases "x = claim_row now w r")
    case True
    then show ?thesis
      using assms(1) r(1) cl [of "j_id r"] by (auto simp: fleet_inv_def claim_row_def)
  next
    case False
    with that have "x \<in> set (rows st)" "x \<noteq> r" by (auto simp: rows)
    then have "j_id r \<noteq> j_id x"
      using inj r(1) by (auto dest: inj_onD)
    with \<open>x \<in> set (rows st)\<close> show ?thesis
      using assms(1) cl [of "j_id x"] by (auto simp: fleet_inv_def)
  qed
  moreover have "store_wf st'"
    by (rule store_wf_ids [OF inv_wfD [OF assms(1)] ids st'(2)])
       (use inv_wfD [OF assms(1)] in \<open>simp add: st'(3) store_wf_def\<close>)
  ultimately show ?thesis
    using assms(1) snap by (auto simp: fleet_inv_def rows st'(2))
qed

lemma ClaimNext_Some:
  assumes "ClaimNext st now skip w incl excl = (st', Some j)"
  obtains r where "r \<in> set (rows st)" "claimable now incl excl r" "j_id r \<notin> skip"
    "j = claim_row now w r"
    "st' = st\<lparr>rows := sql_update (\<lambda>x. j_id x = j_id r) (claim_row now w) (rows st)\<rparr>"
    "\<forall>x\<in>set (rows st). claimable now incl excl x \<and> j_id x \<notin> skip \<longrightarrow> j_run_at r \<le> j_run_at x"
  using assms by (auto simp: ClaimNext_def split: option.splits dest!: oldest_Some)

lemma ClaimByID_Some:
  assumes "ClaimByID st now i w = (st', Some j)"
  obtains r where "r \<in> set (rows st)" "j_id r = i" "j_status r = StatusQueued" "j = claim_row now w r"
    "st' = st\<lparr>rows := sql_update (\<lambda>x. j_id x = i \<and> j_status x = StatusQueued) (claim_row now w) (rows st)\<rparr>"
proof -
  obtain r xs where f: "filter (\<lambda>x. j_id x = i \<and> j_status x = StatusQueued) (rows st) = r # xs"
    using assms by (auto simp: ClaimByID_def split: list.splits)
  then have "r \<in> set (filter (\<lambda>x. j_id x = i \<and> j_status x = StatusQueued) (rows st))"
    by simp
  then have "r \<in> set (rows st)" "j_id r = i" "j_status r = StatusQueued"
    by simp_all
  with f assms that show thesis
    by (simp add: ClaimByID_def)
qed

lemma inv_ClaimNext:
  assumes "fleet_inv W st ws runs" "finite W" "w \<in> W" "ws w = WIdle"
    and "ClaimNext st now skip w incl excl = (st', Some j)"
  shows "fleet_inv W st' (ws(w := WClaimed j)) runs"
proof -
  obtain r where r: "r \<in> set (rows st)" "claimable now incl excl r" "j = claim_row now w r"
    "st' = st\<lparr>rows := sql_update (\<lambda>x. j_id x = j_id r) (claim_row now w) (rows st)\<rparr>"
    using assms(5) by (rule ClaimNext_Some)
  have "inj_on j_id (set (rows st))"
    using assms(1) by (simp add: fleet_inv_def store_wf_def distinct_map)
  with r show ?thesis
    unfolding r(3)
    by (intro inv_claim [OF assms(1-4) r(1), where p = "\<lambda>x. j_id x = j_id r"])
       (auto simp: claimable_def dest: inj_onD)
qed

lemma inv_ClaimByID:
  assumes "fleet_inv W st ws runs" "finite W" "w \<in> W" "ws w = WIdle"
    and "ClaimByID st now i w = (st', Some j)"
  shows "fleet_inv W st' (ws(w := WClaimed j)) runs"
proof -
  obtain r where r: "r \<in> set (rows st)" "j_id r = i" "j_status r = StatusQueued" "j = claim_row now w r"
    "st' = st\<lparr>rows := sql_update (\<lambda>x. j_id x = i \<and> j_status x = StatusQueued) (claim_row now w) (rows st)\<rparr>"
    using assms(5) by (rule ClaimByID_Some)
  have "inj_on j_id (set (rows st))"
    using assms(1) by (simp add: fleet_inv_def store_wf_def distinct_map)
  with r show ?thesis
    unfolding r(4)
    by (intro inv_claim [OF assms(1-4) r(1), where p = "\<lambda>x. j_id x = i \<and> j_status x = StatusQueued"])
       (auto dest: inj_onD)
qed

lemma inv_guarded:
  assumes "fleet_inv W st ws runs"
    and "\<And>r. r \<in> set (rows st) \<Longrightarrow> owns i w r \<Longrightarrow> mild f r"
  shows "fleet_inv W (fst (guarded_write f st i w)) ws runs"
  by (rule inv_mild [OF assms(1), where g = "\<lambda>r. if owns i w r then f r else r"])
     (use assms inv_wfD [OF assms(1)] in \<open>auto simp: guarded_write_def sql_update_def store_wf_def\<close>)

lemma mild_rows:
  "mild (complete_row now) r" "mild (heartbeat_row now) r" "mild (fail_row now msg None) r"
  "pending r \<Longrightarrow> mild (cancel_row now) r"
  "j_status r = StatusRunning \<Longrightarrow> mild (reap_row now) r"
  "j_attempts r < j_max_attempts r \<Longrightarrow> mild (fail_row now msg (Some t)) r"
  by (auto simp: mild_def attempts_ok_def owns_def same_job_def row_defs)

lemma fst_db_call: "fst (db_call e st res) = (if e = None then fst res else st)"
  by (auto simp: db_call_def split: option.splits)

lemma execute_store:
  "x_store (execute reg st now j c dberr) \<in>
     {st, fst (Complete now st (j_id j) (j_locked_by j))} \<union>
     {fst (Fail now msg None st (j_id j) (j_locked_by j)) | msg. True} \<union>
     {fst (Fail now msg (Some t) st (j_id j) (j_locked_by j)) | msg t. j_attempts j < j_max_attempts j}"
  by (auto simp: execute_def db_call_def lost_result_def split: option.splits prod.splits sum.splits bool.splits)

lemma inv_execute:
  assumes "fleet_inv W st ws runs" "job_of (ws w) = Some j"
  shows "fleet_inv W (x_store (execute reg st now j c dberr)) ws runs"
proof -
  have w: "j_locked_by j = w" and at: "\<And>r. r \<in> set (rows st) \<Longrightarrow> owns (j_id j) w r \<Longrightarrow>
      j_attempts r = j_attempts j \<and> j_max_attempts r = j_max_attempts j"
    using assms by (auto simp: fleet_inv_def snapshot_ok_def)
  have "fleet_inv W (fst (Complete now st (j_id j) (j_locked_by j))) ws runs"
    unfolding Complete_def by (rule inv_guarded [OF assms(1)]) (auto simp: mild_rows)
  moreover have "fleet_inv W (fst (Fail now msg None st (j_id j) (j_locked_by j))) ws runs" for msg
    unfolding Fail_def by (rule inv_guarded [OF assms(1)]) (auto simp: mild_rows simp del: fail_row.simps)
  moreover have "fleet_inv W (fst (Fail now msg (Some t) st (j_id j) (j_locked_by j))) ws runs"
    if "j_attempts j < j_max_attempts j" for msg t
    unfolding Fail_def
    by (rule inv_guarded [OF assms(1)]) (use at w that in \<open>auto simp: mild_rows simp del: fail_row.simps\<close>)
  ultimately show ?thesis
    using execute_store [of reg st now j c dberr] assms(1) by auto
qed

lemma inv_Requeue_idle:
  assumes inv: "fleet_inv W st ws runs" and "finite W" and w: "ws w = WClaimed j"
  shows "fleet_inv W (fst (db_call dberr st (Requeue st (j_id j) (j_locked_by j)))) (ws(w := WIdle)) runs"
proof (cases "dberr = None \<and> (\<exists>r\<in>set (rows st). owns (j_id j) w r)")
  case False
  have "j_locked_by j = w"
    using inv_snapD [OF inv, of w j] w by simp
  with False have "fst (db_call dberr st (Requeue st (j_id j) (j_locked_by j))) = st"
    using requeue.lost_claim by (auto simp: fst_db_call)
  with inv_idle [OF assms(1,2)] show ?thesis by simp
next
  case True
  then obtain r where r: "r \<in> set (rows st)" "owns (j_id j) w r" and e: "dberr = None" by blast
  have lw: "j_locked_by j = w" "w \<in> W"
    using inv_snapD [OF inv, of w j] w by simp_all
  have inj: "inj_on j_id (set (rows st))"
    using inv by (rule inv_injD)
  have own: "owns (j_id j) w x \<longleftrightarrow> x = r" if "x \<in> set (rows st)" for x
    using that r inj_onD [OF inj, of x r] by (auto simp: owns_def)
  let ?st = "fst (Requeue st (j_id j) w)"
  have rows: "set (rows ?st) = insert (requeue_row r) (set (rows st) - {r})"
    using r(1) own by (auto simp: requeue.write_rows set_sql_update)
  have cl: "claims W (ws(w := WIdle)) i = claims W ws i - (if j_id r = i then 1 else 0)" for i
    using claims_upd [OF assms(2) lw(2), of ws WIdle i] w r by (simp add: owns_def)
  have "1 \<le> claims W ws (j_id r)"
    by (rule claims_pos [OF assms(2) lw(2)]) (use w r in \<open>simp add: owns_def\<close>)
  moreover have nn: "0 \<le> runs (j_id r)"
    using inv by (simp add: fleet_inv_def)
  moreover have bud: "runs (j_id r) + claims W ws (j_id r) \<le> j_attempts r" and ok: "attempts_ok r"
    using inv r(1) by (auto simp: fleet_inv_def)
  ultimately have "attempts_ok (requeue_row r)"
    and "runs (j_id r) + claims W (ws(w := WIdle)) (j_id r) \<le> j_attempts (requeue_row r)"
    using cl [of "j_id r"] nn by (auto simp: attempts_ok_def requeue_row_def)
  moreover have "runs (j_id x) + claims W (ws(w := WIdle)) (j_id x) \<le> j_attempts x"
    if "x \<in> set (rows st)" for x
    using inv that cl [of "j_id x"] by (force simp: fleet_inv_def)
  moreover have "snapshot_ok W ?st v k" if "job_of ((ws(w := WIdle)) v) = Some k" for v k
  proof -
    from that have "snapshot_ok W st v k"
      using inv by (auto simp: fleet_inv_def split: if_splits)
    then show ?thesis
      by (auto simp: snapshot_ok_def rows requeue.write_frame owns_def requeue_row_def)
  qed
  moreover have "store_wf ?st"
    using inv requeue.wf_write by (simp add: fleet_inv_def)
  ultimately have "fleet_inv W ?st (ws(w := WIdle)) runs"
    using inv by (auto simp: fleet_inv_def rows requeue.write_frame requeue_row_def)
  with e lw show ?thesis by (simp add: fst_db_call)
qed

lemma inv_start:
  assumes inv: "fleet_inv W st ws runs" and "finite W" and w: "ws w = WClaimed j"
  shows "fleet_inv W st (ws(w := WRunning j c)) (runs(j_id j := runs (j_id j) + 1))"
proof -
  have "w \<in> W" "j_id j < next_id st"
    using inv_snapD [OF inv, of w j] w by simp_all
  then have "claims W (ws(w := WRunning j c)) i = claims W ws i - (if j_id j = i then 1 else 0)" for i
    using claims_upd [OF assms(2), of w ws "WRunning j c" i] w by simp
  moreover have "snapshot_ok W st v k" if "job_of ((ws(w := WRunning j c)) v) = Some k" for v k
    using inv that w by (auto simp: fleet_inv_def split: if_splits)
  ultimately show ?thesis
    using inv \<open>j_id j < next_id st\<close> by (auto simp: fleet_inv_def)
qed

lemma inv_signal:
  assumes "fleet_inv W st ws runs" "ws w = WRunning j c"
  shows "fleet_inv W st (ws(w := WRunning j True)) runs"
proof -
  have "claims W (ws(w := WRunning j True)) i = claims W ws i" for i
    using assms(2) by (auto simp: claims_def intro!: sum.cong)
  with assms show ?thesis
    by (auto simp: fleet_inv_def)
qed

lemma inv_MarkCancelled:
  assumes "fleet_inv W st ws runs"
  shows "fleet_inv W (fst (MarkCancelled now st i)) ws runs"
  by (rule inv_mild [OF assms, where g = "\<lambda>r. if j_id r = i \<and> pending r then cancel_row now r else r"])
     (use inv_wfD [OF assms] in \<open>auto simp: MarkCancelled_def sql_update_def store_wf_def mild_rows\<close>)

lemma inv_Reap:
  assumes "fleet_inv W st ws runs"
  shows "fleet_inv W (fst (ReapStaleRunning now ttl st)) ws runs"
proof -
  define lease where "lease = (if ttl < seconds 1 then seconds 1 else ttl)"
  show ?thesis
    unfolding ReapStaleRunning_def Let_def lease_def [symmetric]
    by (rule inv_mild [OF assms, where g = "\<lambda>r. if stale now lease r then reap_row now r else r"])
       (use inv_wfD [OF assms] in \<open>auto simp: sql_update_def store_wf_def mild_rows dest: stale_running\<close>)
qed

lemma inv_Heartbeat: "fleet_inv W st ws runs \<Longrightarrow> fleet_inv W (fst (Heartbeat now st i w)) ws runs"
  unfolding Heartbeat_def by (rule inv_guarded) (auto simp: mild_rows)

lemma sys_step_inv:
  assumes "sys_step W reg s s'" "finite W" "fleet_inv W (sys_store s) (sys_workers s) (sys_runs s)"
  shows "fleet_inv W (sys_store s') (sys_workers s') (sys_runs s')"
  using assms
proof (cases rule: sys_step.cases)
  case (step_no_handler w j now c dberr)
  with assms show ?thesis
    using inv_execute [OF assms(3), of w j reg now c dberr] by (simp add: inv_idle)
next
  case (step_finish w j c h now dberr)
  with assms show ?thesis
    using inv_execute [OF assms(3), of w j "Register reg (j_kind j) h" now c dberr] by (simp add: inv_idle)
qed (simp_all add: inv_Enqueue inv_UpsertSchedule inv_fire inv_ClaimDueSchedules inv_ClaimNext inv_ClaimByID inv_Requeue_idle
      inv_start inv_Heartbeat inv_signal inv_idle inv_MarkCancelled inv_Reap)

lemma reachable_inv:
  "reachable W reg s \<Longrightarrow> finite W \<Longrightarrow> fleet_inv W (sys_store s) (sys_workers s) (sys_runs s)"
proof (induction rule: reachable.induct)
  case reach_init
  then show ?case
    by (simp add: init_sys_def fleet_inv_def store_wf_def)
next
  case (reach_step s s')
  then show ?case by (blast intro: sys_step_inv)
qed

end
