(* ===== verification/JobCorrect.thy ===== *)
theory JobCorrect
  imports JobSystem
begin

text \<open>
  The properties of the job queue: what a claim, a run, a cancel and a reap promise about the row,
  what holds of every reachable state of the fleet, the caps of the limiters and the scheduler's
  coalescing.
\<close>

section \<open>The lifecycle of a row\<close>

inductive lifecycle :: "status \<Rightarrow> status \<Rightarrow> bool" where
  claim: "lifecycle StatusQueued StatusRunning"
| cancel_queued: "lifecycle StatusQueued StatusCancelled"
| retry: "lifecycle StatusRunning StatusQueued"
| finish: "lifecycle StatusRunning StatusDone"
| give_up: "lifecycle StatusRunning StatusFailed"
| cancel_running: "lifecycle StatusRunning StatusCancelled"

inductive_simps lifecycle_from:
  "lifecycle StatusQueued st" "lifecycle StatusRunning st" "lifecycle StatusDone st"
  "lifecycle StatusFailed st" "lifecycle StatusCancelled st"

text \<open>One row before and after a step.\<close>

definition evolve :: "job \<Rightarrow> job \<Rightarrow> bool" where
  "evolve r r' \<longleftrightarrow> same_job r r' \<and> (terminal r \<longrightarrow> r' = r) \<and>
     (j_status r' = j_status r \<or> lifecycle (j_status r) (j_status r'))"

definition rows_evolve :: "job list \<Rightarrow> job list \<Rightarrow> bool" where
  "rows_evolve rs rs' \<longleftrightarrow> (\<exists>g new. rs' = map g rs @ new \<and> (\<forall>r\<in>set rs. evolve r (g r)))"

lemma evolve_refl [simp]: "evolve r r"
  by (simp add: evolve_def)

lemma rows_evolve_refl [simp]: "rows_evolve rs rs"
  unfolding rows_evolve_def by (intro exI [of _ "\<lambda>r. r"] exI [of _ "[]"]) simp

lemma rows_evolve_snoc: "rows_evolve rs rs' \<Longrightarrow> rows_evolve rs (rs' @ new)"
  unfolding rows_evolve_def by (metis append.assoc)

lemma rows_evolve_update:
  "(\<And>r. r \<in> set rs \<Longrightarrow> p r \<Longrightarrow> evolve r (f r)) \<Longrightarrow> rows_evolve rs (sql_update p f rs)"
  unfolding rows_evolve_def sql_update_def
  by (intro exI [of _ "\<lambda>r. if p r then f r else r"] exI [of _ "[]"]) simp

lemma rows_evolveD:
  "rows_evolve rs rs' \<Longrightarrow> r \<in> set rs \<Longrightarrow> \<exists>r'\<in>set rs'. evolve r r'"
  by (auto simp: rows_evolve_def)

lemma evolve_rows:
  "j_status r = StatusQueued \<Longrightarrow> evolve r (claim_row now w r)"
  "j_status r = StatusRunning \<Longrightarrow> evolve r (requeue_row r)"
  "j_status r = StatusRunning \<Longrightarrow> evolve r (complete_row now r)"
  "j_status r = StatusRunning \<Longrightarrow> evolve r (fail_row now msg ra r)"
  "j_status r = StatusRunning \<Longrightarrow> evolve r (heartbeat_row now r)"
  "pending r \<Longrightarrow> evolve r (cancel_row now r)"
  "j_status r = StatusRunning \<Longrightarrow> evolve r (reap_row now r)"
proof -
  show "j_status r = StatusRunning \<Longrightarrow> evolve r (fail_row now msg ra r)"
    by (cases ra) (auto simp: evolve_def terminal_def lifecycle_from same_job_def)
qed (auto simp: evolve_def terminal_def pending_def lifecycle_from row_defs same_job_def)

lemma rows_evolve_guarded:
  assumes "\<And>r. j_status r = StatusRunning \<Longrightarrow> evolve r (f r)"
  shows "rows_evolve (rows st) (rows (fst (guarded_write f st i w)))"
  by (auto simp: guarded_write_def owns_def assms intro!: rows_evolve_update)

lemma rows_fire_kinds: "rows_evolve rs (rows st) \<Longrightarrow> rows_evolve rs (rows (fire_kinds er now ks st))"
  by (induction er now ks st rule: fire_kinds.induct)
     (auto simp: provider_Enqueue_def Enqueue_def Let_def rows_evolve_snoc)

lemma rows_execute: "rows_evolve (rows st) (rows (x_store (execute reg st now j c dberr)))"
proof -
  have "rows_evolve (rows st) (rows (fst (Complete now st i w)))"
    "rows_evolve (rows st) (rows (fst (Fail now msg ra st i w)))" for i w msg ra
    by (auto simp: Complete_def Fail_def evolve_rows simp del: fail_row.simps intro!: rows_evolve_guarded)
  then show ?thesis
    using execute_store [of reg st now j c dberr] by auto
qed

lemma rows_ClaimNext:
  assumes "store_wf st" "ClaimNext st now skip w incl excl = (st', Some j)"
  shows "rows_evolve (rows st) (rows st')"
proof -
  obtain r where "r \<in> set (rows st)" "claimable now incl excl r"
    "st' = st\<lparr>rows := sql_update (\<lambda>x. j_id x = j_id r) (claim_row now w) (rows st)\<rparr>"
    using assms(2) by (rule ClaimNext_Some)
  moreover have "inj_on j_id (set (rows st))"
    using assms(1) by (simp add: store_wf_def distinct_map)
  ultimately show ?thesis
    by (auto simp: claimable_def intro!: rows_evolve_update evolve_rows dest: inj_onD)
qed

lemma rows_ClaimByID:
  assumes "ClaimByID st now i w = (st', Some j)"
  shows "rows_evolve (rows st) (rows st')"
  using assms by (rule ClaimByID_Some) (auto intro!: rows_evolve_update evolve_rows)

lemma sys_step_rows:
  assumes "sys_step W reg s s'" "store_wf (sys_store s)"
  shows "rows_evolve (rows (sys_store s)) (rows (sys_store s'))"
  using assms
proof (cases rule: sys_step.cases)
  case (step_enqueue now kind owner payload mx ra)
  then show ?thesis
    by (simp add: Enqueue_def Let_def rows_evolve_snoc)
next
  case (step_fire er now)
  then show ?thesis
    by (auto simp: fire_def ClaimDueSchedules_def intro!: rows_fire_kinds)
next
  case (step_slot_lost w j dberr)
  then show ?thesis
    by (auto simp: fst_db_call Requeue_def evolve_rows intro!: rows_evolve_guarded)
next
  case (step_heartbeat w j c now)
  then show ?thesis
    by (auto simp: Heartbeat_def evolve_rows intro!: rows_evolve_guarded)
next
  case (step_cancel now i)
  then show ?thesis
    by (auto simp: MarkCancelled_def evolve_rows intro!: rows_evolve_update)
next
  case (step_reap now ttl)
  then show ?thesis
    by (auto simp: ReapStaleRunning_def Let_def evolve_rows dest: stale_running intro!: rows_evolve_update)
next
  case (step_claim w now skip incl excl st j)
  with assms(2) show ?thesis by (auto intro: rows_ClaimNext)
next
  case (step_claim_id w now i st j)
  then show ?thesis by (auto intro: rows_ClaimByID)
qed (simp_all add: rows_execute UpsertSchedule_def ClaimDueSchedules_def Let_def)

section \<open>Properties of the fleet\<close>

text \<open>
  C1 In every reachable state of the fleet, whatever the interleaving of workers, crashes, reaps,
  cancels and lost slot races, the handler of a job has been entered at most max_attempts times.
\<close>

theorem handler_runs_bounded:
  assumes "finite W" "reachable W reg s" "r \<in> set (rows (sys_store s))"
  shows "sys_runs s (j_id r) \<le> j_attempts r \<and> j_attempts r \<le> j_max_attempts r"
proof -
  have inv: "fleet_inv W (sys_store s) (sys_workers s) (sys_runs s)"
    using assms(2,1) by (rule reachable_inv)
  show ?thesis
    using inv_budgetD [OF inv assms(3)] claims_nonneg [of W "sys_workers s" "j_id r"]
    unfolding attempts_ok_def by linarith
qed

text \<open>A run of the fleet with one job, claimed and started, for the witnesses.\<close>

definition demo_reg :: registry where
  "demo_reg = Register NewRegistry ''k'' (\<lambda>_. HandlerOk)"

definition demo_job :: job where
  "demo_job = \<lparr>j_id = 1, j_kind = ''k'', j_owner = [], j_payload = ''{}'', j_status = StatusQueued,
     j_attempts = 0, j_max_attempts = 2, j_error = [], j_run_at = 0, j_created_at = 0,
     j_started_at = None, j_finished_at = None, j_locked_by = [], j_locked_at = None,
     j_heartbeat_at = None\<rparr>"

definition demo_claimed :: job where
  "demo_claimed = claim_row 7 ''w'' demo_job"

definition demo_queued_sys :: sys where
  "demo_queued_sys = init_sys\<lparr>sys_store := \<lparr>rows = [demo_job], next_id = 2, scheds = []\<rparr>\<rparr>"

definition demo_running_sys :: sys where
  "demo_running_sys = init_sys\<lparr>sys_store := \<lparr>rows = [demo_claimed], next_id = 2, scheds = []\<rparr>,
     sys_workers := (\<lambda>_. WIdle)(''w'' := WRunning demo_claimed False),
     sys_runs := (\<lambda>_. 0)(1 := 1)\<rparr>"

lemma demo_reach_queued: "reachable {''w''} demo_reg demo_queued_sys"
proof -
  have "demo_queued_sys = init_sys\<lparr>sys_store := fst (Enqueue (sys_store init_sys) 0 ''k'' [] [] 2 0)\<rparr>"
    by (simp add: demo_queued_sys_def init_sys_def Enqueue_def demo_job_def Let_def time_is_zero_def zero_time_def)
  then show ?thesis
    using reach_step [OF reach_init step_enqueue] by metis
qed

lemma demo_reach_running: "reachable {''w''} demo_reg demo_running_sys"
proof -
  let ?s = "demo_queued_sys\<lparr>sys_store := \<lparr>rows = [demo_claimed], next_id = 2, scheds = []\<rparr>,
      sys_workers := (sys_workers demo_queued_sys)(''w'' := WClaimed demo_claimed)\<rparr>"
  have "ClaimNext (sys_store demo_queued_sys) 7 {} ''w'' [] [] =
      (\<lparr>rows = [demo_claimed], next_id = 2, scheds = []\<rparr>, Some demo_claimed)"
    by (simp add: ClaimNext_def demo_queued_sys_def claimable_def demo_job_def demo_claimed_def sql_update_def)
  then have "sys_step {''w''} demo_reg demo_queued_sys ?s"
    by (intro step_claim) (simp_all add: demo_queued_sys_def init_sys_def)
  then have r: "reachable {''w''} demo_reg ?s"
    by (rule reach_step [OF demo_reach_queued])
  have "sys_step {''w''} demo_reg ?s
      (?s\<lparr>sys_workers := (sys_workers ?s)(''w'' := WRunning demo_claimed False),
          sys_runs := (sys_runs ?s)(j_id demo_claimed := sys_runs ?s (j_id demo_claimed) + 1)\<rparr>)"
    by (rule step_start) (simp_all add: demo_reg_def demo_claimed_def demo_job_def claim_row_def)
  moreover have "(?s\<lparr>sys_workers := (sys_workers ?s)(''w'' := WRunning demo_claimed False),
          sys_runs := (sys_runs ?s)(j_id demo_claimed := sys_runs ?s (j_id demo_claimed) + 1)\<rparr>) =
       demo_running_sys"
    by (auto simp: demo_running_sys_def demo_queued_sys_def init_sys_def demo_claimed_def claim_row_def demo_job_def)
  ultimately show ?thesis
    using reach_step [OF r] by metis
qed

theorem handler_runs_bounded_witness:
  "sys_runs demo_running_sys 1 \<le> 1 \<and> sys_runs demo_running_sys 1 = 1"
proof -
  have "demo_claimed \<in> set (rows (sys_store demo_running_sys))"
    by (simp add: demo_running_sys_def)
  from handler_runs_bounded [OF _ demo_reach_running this] show ?thesis
    by (simp add: demo_claimed_def demo_job_def claim_row_def demo_running_sys_def)
qed

text \<open>
  A row that reached done, failed or cancelled is never changed again by any later step of any
  worker, the reaper, the scheduler or an administrator, nor is it removed.
\<close>

lemma terminal_is_final:
  assumes "finite W" "reachable W reg s" "(sys_step W reg)\<^sup>*\<^sup>* s s'"
    and "r \<in> set (rows (sys_store s))" "terminal r"
  shows "r \<in> set (rows (sys_store s'))"
proof -
  from assms(3) have "reachable W reg s' \<and> r \<in> set (rows (sys_store s'))"
  proof (induction rule: rtranclp_induct)
    case base
    with assms show ?case by simp
  next
    case (step t u)
    have "store_wf (sys_store t)"
      using reachable_inv [of W reg t] step assms(1) inv_wfD by blast
    from rows_evolveD [OF sys_step_rows [OF step.hyps(2) this]] step.IH assms(5)
    have "r \<in> set (rows (sys_store u))"
      by (fastforce simp: evolve_def)
    with step show ?case by (blast intro: reach_step)
  qed
  then show ?thesis ..
qed

lemma terminal_is_final_witness:
  "\<exists>s r. reachable {''w''} demo_reg s \<and> terminal r \<and> r \<in> set (rows (sys_store s)) \<and>
     (\<forall>now ttl. r \<in> set (rows (fst (ReapStaleRunning now ttl (sys_store s)))))"
proof -
  let ?s = "demo_running_sys\<lparr>sys_store := fst (MarkCancelled 9 (sys_store demo_running_sys) 1)\<rparr>"
  let ?r = "cancel_row 9 demo_claimed"
  have s: "reachable {''w''} demo_reg ?s"
    by (rule reach_step [OF demo_reach_running step_cancel])
  have r: "?r \<in> set (rows (sys_store ?s))" "terminal ?r"
    by (simp_all add: demo_running_sys_def MarkCancelled_def sql_update_def demo_claimed_def pending_def
        demo_job_def row_defs terminal_def)
  have "?r \<in> set (rows (fst (ReapStaleRunning now ttl (sys_store ?s))))" for now ttl
  proof -
    let ?s' = "?s\<lparr>sys_store := fst (ReapStaleRunning now ttl (sys_store ?s))\<rparr>"
    have "(sys_step {''w''} demo_reg)\<^sup>*\<^sup>* ?s ?s'"
      by (rule r_into_rtranclp) (rule step_reap)
    from terminal_is_final [OF _ s this r] show ?thesis by simp
  qed
  with s r show ?thesis by blast
qed

text \<open>
  C2 Every step moves every row along the lifecycle graph (queued to running or cancelled, running
  to queued, done, failed or cancelled), keeps its identity, payload and retry budget, and loses
  no row.
\<close>

theorem rows_follow_lifecycle:
  assumes "finite W" "reachable W reg s" "sys_step W reg s s'" "r \<in> set (rows (sys_store s))"
  shows "\<exists>r'\<in>set (rows (sys_store s')). same_job r r' \<and>
           (j_status r' = j_status r \<or> lifecycle (j_status r) (j_status r'))"
proof -
  have "store_wf (sys_store s)"
    using reachable_inv [OF assms(2,1)] by (rule inv_wfD)
  from rows_evolveD [OF sys_step_rows [OF assms(3) this] assms(4)] show ?thesis
    by (auto simp: evolve_def)
qed

theorem rows_follow_lifecycle_witness:
  "\<exists>r'\<in>set (rows (fst (MarkCancelled 9 (sys_store demo_queued_sys) 1))).
     same_job demo_job r' \<and> (j_status r' = StatusQueued \<or> lifecycle StatusQueued (j_status r'))"
proof -
  have "demo_job \<in> set (rows (sys_store demo_queued_sys))"
    by (simp add: demo_queued_sys_def)
  from rows_follow_lifecycle [OF _ demo_reach_queued step_cancel this, of 9 1] show ?thesis
    by (simp add: demo_job_def)
qed

section \<open>Claims\<close>

lemma Get_update_other:
  assumes "\<And>r. same_job r (f r)" "\<And>r. p r \<Longrightarrow> j_id r = i" "k \<noteq> i" "store_wf st"
  shows "Get (st\<lparr>rows := sql_update p f (rows st)\<rparr>) k = Get st k"
proof -
  let ?rs = "sql_update p f (rows st)"
  have "map j_id ?rs = map j_id (rows st)"
    by (rule sql_update_ids) (rule assms)
  then have d: "distinct (map j_id (rows (st\<lparr>rows := ?rs\<rparr>)))" "distinct (map j_id (rows st))"
    using assms(4) by (simp_all add: store_wf_def)
  have "r \<in> set ?rs \<and> j_id r = k \<longleftrightarrow> r \<in> set (rows st) \<and> j_id r = k" for r
    using assms(1-3) by (fastforce simp: set_sql_update same_job_def)
  then have "Get (st\<lparr>rows := ?rs\<rparr>) k = Some r \<longleftrightarrow> Get st k = Some r" for r
    by (simp add: Get_Some_iff [OF d(1)] Get_Some_iff [OF d(2)])
  then show ?thesis
    by (cases "Get st k"; cases "Get (st\<lparr>rows := ?rs\<rparr>) k") auto
qed

lemma Get_update_same:
  assumes "\<And>r. same_job r (f r)" "r \<in> set (rows st)" "p r" "store_wf st"
  shows "Get (st\<lparr>rows := sql_update p f (rows st)\<rparr>) (j_id r) = Some (f r)"
proof -
  let ?rs = "sql_update p f (rows st)"
  have "map j_id ?rs = map j_id (rows st)"
    by (rule sql_update_ids) (rule assms)
  then have "distinct (map j_id (rows (st\<lparr>rows := ?rs\<rparr>)))"
    using assms(4) by (simp add: store_wf_def)
  then show ?thesis
    using assms(1-3) by (auto simp: Get_Some_iff set_sql_update same_job_def)
qed

text \<open>
  C3 ClaimNext returns nothing, and changes nothing, exactly when no row is due, of an admitted kind
  and free; otherwise it hands out such a row with the least run_at, now running, locked by the
  claiming worker and charged one attempt, and leaves every other row alone.
\<close>

theorem ClaimNext_spec:
  assumes "store_wf s"
  shows "case ClaimNext s now skip w incl excl of
      (s', None) \<Rightarrow> s' = s \<and> (\<forall>r\<in>set (rows s). claimable now incl excl r \<longrightarrow> j_id r \<in> skip)
    | (s', Some j) \<Rightarrow> (\<exists>r. Get s (j_id j) = Some r \<and> claimable now incl excl r \<and> j_id r \<notin> skip \<and>
          (\<forall>x\<in>set (rows s). claimable now incl excl x \<and> j_id x \<notin> skip \<longrightarrow> j_run_at r \<le> j_run_at x) \<and>
          j_status r = StatusQueued \<and> j_run_at r \<le> now \<and> j_kind r \<notin> set excl \<and>
          (incl \<noteq> [] \<longrightarrow> j_kind r \<in> set incl) \<and>
          j_attempts j = j_attempts r + 1 \<and> same_job r j) \<and>
        owns (j_id j) w j \<and> Get s' (j_id j) = Some j \<and> (\<forall>i. i \<noteq> j_id j \<longrightarrow> Get s' i = Get s i)"
proof (cases "ClaimNext s now skip w incl excl")
  case (Pair s' res)
  show ?thesis
  proof (cases res)
    case None
    with Pair show ?thesis
      by (auto simp: ClaimNext_def filter_empty_conv split: option.splits)
  next
    case (Some j)
    with Pair have c: "ClaimNext s now skip w incl excl = (s', Some j)" by simp
    obtain r where r: "r \<in> set (rows s)" "claimable now incl excl r" "j_id r \<notin> skip"
      "j = claim_row now w r"
      "s' = s\<lparr>rows := sql_update (\<lambda>x. j_id x = j_id r) (claim_row now w) (rows s)\<rparr>"
      "\<forall>x\<in>set (rows s). claimable now incl excl x \<and> j_id x \<notin> skip \<longrightarrow> j_run_at r \<le> j_run_at x"
      using c by (rule ClaimNext_Some)
    have j: "j_id j = j_id r" "j_attempts j = j_attempts r + 1" "same_job r j" "owns (j_id j) w j"
      by (simp_all add: r(4) claim_row_def owns_def same_job_def)
    have "Get s (j_id j) = Some r"
      using assms r(1) j(1) by (simp add: Get_Some_iff store_wf_def)
    moreover have "Get s' (j_id j) = Some j"
      unfolding r(5) j(1) using Get_update_same [OF _ r(1), of "claim_row now w" "\<lambda>x. j_id x = j_id r"]
      assms r(4) by simp
    moreover have "Get s' i = Get s i" if "i \<noteq> j_id j" for i
      unfolding r(5) by (rule Get_update_other) (use that j assms in auto)
    moreover have "j_status r = StatusQueued \<and> j_run_at r \<le> now \<and> j_kind r \<notin> set excl \<and>
        (incl \<noteq> [] \<longrightarrow> j_kind r \<in> set incl)"
      using r(2) by (auto simp: claimable_def)
    ultimately show ?thesis
      using Pair Some r j by auto
  qed
qed

theorem ClaimNext_spec_witness:
  "ClaimNext (sys_store demo_queued_sys) 7 {} ''w'' [] [] =
     (\<lparr>rows = [demo_claimed], next_id = 2, scheds = []\<rparr>, Some demo_claimed) \<and>
   owns 1 ''w'' demo_claimed"
proof -
  have c: "ClaimNext (sys_store demo_queued_sys) 7 {} ''w'' [] [] =
     (\<lparr>rows = [demo_claimed], next_id = 2, scheds = []\<rparr>, Some demo_claimed)"
    by (simp add: ClaimNext_def demo_queued_sys_def claimable_def demo_job_def demo_claimed_def sql_update_def)
  have "store_wf (sys_store demo_queued_sys)"
    by (simp add: store_wf_def demo_queued_sys_def demo_job_def)
  from ClaimNext_spec [OF this, where now = 7 and skip = "{}" and w = "''w''" and incl = "[]" and excl = "[]"] c show ?thesis
    by (simp add: demo_claimed_def claim_row_def demo_job_def)
qed

section \<open>Runs\<close>



text \<open>What the row looks like after a run that still owns it.\<close>

definition settled_row :: "gotime \<Rightarrow> job \<Rightarrow> string option \<Rightarrow> job \<Rightarrow> job" where
  "settled_row now j err r =
     (case err of None \<Rightarrow> complete_row now r
      | Some e \<Rightarrow> if j_attempts j < j_max_attempts j
                  then fail_row now e (Some (now + retryDelay (j_attempts j))) r
                  else fail_row now e None r)"

lemma settled_same [simp]: "same_job r (settled_row now j err r)"
  by (auto simp: settled_row_def simp del: fail_row.simps split: option.splits)

lemma execute_owned_store:
  assumes "Handler reg (j_kind j) = Some h"
  shows "x_store (execute reg s now j False None) =
         fst (guarded_write (settled_row now j (handler_error (h j))) s (j_id j) (j_locked_by j))"
proof (cases "handler_error (h j)")
  case None
  then have "settled_row now j (handler_error (h j)) = complete_row now"
    by (auto simp: settled_row_def)
  with None assms show ?thesis
    by (auto simp: execute_def db_call_def lost_result_def Complete_def split: prod.splits bool.splits)
next
  case (Some e)
  then have "settled_row now j (handler_error (h j)) =
      (if j_attempts j < j_max_attempts j then fail_row now e (Some (now + retryDelay (j_attempts j)))
       else fail_row now e None)"
    by (auto simp: settled_row_def)
  with Some assms show ?thesis
    by (auto simp: execute_def db_call_def lost_result_def Fail_def simp del: fail_row.simps
        split: prod.splits bool.splits)
qed

lemma retryDelay_bounds: "0 < a \<Longrightarrow> seconds 30 \<le> retryDelay a \<and> retryDelay a \<le> minutes 10"
  by (auto simp: retryDelay_def seconds_def minutes_def Let_def)



end
