(* ===== verification/JobRecovery.thy ===== *)
theory JobRecovery
  imports JobCorrect
begin

text \<open>
  Recovery and flow of the job queue: the reaper, the slot around a run, the drain loop, the
  scheduler and the caps of the two limiters.
\<close>

section \<open>The reaper\<close>

text \<open>
  C6 A reap requeues every stale running row that has attempts left, so that it is due at once, and
  fails the others; a row that is not stale is untouched, and a second reap at the same instant
  finds nothing.
\<close>

theorem reap_spec:
  assumes "lease = max ttl (seconds 1)"
  shows "rows (fst (ReapStaleRunning now ttl s)) =
           map (\<lambda>r. if stale now lease r then reap_row now r else r) (rows s) \<and>
         (\<forall>r. stale now lease r \<longrightarrow>
            (if j_attempts r < j_max_attempts r then claimable now [] [] (reap_row now r)
             else j_status (reap_row now r) = StatusFailed)) \<and>
         ReapStaleRunning now ttl (fst (ReapStaleRunning now ttl s)) = (fst (ReapStaleRunning now ttl s), 0)"
proof -
  have lease: "(if ttl < seconds 1 then seconds 1 else ttl) = lease"
    using assms by simp
  have gone: "\<not> stale now lease (if stale now lease r then reap_row now r else r)" for r
    by (auto simp: stale_def reap_row_def)
  let ?rs = "sql_update (stale now lease) (reap_row now) (rows s)"
  have none: "\<not> stale now lease r" if "r \<in> set ?rs" for r
  proof -
    from that have "r \<in> (\<lambda>x. if stale now lease x then reap_row now x else x) ` set (rows s)"
      unfolding sql_update_def set_map .
    then show ?thesis by (elim imageE) (simp only: gone, simp)
  qed
  have "sql_update (stale now lease) (reap_row now) ?rs = ?rs"
    by (rule sql_update_none) (rule none)
  moreover have "sql_count (stale now lease) ?rs = 0"
    using none by (simp add: sql_count_def filter_empty_conv)
  ultimately show ?thesis
    by (simp add: ReapStaleRunning_def lease Let_def)
       (auto simp: sql_update_def reap_row_def claimable_def)
qed

theorem reap_spec_witness:
  "rows (fst (ReapStaleRunning (minutes 5) (minutes 2) (sys_store demo_running_sys))) =
     [reap_row (minutes 5) demo_claimed]"
proof -
  have "minutes 2 = max (minutes 2) (seconds 1)"
    by (simp add: minutes_def seconds_def)
  from reap_spec [OF this, of "minutes 5" "sys_store demo_running_sys"] show ?thesis
    by (simp add: demo_running_sys_def stale_def last_sign_def demo_claimed_def claim_row_def demo_job_def
        minutes_def seconds_def)
qed

text \<open>
  C7 A worker that heartbeats keeps its row: a row it owns, stamped at t0, is not stale for any reap
  up to one lease later.
\<close>

theorem heartbeat_protects:
  assumes "store_wf s" "r \<in> set (rows s)" "owns i w r" "now \<le> t0 + max ttl (seconds 1)"
  shows "Get (fst (ReapStaleRunning now ttl (fst (Heartbeat t0 s i w)))) i = Some (heartbeat_row t0 r)"
proof -
  let ?s1 = "fst (Heartbeat t0 s i w)" and ?lease = "if ttl < seconds 1 then seconds 1 else ttl"
  have id: "j_id r = i"
    using assms(3) by (simp add: owns_def)
  have wf1: "store_wf ?s1"
    using assms(1) by (rule heartbeat.wf_write)
  have in1: "heartbeat_row t0 r \<in> set (rows ?s1)"
    using assms(2,3) by (force simp: heartbeat.write_rows set_sql_update)
  have live: "\<not> stale now ?lease (heartbeat_row t0 r)"
    using assms(4) by (auto simp: stale_def last_sign_def heartbeat_row_def)
  then have "heartbeat_row t0 r \<in> set (rows (fst (ReapStaleRunning now ttl ?s1)))"
    using in1 by (force simp: ReapStaleRunning_def Let_def set_sql_update)
  moreover have "distinct (map j_id (rows (fst (ReapStaleRunning now ttl ?s1))))"
    using wf1 by (simp add: ReapStaleRunning_def Let_def sql_update_ids store_wf_def)
  ultimately show ?thesis
    by (simp add: Get_Some_iff) (simp add: heartbeat_row_def id)
qed

theorem heartbeat_protects_witness:
  "Get (fst (ReapStaleRunning (minutes 4) (minutes 2)
      (fst (Heartbeat (minutes 3) (sys_store demo_running_sys) 1 ''w'')))) 1 =
   Some (heartbeat_row (minutes 3) demo_claimed)"
proof -
  have "store_wf (sys_store demo_running_sys)" "demo_claimed \<in> set (rows (sys_store demo_running_sys))"
    "owns 1 ''w'' demo_claimed" "minutes 4 \<le> minutes 3 + max (minutes 2) (seconds 1)"
    by (simp_all add: demo_running_sys_def store_wf_def demo_claimed_def claim_row_def demo_job_def owns_def
        minutes_def seconds_def)
  from heartbeat_protects [OF this] show ?thesis .
qed

section \<open>The limiters\<close>

text \<open>
  Whatever calls a process makes in whatever order (release closures run twice included), the
  in-process limiter never has more slots of a limited kind out than its cap.
\<close>

lemma mem_limiter_cap:
  assumes "0 < cap_of limits k"
  shows "counts (lim_run mem_Acquire mem_Release mem_Refresh mem_Excluded limits newMemLimiter ops) k
         \<le> cap_of limits k"
  by (rule mem.held_run_le_cap) (use assms in \<open>simp_all add: mem_wf_new, simp add: newMemLimiter_def\<close>)

lemma mem_limiter_cap_witness:
  "counts (lim_run mem_Acquire mem_Release mem_Refresh mem_Excluded [(''k'', 2)] newMemLimiter
     [LAcquire 0 ''k'' ''a'', LAcquire 0 ''k'' ''b'', LAcquire 0 ''k'' ''c'', LRelease (MemSlot 0),
      LRelease (MemSlot 0), LAcquire 1 ''k'' ''d'', LAcquire 1 ''k'' ''e'']) ''k'' \<le> 2"
proof -
  have "0 < cap_of [(''k'', 2)] ''k''" "cap_of [(''k'', 2)] ''k'' = 2"
    by (simp_all add: cap_of_def)
  then show ?thesis
    using mem_limiter_cap [of "[(''k'', 2)]" "''k''"] by metis
qed

text \<open>
  C8 The same holds of the fleet-wide limiter for any interleaving of the atomic commands of any
  number of pods, at any instants: the sorted set of a limited kind never exceeds its cap.
\<close>

theorem redis_limiter_cap:
  assumes "0 < cap_of limits k"
  shows "int (length (lim_run redis_acquire redis_Release redis_Refresh redis_excluded limits (\<lambda>_. []) ops
           (semKey k))) \<le> cap_of limits k"
  using redis.held_run_le_cap [of "\<lambda>_. []" limits k ops] assms
  by (simp add: redis_held_def redis_wf_def)

theorem redis_limiter_cap_witness:
  "int (length (lim_run redis_acquire redis_Release redis_Refresh redis_excluded [(''k'', 1)] (\<lambda>_. [])
     [LAcquire 0 ''k'' ''a'', LAcquire (minutes 3) ''k'' ''b'', LRefresh (minutes 4) ''k'' ''a'']
     (semKey ''k''))) \<le> 1"
proof -
  have "0 < cap_of [(''k'', 1)] ''k''" "cap_of [(''k'', 1)] ''k'' = 1"
    by (simp_all add: cap_of_def)
  then show ?thesis
    using redis_limiter_cap [of "[(''k'', 1)]" "''k''"] by metis
qed

text \<open>
  A live holder keeps its slot: after a refresh at t0, no acquire of another pod and no exclude
  pass prunes it until one second short of the slot TTL has passed. The refresh interval of the
  code is well inside that bound.
\<close>

lemma prune_keeps:
  "aget z m = Some score \<Longrightarrow> cutoff < score \<Longrightarrow> aget (zremrangebyscore cutoff z) m = Some score"
proof (induction z)
  case (Cons p z)
  then show ?case
    by (cases p) (auto simp: zremrangebyscore_def split: if_splits)
qed simp

lemma cutoff_fresh:
  assumes "t \<le> t0 + (semTTL - seconds 1)"
  shows "unix (t - semTTL) < unix t0"
proof -
  have "unix (t - semTTL) \<le> unix (t0 - seconds 1)"
    using assms by (intro unix_mono) simp
  also have "\<dots> = unix t0 - 1"
    by (simp add: unix_def seconds_def)
  finally show ?thesis by simp
qed

lemma redis_live_slot_survives:
  assumes "aget (r (semKey k)) h \<noteq> None" "t \<le> t0 + (semTTL - seconds 1)"
  shows "aget (fst (redis_acquire (redis_Refresh r t0 k h) t k' h' m) (semKey k)) h \<noteq> None \<and>
         aget (fst (redis_excluded (redis_Refresh r t0 k h) t ls) (semKey k)) h \<noteq> None \<and>
         slotRefreshInterval \<le> semTTL - seconds 1"
proof -
  let ?r = "redis_Refresh r t0 k h"
  have h: "aget (?r (semKey k)) h = Some (unix t0)"
    using assms(1) by (auto simp: redis_Refresh_def zadd_xx_def aget_aput)
  from prune_keeps [OF h cutoff_fresh [OF assms(2)]]
  have p: "aget (zremrangebyscore (unix (t - semTTL)) (?r (semKey k))) h = Some (unix t0)" .
  have "aget (fst (redis_acquire ?r t k' h' m) (semKey k)) h \<noteq> None"
    using h p by (cases "k' = k") (auto simp: redis_acquire_eq Let_def aget_aput)
  moreover have "aget (fst (redis_excluded ?r t ls) (semKey k)) h \<noteq> None"
    using redis_excluded_state [of ?r t ls "semKey k"] h p by auto
  ultimately show ?thesis
    by (simp add: slotRefreshInterval_def semTTL_def seconds_def minutes_def)
qed

lemma redis_live_slot_survives_witness:
  "aget (fst (redis_acquire (redis_Refresh ((\<lambda>_. [])(semKey ''k'' := [(''a'', 0)])) (seconds 90) ''k'' ''a'')
     (seconds 180) ''k'' ''b'' 1) (semKey ''k'')) ''a'' \<noteq> None"
proof -
  have "aget (((\<lambda>_. [])(semKey ''k'' := [(''a'', 0)])) (semKey ''k'')) ''a'' \<noteq> None"
    "seconds 180 \<le> seconds 90 + (semTTL - seconds 1)"
    by (simp_all add: seconds_def semTTL_def minutes_def)
  from redis_live_slot_survives [of "(\<lambda>_. [])(semKey ''k'' := [(''a'', 0)])" "''k''" "''a''" "seconds 180" "seconds 90",
      OF this]
  show ?thesis by blast
qed

text \<open>
  The exclude pass is exact: with the limits of the registry (one entry per kind), it reports a
  limited kind exactly when an acquire at that instant would be refused.
\<close>

lemma exclude_matches_acquire:
  assumes "distinct (map fst limits)" "(k, m) \<in> set limits" "0 < m"
  shows "k \<in> set (snd (redis_excluded r t limits)) \<longleftrightarrow> snd (redis_acquire r t k h m) = None"
  using assms by (rule redis.not_excluded_admitted)

lemma exclude_matches_acquire_witness:
  "''k'' \<in> set (snd (redis_excluded ((\<lambda>_. [])(semKey ''k'' := [(''a'', 5)])) 0 [(''k'', 1)])) \<longleftrightarrow>
   snd (redis_acquire ((\<lambda>_. [])(semKey ''k'' := [(''a'', 5)])) 0 ''k'' ''b'' 1) = None"
  by (rule exclude_matches_acquire) simp_all

section \<open>The slot around a run\<close>

text \<open>
  Losing the slot race costs a job nothing: claimed and then refused a slot, the row is queued
  again with the attempts, run time and budget it had before the claim, so it is due at once.
\<close>

lemma slot_race_refunds:
  assumes "store_wf s" "ClaimNext s now skip w incl excl = (s1, Some j)" "0 \<le> j_attempts (the (Get s (j_id j)))"
    and "0 < cap_of (Concurrency reg) (j_kind j)"
    and "acquire l t1 (j_kind j) (holder_id p j) (cap_of (Concurrency reg) (j_kind j)) = (l', Inr None)"
  shows "\<exists>r r'. Get s (j_id j) = Some r \<and>
      Get (fst (snd (fst (runJob acquire release True reg env fatal t1 t2 e j (p, s1, l))))) (j_id j) = Some r' \<and>
      j_attempts r' = j_attempts r \<and> same_job r r' \<and> claimable now incl excl r' \<and>
      \<not> snd (runJob acquire release True reg env fatal t1 t2 e j (p, s1, l))"
proof -
  obtain r where r0: "r \<in> set (rows s)" "claimable now incl excl r" "j = claim_row now w r"
      "s1 = s\<lparr>rows := sql_update (\<lambda>x. j_id x = j_id r) (claim_row now w) (rows s)\<rparr>"
    using assms(2) by (rule ClaimNext_Some)
  have j: "j_id j = j_id r" "j_attempts j = j_attempts r + 1" "same_job r j" "owns (j_id j) w j"
    by (simp_all add: r0(3) claim_row_def owns_def same_job_def)
  have r: "Get s (j_id j) = Some r"
    using assms(1) r0(1) j(1) by (simp add: Get_Some_iff store_wf_def)
  have get: "Get s1 (j_id j) = Some j"
    unfolding r0(4) j(1) using Get_update_same [OF _ r0(1), of "claim_row now w" "\<lambda>x. j_id x = j_id r"]
      assms(1) r0(3) by simp
  have wf1: "store_wf s1"
    using assms(1) sql_update_ids [of "claim_row now w" "\<lambda>x. j_id x = j_id r" "rows s"]
    unfolding r0(4) store_wf_def by simp
  have "j \<in> set (rows s1)"
    using get wf1 by (simp add: Get_Some_iff store_wf_def)
  moreover have lock: "j_locked_by j = w"
    using j(4) by (simp add: owns_def)
  ultimately have q: "Get (fst (Requeue s1 (j_id j) (j_locked_by j))) (j_id j) = Some (requeue_row j)"
    unfolding requeue.store_eq
    using Get_update_same [of requeue_row j s1 "owns (j_id j) w"] j(4) wf1 by simp
  have run: "runJob acquire release True reg env fatal t1 t2 e j (p, s1, l) =
      ((p, fst (Requeue s1 (j_id j) (j_locked_by j)), l'), False)"
    using assms(4,5) by (simp add: runJob_def)
  have "j_attempts (requeue_row j) = j_attempts r"
    using assms(3) r j(2) by (simp add: requeue_row_def)
  moreover have "same_job r (requeue_row j)"
    using j(3) by (simp add: same_job_def requeue_row_def)
  moreover have "claimable now incl excl (requeue_row j)"
    using r0(2,3) by (simp add: claimable_def requeue_row_def claim_row_def)
  ultimately show ?thesis
    using r q run by (intro exI [of _ r] exI [of _ "requeue_row j"]) simp
qed

definition mem_acquire_res where
  "mem_acquire_res l t k h m = (case mem_Acquire l t k h m of (l', x) \<Rightarrow> (l', Inr x :: string + mem_release option))"

lemma slot_race_refunds_witness:
  "\<exists>r'. Get (fst (snd (fst (runJob mem_acquire_res mem_Release True (SetConcurrency demo_reg ''k'' 1)
        (\<lambda>w. w) False 8 9 None demo_claimed
        (\<lparr>p_id = ''pod'', p_workers = 1, p_include = [], p_exclude = [], p_cancels = []\<rparr>,
         \<lparr>rows = [demo_claimed], next_id = 2, scheds = []\<rparr>,
         \<lparr>counts = (\<lambda>_. 1), slots = [(''k'', False)]\<rparr>))))) 1 = Some r' \<and> j_attempts r' = 0"
proof -
  let ?p = "\<lparr>p_id = ''pod'', p_workers = 1, p_include = [], p_exclude = [], p_cancels = []\<rparr>"
  let ?l = "\<lparr>counts = (\<lambda>_. 1), slots = [(''k'', False)]\<rparr>"
  have c: "ClaimNext (sys_store demo_queued_sys) 7 {} ''w'' [] [] =
     (\<lparr>rows = [demo_claimed], next_id = 2, scheds = []\<rparr>, Some demo_claimed)"
    by (simp add: ClaimNext_def demo_queued_sys_def claimable_def demo_job_def demo_claimed_def sql_update_def)
  have wf: "store_wf (sys_store demo_queued_sys)"
    by (simp add: store_wf_def demo_queued_sys_def demo_job_def)
  have id: "j_id demo_claimed = 1" "j_kind demo_claimed = ''k''"
    by (simp_all add: demo_claimed_def claim_row_def demo_job_def)
  have get: "Get (sys_store demo_queued_sys) 1 = Some demo_job"
    by (simp add: Get_def demo_queued_sys_def demo_job_def)
  have cap: "cap_of (Concurrency (SetConcurrency demo_reg ''k'' 1)) ''k'' = 1"
    by (simp add: cap_of_def Concurrency_def SetConcurrency_def aget_aput)
  have a: "0 \<le> j_attempts (the (Get (sys_store demo_queued_sys) (j_id demo_claimed)))"
    by (simp add: id get demo_job_def)
  have acq: "mem_acquire_res ?l 8 (j_kind demo_claimed) (holder_id ?p demo_claimed)
      (cap_of (Concurrency (SetConcurrency demo_reg ''k'' 1)) (j_kind demo_claimed)) = (?l, Inr None)"
    by (simp add: mem_acquire_res_def mem_Acquire_def id cap)
  have pos: "0 < cap_of (Concurrency (SetConcurrency demo_reg ''k'' 1)) (j_kind demo_claimed)"
    by (simp add: id cap)
  have "\<exists>r r'. Get (sys_store demo_queued_sys) (j_id demo_claimed) = Some r \<and>
      Get (fst (snd (fst (runJob mem_acquire_res mem_Release True (SetConcurrency demo_reg ''k'' 1) (\<lambda>w. w) False
        8 9 None demo_claimed (?p, \<lparr>rows = [demo_claimed], next_id = 2, scheds = []\<rparr>, ?l))))) (j_id demo_claimed) =
        Some r' \<and> j_attempts r' = j_attempts r"
    using slot_race_refunds [where acquire = mem_acquire_res and p = ?p and l = ?l and l' = ?l and ?t1.0 = 8
        and reg = "SetConcurrency demo_reg ''k'' 1", OF wf c a pos acq] by blast
  then show ?thesis
    by (auto simp: id get demo_job_def)
qed

text \<open>
  A run under the in-process limiter gives its slot back: whatever the handler does (error or
  panic included) and whatever the database answers, the counts after runJob are those before it,
  provided the others left the limiter alone meanwhile.
\<close>

lemma runJob_returns_slot:
  assumes "mem_wf l" "\<And>p s l. snd (snd (env (p, s, l))) = l"
  shows "counts (snd (snd (fst (runJob mem_acquire_res mem_Release limited reg env fatal t1 t2 e j (p, s, l))))) = counts l"
proof -
  have tr: "snd (snd (fst (execTracked reg env fatal t2 e j (p, s, l')))) = l'" for l' :: mem_limiter
    using assms(2) [of "track p j" s l'] by (simp add: execTracked_def Let_def case_prod_unfold)
  have rel: "counts (mem_Release (l\<lparr>counts := (counts l)(k := counts l k + 1),
      slots := slots l @ [(k, False)]\<rparr>) (MemSlot (length (slots l)))) = counts l" for k
    using assms(1) by (auto simp: Let_def mem_wf_def fun_eq_iff)
  show ?thesis
    using tr rel
    by (simp add: runJob_def mem_acquire_res_def mem_Acquire_def Let_def case_prod_unfold del: mem_Release.simps)
qed

lemma runJob_returns_slot_witness:
  "counts (snd (snd (fst (runJob mem_acquire_res mem_Release True (SetConcurrency demo_reg ''k'' 1) (\<lambda>w. w) False
     8 9 (Some ''db down'') demo_claimed
     (\<lparr>p_id = ''pod'', p_workers = 1, p_include = [], p_exclude = [], p_cancels = []\<rparr>,
      sys_store demo_running_sys, newMemLimiter))))) = counts newMemLimiter"
  by (rule runJob_returns_slot) (simp_all add: mem_wf_new)

end
