(* ===== verification/JobFlow.thy ===== *)
theory JobFlow
  imports JobRecovery
begin

text \<open>
  The two loops that move work through the queue: the scheduler, which turns due schedules into
  rows, and the drain loop of a worker, which runs every due row and then stops.
\<close>

section \<open>The scheduler\<close>

lemma no_errs_simps [simp]: "\<not> e_claim no_errs" "\<not> e_pending no_errs k" "\<not> e_enqueue no_errs k"
  by (simp_all add: no_errs_def)

lemma HasPendingKind_iff: "HasPendingKind s k \<longleftrightarrow> (\<exists>r\<in>set (rows s). j_kind r = k \<and> pending r)"
  by (simp add: HasPendingKind_def)

definition fresh_row :: "gotime \<Rightarrow> store \<Rightarrow> string list \<Rightarrow> job \<Rightarrow> bool" where
  "fresh_row now s ks r \<longleftrightarrow> j_kind r \<in> set ks \<and> \<not> HasPendingKind s (j_kind r) \<and>
     claimable now [] [] r \<and> j_owner r = [] \<and> j_max_attempts r = 3"

lemma provider_Enqueue_rows:
  "\<exists>r. rows (fst (provider_Enqueue s now k [] [MaxAttempts 3])) = rows s @ [r] \<and> j_kind r = k \<and>
     claimable now [] [] r \<and> j_owner r = [] \<and> j_max_attempts r = 3"
  by (simp add: provider_Enqueue_def resolveEnqueue_def Enqueue_def Let_def claimable_def time_is_zero_def)

lemma provider_Enqueue_scheds [simp]:
  "scheds (fst (provider_Enqueue s now k p opts)) = scheds s"
  by (simp add: provider_Enqueue_def Enqueue_def Let_def)

lemma fire_kinds_scheds [simp]: "scheds (fire_kinds er now ks s) = scheds s"
  by (induction er now ks s rule: fire_kinds.induct) auto

lemma claimable_pending: "claimable now incl excl r \<Longrightarrow> pending r"
  by (simp add: claimable_def pending_def)

lemma fire_kinds_rows:
  "\<exists>new. rows (fire_kinds no_errs now ks s) = rows s @ new \<and> distinct (map j_kind new) \<and>
     (\<forall>r\<in>set new. fresh_row now s ks r) \<and> (\<forall>k\<in>set ks. HasPendingKind (fire_kinds no_errs now ks s) k)"
proof (induction "no_errs" now ks s rule: fire_kinds.induct)
  case (1 now s)
  show ?case by simp
next
  case (2 now k ks s)
  show ?case
  proof (cases "HasPendingKind s k")
    case True
    have c: "\<not> e_pending no_errs k \<and> HasPendingKind s k"
      using True by simp
    from 2(1) [OF c] obtain new where
      "rows (fire_kinds no_errs now ks s) = rows s @ new" "distinct (map j_kind new)"
      "\<forall>r\<in>set new. fresh_row now s ks r" "\<forall>k\<in>set ks. HasPendingKind (fire_kinds no_errs now ks s) k"
      by blast
    then show ?thesis
      using True by (auto simp: fresh_row_def HasPendingKind_iff intro!: exI [of _ new])
  next
    case False
    let ?s = "fst (provider_Enqueue s now k [] [MaxAttempts 3])"
    obtain r where r: "rows ?s = rows s @ [r]" "j_kind r = k" "claimable now [] [] r" "j_owner r = []"
        "j_max_attempts r = 3"
      using provider_Enqueue_rows by blast
    have c: "\<not> (\<not> e_pending no_errs k \<and> HasPendingKind s k)" "\<not> e_enqueue no_errs k"
      using False by simp_all
    from 2(3) [OF c] obtain new where new:
      "rows (fire_kinds no_errs now ks ?s) = rows ?s @ new" "distinct (map j_kind new)"
      "\<forall>r\<in>set new. fresh_row now ?s ks r" "\<forall>k\<in>set ks. HasPendingKind (fire_kinds no_errs now ks ?s) k"
      by blast
    have pend: "HasPendingKind ?s k"
      using r claimable_pending by (auto simp: HasPendingKind_iff)
    have "fresh_row now s (k # ks) x" if "x \<in> set new" for x
      using that new(3) r(1) by (auto simp: fresh_row_def HasPendingKind_iff)
    moreover have "fresh_row now s (k # ks) r"
      using r False by (simp add: fresh_row_def)
    moreover have "k \<notin> j_kind ` set new"
      using new(3) pend by (auto simp: fresh_row_def)
    moreover have "HasPendingKind (fire_kinds no_errs now ks ?s) k"
      using pend new(1) by (auto simp: HasPendingKind_iff)
    ultimately show ?thesis
      using False new r(1,2) by (intro exI [of _ "r # new"]) auto
  qed
qed

lemma fire_scheds:
  "scheds (fire no_errs now s) = scheds (fst (ClaimDueSchedules now s))"
  by (simp add: fire_def case_prod_unfold)

lemma no_due_after_claim:
  assumes "\<forall>sc\<in>set (scheds s). 1 \<le> s_interval sc" "sc \<in> set (scheds (fst (ClaimDueSchedules now s)))"
  shows "\<not> due now sc"
  using assms by (auto simp: ClaimDueSchedules_def set_sql_update due_def seconds_def split: if_splits)

lemma fire_nothing_due:
  assumes "\<forall>sc\<in>set (scheds s). \<not> due now sc"
  shows "fire no_errs now s = s"
proof -
  have "filter (due now) (scheds s) = []"
    using assms by simp
  then show ?thesis
    using assms by (simp add: fire_def ClaimDueSchedules_def sql_update_none)
qed

text \<open>
  The scheduler coalesces: after one tick every due kind has a pending row, at most one row per
  kind was added, only for a kind that had none pending, and it is due at once; with the
  intervals UpsertSchedule writes (at least one second) no schedule is due any more, so a second
  tick at the same instant (another pod's) adds nothing.
\<close>

lemma fire_coalesces:
  assumes "\<forall>sc\<in>set (scheds s). 1 \<le> s_interval sc"
  shows "(\<forall>sc\<in>set (scheds s). due now sc \<longrightarrow> HasPendingKind (fire no_errs now s) (s_kind sc)) \<and>
         (\<exists>new. rows (fire no_errs now s) = rows s @ new \<and> distinct (map j_kind new) \<and>
            (\<forall>r\<in>set new. \<not> HasPendingKind s (j_kind r) \<and> claimable now [] [] r \<and>
               (\<exists>sc\<in>set (scheds s). due now sc \<and> s_kind sc = j_kind r))) \<and>
         fire no_errs now (fire no_errs now s) = fire no_errs now s"
proof -
  let ?s1 = "fst (ClaimDueSchedules now s)" and ?ks = "snd (ClaimDueSchedules now s)"
  have fire: "fire no_errs now s = fire_kinds no_errs now ?ks ?s1"
    by (simp add: fire_def case_prod_unfold)
  have ks: "set ?ks = {s_kind sc |sc. sc \<in> set (scheds s) \<and> due now sc}" and rows: "rows ?s1 = rows s"
    by (auto simp: ClaimDueSchedules_def)
  from fire_kinds_rows [of now ?ks ?s1] obtain new where new:
    "rows (fire no_errs now s) = rows s @ new" "distinct (map j_kind new)" "\<forall>r\<in>set new. fresh_row now ?s1 ?ks r"
    "\<forall>k\<in>set ?ks. HasPendingKind (fire no_errs now s) k"
    unfolding fire rows by blast
  have "\<not> HasPendingKind s (j_kind r) \<and> claimable now [] [] r \<and>
      (\<exists>sc\<in>set (scheds s). due now sc \<and> s_kind sc = j_kind r)" if "r \<in> set new" for r
    using that new(3) ks rows by (simp add: fresh_row_def HasPendingKind_iff) metis
  moreover have "fire no_errs now (fire no_errs now s) = fire no_errs now s"
    using no_due_after_claim [OF assms] by (intro fire_nothing_due) (simp add: fire_scheds)
  ultimately show ?thesis
    using new(1,2,4) ks by blast
qed

definition demo_sched :: store where
  "demo_sched = UpsertSchedule 0 \<lparr>rows = [], next_id = 1, scheds = []\<rparr> ''sync'' (minutes 5)"

lemma fire_coalesces_witness:
  "HasPendingKind (fire no_errs (minutes 6) demo_sched) ''sync'' \<and>
   fire no_errs (minutes 6) (fire no_errs (minutes 6) demo_sched) = fire no_errs (minutes 6) demo_sched"
proof -
  have s: "scheds demo_sched =
      [\<lparr>s_kind = ''sync'', s_interval = 300, s_next_run = minutes 5, s_last_run = None\<rparr>]"
    by (simp add: demo_sched_def UpsertSchedule_def minutes_def seconds_def Let_def)
  then have "\<forall>sc\<in>set (scheds demo_sched). 1 \<le> s_interval sc"
    by simp
  from fire_coalesces [OF this, of "minutes 6"] show ?thesis
    by (simp add: s due_def minutes_def)
qed

section \<open>The drain loop\<close>

lemma length_filter_less_one:
  assumes "distinct (map f rs)" "r \<in> set rs" "c r" "\<not> c (g r)"
    and "\<And>x. x \<in> set rs \<Longrightarrow> f x \<noteq> f r \<Longrightarrow> c (g x) = c x"
  shows "Suc (length (filter c (map g rs))) = length (filter c rs)"
  using assms
proof (induction rs)
  case (Cons x rs)
  show ?case
  proof (cases "x = r")
    case True
    have "\<And>y. y \<in> set rs \<Longrightarrow> f y \<noteq> f r"
      using Cons.prems(1) True by (metis distinct.simps(2) image_eqI list.set_map list.simps(9))
    then have "filter (c \<circ> g) rs = filter c rs"
      using Cons.prems(5) by (auto intro!: filter_cong)
    then show ?thesis
      using True Cons.prems(3,4) by (simp add: filter_map)
  next
    case False
    then have "r \<in> set rs" "f x \<noteq> f r"
      using Cons.prems(1,2) by auto
    then show ?thesis
      using Cons.IH Cons.prems by auto
  qed
qed simp

definition not_due :: "gotime \<Rightarrow> job \<Rightarrow> bool" where
  "not_due now r \<longleftrightarrow> j_status r \<noteq> StatusQueued \<or> now < j_run_at r"

lemma not_due_claimable: "not_due now r \<Longrightarrow> \<not> claimable now incl excl r"
  by (auto simp: not_due_def claimable_def)

lemma fail_row_facts:
  "not_due now (fail_row now msg None r)" "0 < d \<Longrightarrow> not_due now (fail_row now msg (Some (now + d)) r)"
  "j_attempts (fail_row now msg ra r) = j_attempts r"
  by (simp_all add: not_due_def) (cases ra; simp)

lemma execute_writes:
  assumes "0 < j_attempts j"
  shows "\<exists>f. x_store (execute reg s now j False None) = fst (guarded_write f s (j_id j) (j_locked_by j)) \<and>
           (\<forall>r. same_job r (f r) \<and> not_due now (f r) \<and> j_attempts (f r) = j_attempts r)"
proof (cases "Handler reg (j_kind j)")
  case None
  then show ?thesis
    by (intro exI [of _ "fail_row now (''no handler registered for kind '' @ j_kind j) None"])
       (simp add: execute_def db_call_def Fail_def fail_row_facts case_prod_unfold del: fail_row.simps)
next
  case (Some h)
  have pos: "0 < retryDelay (j_attempts j)"
    using retryDelay_bounds [OF assms] by (simp add: seconds_def)
  have "not_due now (settled_row now j err r) \<and> j_attempts (settled_row now j err r) = j_attempts r" for err r
    using pos by (auto simp: settled_row_def fail_row_facts simp del: fail_row.simps split: option.splits)
      (simp_all add: complete_row_def not_due_def)
  then show ?thesis
    unfolding execute_owned_store [OF Some]
    by (intro exI [of _ "settled_row now j (handler_error (h j))"]) simp
qed

definition due_count :: "gotime \<Rightarrow> string list \<Rightarrow> string list \<Rightarrow> store \<Rightarrow> nat" where
  "due_count now incl excl s = length (filter (claimable now incl excl) (rows s))"

definition drainable :: "store \<Rightarrow> bool" where
  "drainable s \<longleftrightarrow> store_wf s \<and> (\<forall>r\<in>set (rows s). 0 \<le> j_attempts r)"

lemma drain_iteration:
  assumes "drainable s" "ClaimNext s now {} w incl excl = (s1, Some j)"
  shows "drainable (x_store (execute reg s1 now j False None)) \<and>
         Suc (due_count now incl excl (x_store (execute reg s1 now j False None))) = due_count now incl excl s"
proof -
  obtain r where r: "r \<in> set (rows s)" "claimable now incl excl r" "j = claim_row now w r"
      "s1 = s\<lparr>rows := sql_update (\<lambda>x. j_id x = j_id r) (claim_row now w) (rows s)\<rparr>"
    using assms(2) by (rule ClaimNext_Some)
  have wf: "distinct (map j_id (rows s))" "store_wf s" and att: "\<forall>x\<in>set (rows s). 0 \<le> j_attempts x"
    using assms(1) by (simp_all add: drainable_def store_wf_def)
  have j: "j_id j = j_id r" "j_locked_by j = w" "0 < j_attempts j"
    using att r(1) by (auto simp: r(3) claim_row_def)
  obtain f where f: "x_store (execute reg s1 now j False None) = fst (guarded_write f s1 (j_id r) w)"
      "\<And>x. same_job x (f x)" "\<And>x. not_due now (f x)" "\<And>x. j_attempts (f x) = j_attempts x"
    using execute_writes [OF j(3), of reg s1 now] j(1,2) by auto
  define g where "g = (\<lambda>x. if j_id x = j_id r then f (claim_row now w x) else x)"
  have rows: "rows (x_store (execute reg s1 now j False None)) = map g (rows s)"
    unfolding f(1) by (auto simp: r(4) guarded_write_def sql_update_def owns_def g_def claim_row_def)
  have g: "j_id (g x) = j_id x" "0 \<le> j_attempts x \<Longrightarrow> 0 \<le> j_attempts (g x)" for x
    using f(2) [of "claim_row now w x"] by (auto simp: g_def same_job_def f(4) claim_row_def)
  have frame: "next_id (x_store (execute reg s1 now j False None)) = next_id s"
    "scheds (x_store (execute reg s1 now j False None)) = scheds s"
    unfolding f(1) by (simp_all add: r(4) guarded_write_def)
  have "drainable (x_store (execute reg s1 now j False None))"
    using wf(2) att g by (simp add: drainable_def store_wf_def rows frame comp_def)
  moreover have "\<not> claimable now incl excl (g r)"
    by (rule not_due_claimable) (simp add: g_def f(3))
  ultimately show ?thesis
    using length_filter_less_one [OF wf(1) r(1), of "claimable now incl excl" g] r(2)
    by (simp add: due_count_def rows g_def)
qed

text \<open>A turn of a worker nobody disturbs: no error, no lock held by others, no limiter.\<close>

definition quiet :: "gotime \<Rightarrow> 'l turn" where
  "quiet now = \<lparr>t_ctx = None, t_excluded = (\<lambda>l. (l, None)), t_claim_err = None, t_now = now, t_skip = {},
     t_env = (\<lambda>w. w), t_fatal = False, t_start = now, t_end = now, t_dberr = None\<rparr>"

lemma runJob_quiet:
  "runJob acquire release False reg (\<lambda>w. w) False t1 now None j (p, s, l) =
     ((untrack (track p j) j, x_store (execute reg s now j False None), l), True)"
  by (simp add: runJob_def execTracked_def Let_def track_def aget_aput)

definition due_for :: "provider \<Rightarrow> gotime \<Rightarrow> store \<Rightarrow> nat" where
  "due_for p now s = due_count now (p_include p) (p_exclude p) s"

lemma due_for_track [simp]: "due_for (untrack (track p j) j) = due_for p"
  by (simp add: due_for_def track_def untrack_def fun_eq_iff)



end
