(* ===== verification/GoTime.thy ===== *)
theory GoTime
  imports Prelude
begin

text \<open>
  The part of Go's \<open>time\<close> package the sources use on UTC instants: the day of an instant, the
  proleptic Gregorian calendar, \<open>time.Date\<close> with its normalisation of months and days,
  \<open>Time.AddDate\<close>, \<open>Time.Weekday\<close> and truncation to a day.
\<close>

definition day_ns :: duration where
  "day_ns = 86400 * nanos_per_second"

definition hour_ns :: duration where
  "hour_ns = 3600 * nanos_per_second"

definition day_no :: "gotime \<Rightarrow> int" where
  "day_no t = t div day_ns"

definition midnight :: "gotime \<Rightarrow> gotime" where
  "midnight t = day_no t * day_ns"

text \<open>
  Years run from March internally, so that the leap day comes last: year of the era, day of the
  year and month follow by division.
\<close>

definition days_from_civil :: "int \<Rightarrow> int \<Rightarrow> int \<Rightarrow> int" where
  "days_from_civil y m d =
     (let y' = (if m \<le> 2 then y - 1 else y);
          era = y' div 400; yoe = y' mod 400;
          mp = (m + 9) mod 12;
          doy = (153 * mp + 2) div 5 + d - 1
      in era * 146097 + (365 * yoe + yoe div 4 - yoe div 100 + doy) - 719468)"

definition civil_from_days :: "int \<Rightarrow> int \<times> int \<times> int" where
  "civil_from_days z =
     (let z' = z + 719468;
          era = z' div 146097; doe = z' mod 146097;
          c = min 3 (doe div 36524); d1 = doe - 36524 * c;
          q = d1 div 1461; d2 = d1 mod 1461;
          y3 = min 3 (d2 div 365); doy = d2 - 365 * y3;
          mp = (5 * doy + 2) div 153;
          d = doy - (153 * mp + 2) div 5 + 1;
          m = (if mp < 10 then mp + 3 else mp - 9);
          y = 400 * era + 100 * c + 4 * q + y3
      in (if m \<le> 2 then y + 1 else y, m, d))"

text \<open>\<open>time.Date (y, m, d, 0, 0, 0, 0, time.UTC)\<close> as a day number: months and days out of range carry.\<close>

definition date_days :: "int \<Rightarrow> int \<Rightarrow> int \<Rightarrow> int" where
  "date_days y m d = days_from_civil (y + (m - 1) div 12) ((m - 1) mod 12 + 1) 1 + (d - 1)"

definition Date :: "int \<Rightarrow> int \<Rightarrow> int \<Rightarrow> gotime" where
  "Date y m d = date_days y m d * day_ns"

definition year_of :: "gotime \<Rightarrow> int" where
  "year_of t = fst (civil_from_days (day_no t))"

definition month_of :: "gotime \<Rightarrow> int" where
  "month_of t = fst (snd (civil_from_days (day_no t)))"

definition day_of :: "gotime \<Rightarrow> int" where
  "day_of t = snd (snd (civil_from_days (day_no t)))"

definition AddDate :: "gotime \<Rightarrow> int \<Rightarrow> int \<Rightarrow> int \<Rightarrow> gotime" where
  "AddDate t ys ms ds =
     Date (year_of t + ys) (month_of t + ms) (day_of t + ds) + t mod day_ns"

text \<open>\<open>Time.Weekday\<close>: Sunday is 0; 1970-01-01 was a Thursday.\<close>

definition Weekday :: "gotime \<Rightarrow> int" where
  "Weekday t = (day_no t + 4) mod 7"

section \<open>The calendar\<close>

lemma day_ns_pos [simp]: "0 < day_ns"
  by (simp add: day_ns_def)

lemma civil_bounds:
  assumes "civil_from_days z = (y, m, d)"
  shows "1 \<le> m \<and> m \<le> 12 \<and> 1 \<le> d \<and> d \<le> 31"
proof -
  define doe where "doe = (z + 719468) mod 146097"
  define d1 where "d1 = doe - 36524 * min 3 (doe div 36524)"
  define d2 where "d2 = d1 mod 1461"
  define doy where "doy = d2 - 365 * min 3 (d2 div 365)"
  have "0 \<le> d2" "d2 \<le> 1460"
    by (simp_all add: d2_def)
  then have doy: "0 \<le> doy" "doy \<le> 365"
    by (auto simp: doy_def min_def)
  define mp where "mp = (5 * doy + 2) div 153"
  have "0 \<le> mp" "mp \<le> 11" "1 \<le> doy - (153 * mp + 2) div 5 + 1" "doy - (153 * mp + 2) div 5 + 1 \<le> 31"
    using doy unfolding mp_def by linarith+
  with assms show ?thesis
    unfolding civil_from_days_def Let_def doe_def [symmetric] d1_def [symmetric] d2_def [symmetric]
      doy_def [symmetric] mp_def [symmetric]
    by (auto split: if_splits)
qed

lemma days_civil_days:
  assumes "civil_from_days z = (y, m, d)"
  shows "days_from_civil y m d = z"
proof -
  define era where "era = (z + 719468) div 146097"
  define doe where "doe = (z + 719468) mod 146097"
  define c where "c = min 3 (doe div 36524)"
  define d1 where "d1 = doe - 36524 * c"
  define q where "q = d1 div 1461"
  define d2 where "d2 = d1 mod 1461"
  define y3 where "y3 = min 3 (d2 div 365)"
  define doy where "doy = d2 - 365 * y3"
  define mp where "mp = (5 * doy + 2) div 153"
  have doe: "0 \<le> doe" "doe < 146097" "z + 719468 = 146097 * era + doe"
    by (simp_all add: doe_def era_def)
  have c: "0 \<le> c" "c \<le> 3" "0 \<le> d1" "d1 \<le> 36524" "doe = 36524 * c + d1"
    using doe unfolding c_def d1_def by (auto simp: min_def)
  have q: "0 \<le> q" "q \<le> 24" "0 \<le> d2" "d2 < 1461" "d1 = 1461 * q + d2"
    using c unfolding q_def d2_def by auto
  have y3: "0 \<le> y3" "y3 \<le> 3" "0 \<le> doy" "doy \<le> 365" "d2 = 365 * y3 + doy"
    using q unfolding y3_def doy_def by (auto simp: min_def)
  have mp: "0 \<le> mp" "mp \<le> 11"
    using y3 unfolding mp_def by linarith+
  define yoe where "yoe = 100 * c + 4 * q + y3"
  have yoe: "0 \<le> yoe" "yoe < 400" "yoe div 4 = 25 * c + q" "yoe div 100 = c"
    using c q y3 unfolding yoe_def by linarith+
  have ymd: "m = (if mp < 10 then mp + 3 else mp - 9)" "d = doy - (153 * mp + 2) div 5 + 1"
      "(if m \<le> 2 then y - 1 else y) = 400 * era + yoe"
    using assms unfolding civil_from_days_def Let_def era_def [symmetric] doe_def [symmetric] c_def [symmetric]
      d1_def [symmetric] q_def [symmetric] d2_def [symmetric] y3_def [symmetric] doy_def [symmetric]
      mp_def [symmetric] yoe_def by auto
  have "(m + 9) mod 12 = mp"
    using mp by (auto simp: ymd(1))
  moreover have "(400 * era + yoe) div 400 = era" "(400 * era + yoe) mod 400 = yoe"
    using yoe by simp_all
  ultimately show ?thesis
    using doe(3) c(5) q(5) y3(5) yoe(3,4)
    unfolding days_from_civil_def Let_def ymd(3) by (simp add: ymd(2)) (simp add: yoe_def)
qed

lemma month_of_doy:
  fixes mp d :: int
  assumes "0 \<le> mp" "mp \<le> 11" "1 \<le> d" "d \<le> 28"
  shows "(5 * ((153 * mp + 2) div 5 + d - 1) + 2) div 153 = mp \<and> 0 \<le> (153 * mp + 2) div 5 + d - 1 \<and>
         (153 * mp + 2) div 5 + d - 1 \<le> 364"
proof -
  have "mp = 0 \<or> mp = 1 \<or> mp = 2 \<or> mp = 3 \<or> mp = 4 \<or> mp = 5 \<or> mp = 6 \<or> mp = 7 \<or> mp = 8 \<or>
      mp = 9 \<or> mp = 10 \<or> mp = 11"
    using assms(1,2) by presburger
  then show ?thesis
    using assms(3,4) by (elim disjE) simp_all
qed

lemma civil_days_civil:
  assumes "1 \<le> m" "m \<le> 12" "1 \<le> d" "d \<le> 28"
  shows "civil_from_days (days_from_civil y m d) = (y, m, d)"
proof -
  define y' where "y' = (if m \<le> 2 then y - 1 else y)"
  define era where "era = y' div 400"
  define yoe where "yoe = y' mod 400"
  define mp where "mp = (m + 9) mod 12"
  define doy where "doy = (153 * mp + 2) div 5 + d - 1"
  define c where "c = yoe div 100"
  define r where "r = yoe mod 100"
  define q where "q = r div 4"
  define y3 where "y3 = r mod 4"
  have yoe: "0 \<le> yoe" "yoe < 400" "y' = 400 * era + yoe"
    by (simp_all add: yoe_def era_def)
  have r: "0 \<le> r" "r < 100" "yoe = 100 * c + r" "r = 4 * q + y3"
    by (simp_all add: r_def c_def q_def y3_def)
  have parts: "0 \<le> c" "c \<le> 3" "0 \<le> q" "q \<le> 24" "0 \<le> y3" "y3 \<le> 3" "yoe = 100 * c + 4 * q + y3"
  proof -
    show "0 \<le> c" "c \<le> 3" using yoe(1,2) unfolding c_def by linarith+
    show "0 \<le> q" "q \<le> 24" using r(1,2) unfolding q_def by linarith+
    show "0 \<le> y3" "y3 \<le> 3" unfolding y3_def by simp_all
    show "yoe = 100 * c + 4 * q + y3" using r(3,4) by linarith
  qed
  have "yoe = 4 * (25 * c + q) + y3"
    using parts(7) by simp
  then have "yoe div 4 = 25 * c + q"
    using parts(5,6) by simp
  note parts = parts this
  have mp_eq: "mp = (if m \<le> 2 then m + 9 else m - 3)"
  proof (cases "m \<le> 2")
    case True
    with assms(1) show ?thesis by (simp add: mp_def)
  next
    case False
    have "m + 9 = (m - 3) + 12" by simp
    then have "(m + 9) mod 12 = (m - 3) mod 12"
      by (metis mod_add_self2)
    with False assms(2) show ?thesis by (simp add: mp_def)
  qed
  have mp: "0 \<le> mp" "mp \<le> 11" "m = (if mp < 10 then mp + 3 else mp - 9)"
    using assms(1,2) unfolding mp_eq by (auto split: if_splits)
  have doy: "(5 * doy + 2) div 153 = mp" "0 \<le> doy" "doy \<le> 364" "d = doy - (153 * mp + 2) div 5 + 1"
    using month_of_doy [OF mp(1,2) assms(3,4)] unfolding doy_def by simp_all
  define doe where "doe = 36524 * c + 1461 * q + 365 * y3 + doy"
  have z: "days_from_civil y m d + 719468 = era * 146097 + doe"
    using parts(7,8) unfolding days_from_civil_def Let_def y'_def [symmetric] era_def [symmetric]
      yoe_def [symmetric] mp_def [symmetric] doy_def [symmetric] c_def [symmetric] doe_def by simp
  have doe: "0 \<le> doe" "doe < 146097" "doe div 36524 = c"
    using parts doy(2,3) unfolding doe_def by linarith+
  have zdiv: "(days_from_civil y m d + 719468) div 146097 = era"
      "(days_from_civil y m d + 719468) mod 146097 = doe"
    using doe unfolding z by simp_all
  have d1: "doe - 36524 * c = 1461 * q + (365 * y3 + doy)"
    by (simp add: doe_def)
  have r3: "0 \<le> 365 * y3 + doy" "365 * y3 + doy < 1461" "(365 * y3 + doy) div 365 = y3"
    using parts(5,6) doy(2,3) by linarith+
  have qdiv: "(1461 * q + (365 * y3 + doy)) div 1461 = q" "(1461 * q + (365 * y3 + doy)) mod 1461 = 365 * y3 + doy"
    using r3 by simp_all
  have mins: "min 3 c = c" "min 3 y3 = y3"
    using parts by simp_all
  show ?thesis
    unfolding civil_from_days_def Let_def zdiv doe(3) mins d1 qdiv r3(3)
    using doy(1,4) mp parts(7) yoe(3) by (auto simp: y'_def)
qed

lemma date_days_civil:
  assumes "civil_from_days z = (y, m, d)"
  shows "date_days y m (d + k) = z + k"
proof -
  have m: "1 \<le> m" "m \<le> 12"
    using civil_bounds [OF assms] by simp_all
  have "days_from_civil y m 1 + (d - 1) = days_from_civil y m d"
    by (simp add: days_from_civil_def Let_def)
  then show ?thesis
    using days_civil_days [OF assms] m by (simp add: date_days_def)
qed

lemma AddDate_days: "AddDate t 0 0 k = t + k * day_ns"
proof -
  obtain y m d where c: "civil_from_days (day_no t) = (y, m, d)"
    by (cases "civil_from_days (day_no t)") auto
  have "date_days y m (d + k) = day_no t + k"
    by (rule date_days_civil [OF c])
  then show ?thesis
    using div_mult_mod_eq [of t day_ns]
    by (simp add: AddDate_def Date_def year_of_def month_of_def day_of_def c distrib_right)
       (simp add: day_no_def)
qed

lemma midnight_le: "midnight t \<le> t"
  by (simp add: midnight_def day_no_def) (metis day_ns_pos div_mult_mod_eq le_add_same_cancel1 pos_mod_sign)

lemma midnight_next: "t < midnight t + day_ns"
  by (simp add: midnight_def day_no_def)
     (metis add.commute add_less_cancel_right day_ns_pos div_mult_mod_eq mult.commute pos_mod_bound)

lemma midnight_idem [simp]: "midnight (midnight t) = midnight t"
  by (simp add: midnight_def day_no_def)

lemma midnight_shift: "midnight (t + k * day_ns) = midnight t + k * day_ns"
proof -
  have "(t + k * day_ns) div day_ns = k + t div day_ns"
    by (simp add: day_ns_def)
  then show ?thesis
    by (simp add: midnight_def day_no_def algebra_simps)
qed

lemma day_no_mult [simp]: "day_no (k * day_ns) = k"
  by (simp add: day_no_def day_ns_def)

lemma date_midnight: "Date (year_of t) (month_of t) (day_of t) = midnight t"
proof -
  have "civil_from_days (day_no t) = (year_of t, month_of t, day_of t)"
    by (simp add: year_of_def month_of_def day_of_def)
  from date_days_civil [OF this, of 0] show ?thesis
    by (simp add: Date_def midnight_def)
qed

text \<open>Months counted from year 0: stepping back over months.\<close>

definition month_index :: "gotime \<Rightarrow> int" where
  "month_index t = 12 * year_of t + (month_of t - 1)"

lemma Date_first:
  "month_index (Date y m 1) = 12 * y + (m - 1) \<and> day_of (Date y m 1) = 1"
proof -
  have "(m - 1) mod 12 + 1 \<le> 12"
    by presburger
  then have "civil_from_days (days_from_civil (y + (m - 1) div 12) ((m - 1) mod 12 + 1) 1) =
      (y + (m - 1) div 12, (m - 1) mod 12 + 1, 1)"
    by (intro civil_days_civil) simp_all
  then show ?thesis
    by (simp add: month_index_def year_of_def month_of_def day_of_def Date_def date_days_def)
qed

text \<open>The first days of the months are increasing.\<close>

definition month_start :: "int \<Rightarrow> int" where
  "month_start k = days_from_civil (k div 12) (k mod 12 + 1) 1"

lemma Date_month_start: "Date y m 1 = month_start (12 * y + (m - 1)) * day_ns"
  by (simp add: Date_def date_days_def month_start_def)

lemma days_from_civil_alt:
  "days_from_civil y m d =
     (let y' = (if m \<le> 2 then y - 1 else y)
      in 365 * y' + y' div 4 - y' div 100 + y' div 400 + (153 * ((m + 9) mod 12) + 2) div 5 + d - 719469)"
proof -
  define y' where "y' = (if m \<le> 2 then y - 1 else y)"
  define era where "era = y' div 400"
  define yoe where "yoe = y' mod 400"
  have y: "y' = 4 * (100 * era) + yoe" "y' = 100 * (4 * era) + yoe" "y' = 400 * era + yoe"
    by (simp_all add: era_def yoe_def)
  have "y' div 4 = 100 * era + yoe div 4"
    by (subst y(1)) (simp only: div_mult_self4 zero_neq_numeral not_False_eq_True)
  moreover have "y' div 100 = 4 * era + yoe div 100"
    by (subst y(2)) (simp only: div_mult_self4 zero_neq_numeral not_False_eq_True)
  ultimately show ?thesis
    using y(3) unfolding days_from_civil_def Let_def y'_def [symmetric] era_def [symmetric] yoe_def [symmetric]
    by simp
qed

lemma month_start_Suc: "month_start k < month_start (k + 1)"
proof -
  define y where "y = k div 12"
  define r where "r = k mod 12"
  have k: "k = 12 * y + r" "0 \<le> r" "r < 12"
    by (simp_all add: y_def r_def)
  have r_cases: "r = 0 \<or> r = 1 \<or> r = 2 \<or> r = 3 \<or> r = 4 \<or> r = 5 \<or> r = 6 \<or> r = 7 \<or> r = 8 \<or> r = 9 \<or> r = 10 \<or> r = 11"
    using k(2,3) by presburger
  have "(12 * y + r) div 12 = y" "(12 * y + r) mod 12 = r"
    using k(2,3) by simp_all
  then have s0: "month_start k = days_from_civil y (r + 1) 1"
    by (simp add: month_start_def k(1))
  show ?thesis
  proof (cases "r = 11")
    case True
    then have "k + 1 = 12 * (y + 1)"
      by (simp add: k(1))
    then have "month_start (k + 1) = days_from_civil (y + 1) 1 1"
      by (simp add: month_start_def add.commute [of 1 y])
    with True show ?thesis
      by (simp add: s0 days_from_civil_alt Let_def)
  next
    case False
    then have "(12 * y + (r + 1)) div 12 = y" "(12 * y + (r + 1)) mod 12 = r + 1"
      using k(2,3) by simp_all
    then have s1: "month_start (k + 1) = days_from_civil y (r + 2) 1"
      by (simp add: month_start_def k(1) add.assoc)
    show ?thesis
    proof (cases "r = 1")
      case True
      have "(y - 1) div 4 \<le> y div 4" "y div 100 \<le> (y - 1) div 100 + 1" "(y - 1) div 400 \<le> y div 400"
        by linarith+
      then show ?thesis
        by (simp add: s0 s1 True days_from_civil_alt Let_def)
    next
      case neq: False
      show ?thesis
        using r_cases False neq by (elim disjE) (simp_all add: s0 s1 days_from_civil_alt Let_def)
    qed
  qed
qed

lemma month_start_mono: "month_start (k - int n) \<le> month_start k"
proof (induction n)
  case (Suc n)
  have "month_start (k - int (Suc n)) < month_start (k - int (Suc n) + 1)"
    by (rule month_start_Suc)
  moreover have "k - int (Suc n) + 1 = k - int n"
    by simp
  ultimately show ?case
    using Suc.IH by (simp only: )
qed simp

lemma month_first_le: "month_start (month_index t) * day_ns \<le> midnight t"
proof -
  have c: "civil_from_days (day_no t) = (year_of t, month_of t, day_of t)"
    by (simp add: year_of_def month_of_def day_of_def)
  have "month_start (month_index t) = date_days (year_of t) (month_of t) (day_of t + (1 - day_of t))"
    using Date_month_start [of "year_of t" "month_of t"] by (simp add: Date_def month_index_def day_ns_def)
  also have "\<dots> = day_no t + (1 - day_of t)"
    by (rule date_days_civil [OF c])
  also have "\<dots> \<le> day_no t"
    using civil_bounds [OF c] by simp
  finally show ?thesis
    by (simp add: midnight_def mult_right_mono less_imp_le [OF day_ns_pos])
qed

end
