(* ===== verification/QueryModel.thy ===== *)
theory QueryModel
  imports GoTime
begin

text \<open>
  The cross-domain query language: the query and its parts (internal/shared/query/query.go), the
  domain registry (registry.go) and the four built-in domains (domains.go). A Go string type with
  named constants (Granularity, Op, PredKind) stays a string, because a request may carry any
  value. The registry maps are association lists.
\<close>

section \<open>Ranges and predicates\<close>

definition trunc :: "string \<Rightarrow> string option" where
  "trunc g = (if g = ''day'' then Some ''day'' else if g = ''week'' then Some ''week''
              else if g = ''month'' then Some ''month'' else None)"

record range =
  r_lastN :: int
  r_start :: gotime
  r_end :: gotime

definition zero_range :: range where
  "zero_range = \<lparr>r_lastN = 0, r_start = zero_time, r_end = zero_time\<rparr>"

definition LastN :: "int \<Rightarrow> range" where
  "LastN n = zero_range\<lparr>r_lastN := n\<rparr>"

definition Between :: "gotime \<Rightarrow> gotime \<Rightarrow> range" where
  "Between s e = zero_range\<lparr>r_start := s, r_end := e\<rparr>"

definition range_isZero :: "range \<Rightarrow> bool" where
  "range_isZero r \<longleftrightarrow> r_lastN r = 0 \<and> time_is_zero (r_start r) \<and> time_is_zero (r_end r)"

text \<open>Every way a query is refused; \<open>NilPanic\<close> is the dereference of a nil predicate.\<close>

datatype qerror =
    EmptyOwner | UnknownDomain string | RangeMixed | RangeOneSided | RangeReversed
  | NoMeasure | UnknownMeasure string string | GroupWithGranularity string | BucketNeedsGroup
  | UnknownDimension string string | UnsupportedGroup string string | UnknownGranularity string
  | RollupsNeedGroup | UnknownRollup string string | RollupOtherTable string string
  | UnsupportedFilter string string | NoValues string | UnknownOp string
  | NoChildren string | NotArity nat | UnknownKind string
  | UnknownHavingOp string | HavingNeedsGroup
  | SortBucketNeedsSeries | SortKeyNeedsGroup | UnknownSort string
  | NoRowListing string | RowsWithGroup | RowsWithGranularity | RowsWithSort | RowsWithLimit
  | RowsWithHaving | RowsWithBucket | RowsWithRollups | NoColumns string
  | NilPanic

definition range_validate :: "range \<Rightarrow> qerror option" where
  "range_validate r =
     (if r_lastN r \<noteq> 0 \<and> (\<not> time_is_zero (r_start r) \<or> \<not> time_is_zero (r_end r)) then Some RangeMixed
      else if time_is_zero (r_start r) \<noteq> time_is_zero (r_end r) then Some RangeOneSided
      else if \<not> time_is_zero (r_start r) \<and> r_end r < r_start r then Some RangeReversed
      else None)"

text \<open>A node of the where-tree; a child may be a nil pointer.\<close>

datatype predicate =
  Predicate (pr_kind: string) (pr_dim: string) (pr_op: string) (pr_values: "string list")
    (pr_of: "predicate option list")

definition Leaf :: "string \<Rightarrow> string \<Rightarrow> string list \<Rightarrow> predicate" where
  "Leaf dn op vs = Predicate ''leaf'' dn op vs []"

definition And :: "predicate option list \<Rightarrow> predicate" where
  "And ps = Predicate ''and'' [] [] [] ps"

definition Or :: "predicate option list \<Rightarrow> predicate" where
  "Or ps = Predicate ''or'' [] [] [] ps"

definition Not :: "predicate option \<Rightarrow> predicate" where
  "Not p = Predicate ''not'' [] [] [] [p]"

record bucketPolicy =
  bp_topN :: int
  bp_pin :: "string list"
  bp_other :: bool

record havingCond =
  h_op :: string
  h_value :: float64

section \<open>The query and its builders\<close>

record query =
  q_domain :: string
  q_measure :: string
  q_group :: string
  q_where :: "predicate option"
  q_gran :: string
  q_rng :: range
  q_bucket :: "bucketPolicy option"
  q_having :: "havingCond option"
  q_sortField :: string
  q_sortDesc :: bool
  q_sortSet :: bool
  q_rollups :: "string list"
  q_rowsMode :: bool
  q_page :: int
  q_pageSize :: int
  q_limit :: int
  q_now :: gotime

definition Q :: "string \<Rightarrow> query" where
  "Q domain = \<lparr>q_domain = domain, q_measure = [], q_group = [], q_where = None, q_gran = ''none'',
     q_rng = zero_range, q_bucket = None, q_having = None, q_sortField = [], q_sortDesc = False,
     q_sortSet = False, q_rollups = [], q_rowsMode = False, q_page = 0, q_pageSize = 0, q_limit = 0,
     q_now = zero_time\<rparr>"

definition Measure :: "query \<Rightarrow> string \<Rightarrow> query" where "Measure q name = q\<lparr>q_measure := name\<rparr>"
definition Where :: "query \<Rightarrow> predicate option \<Rightarrow> query" where "Where q p = q\<lparr>q_where := p\<rparr>"
definition Group :: "query \<Rightarrow> string \<Rightarrow> query" where "Group q dn = q\<lparr>q_group := dn\<rparr>"
definition Over :: "query \<Rightarrow> string \<Rightarrow> range \<Rightarrow> query" where "Over q g r = q\<lparr>q_gran := g, q_rng := r\<rparr>"
definition Bucket :: "query \<Rightarrow> bucketPolicy \<Rightarrow> query" where "Bucket q p = q\<lparr>q_bucket := Some p\<rparr>"
definition Having :: "query \<Rightarrow> havingCond \<Rightarrow> query" where "Having q c = q\<lparr>q_having := Some c\<rparr>"
definition Sort :: "query \<Rightarrow> string \<Rightarrow> bool \<Rightarrow> query" where
  "Sort q field desc = q\<lparr>q_sortField := field, q_sortDesc := desc, q_sortSet := True\<rparr>"
definition Rollups :: "query \<Rightarrow> string list \<Rightarrow> query" where "Rollups q names = q\<lparr>q_rollups := names\<rparr>"
definition Rows :: "query \<Rightarrow> query" where "Rows q = q\<lparr>q_rowsMode := True\<rparr>"
definition Page :: "query \<Rightarrow> int \<Rightarrow> int \<Rightarrow> query" where
  "Page q number sz = q\<lparr>q_page := number, q_pageSize := sz\<rparr>"
definition Limit :: "query \<Rightarrow> int \<Rightarrow> query" where "Limit q n = q\<lparr>q_limit := n\<rparr>"
definition At_time :: "query \<Rightarrow> gotime \<Rightarrow> query" where "At_time q t = q\<lparr>q_now := t\<rparr>"

lemmas builder_defs = Measure_def Where_def Group_def Over_def Bucket_def Having_def Sort_def
  Rollups_def Rows_def Page_def Limit_def At_time_def

section \<open>The registry\<close>

record measure =
  m_name :: string
  m_table :: string
  m_expr :: string
  m_dateCol :: string
  m_ownerCol :: string
  m_dims :: "string list"

record dimension =
  d_name :: string
  d_table :: string
  d_expr :: string

record rowColumn =
  rc_name :: string
  rc_expr :: string

record rowSource =
  rs_table :: string
  rs_ownerCol :: string
  rs_dateCol :: string
  rs_columns :: "rowColumn list"
  rs_defaultSort :: string

record domain =
  dom_name :: string
  dom_measures :: "(string \<times> measure) list"
  dom_dimensions :: "(string \<times> dimension) list"
  dom_rows :: "rowSource option"

type_synonym domains = "(string \<times> domain) list"

definition supportsDim :: "measure \<Rightarrow> string \<Rightarrow> bool" where
  "supportsDim m name \<longleftrightarrow> name \<in> set (m_dims m)"

text \<open>Registering a name twice panics, here None.\<close>

definition RegisterDomain :: "domains \<Rightarrow> domain \<Rightarrow> domains option" where
  "RegisterDomain reg d =
     (case aget reg (dom_name d) of Some _ \<Rightarrow> None | None \<Rightarrow> Some (reg @ [(dom_name d, d)]))"

definition lookupDomain :: "domains \<Rightarrow> string \<Rightarrow> domain option" where
  "lookupDomain reg name = aget reg name"

fun union_dims :: "string list \<Rightarrow> string list \<Rightarrow> string list" where
  "union_dims dims [] = dims"
| "union_dims dims (d # ds) = union_dims (if d \<in> set dims then dims else dims @ [d]) ds"

fun rows_dims :: "string \<Rightarrow> string list \<Rightarrow> (string \<times> measure) list \<Rightarrow> string list" where
  "rows_dims table dims [] = dims"
| "rows_dims table dims ((n, m) # ms) =
     rows_dims table (if m_table m \<noteq> table then dims else union_dims dims (m_dims m)) ms"

definition rowsMeasure :: "domain \<Rightarrow> measure option" where
  "rowsMeasure dmn =
     (case dom_rows dmn of None \<Rightarrow> None
      | Some rs \<Rightarrow> Some \<lparr>m_name = ''__rows'', m_table = rs_table rs, m_expr = [], m_dateCol = rs_dateCol rs,
                      m_ownerCol = rs_ownerCol rs, m_dims = rows_dims (rs_table rs) [] (dom_measures dmn)\<rparr>)"

lemma set_union_dims: "set (union_dims dims ds) = set dims \<union> set ds"
  by (induction dims ds rule: union_dims.induct) auto

lemma set_rows_dims:
  "set (rows_dims table dims ms) = set dims \<union> (\<Union>(n, m)\<in>set ms. if m_table m = table then set (m_dims m) else {})"
  by (induction table dims ms rule: rows_dims.induct) (auto simp: set_union_dims split: if_splits)

end
