(* ===== verification/QueryDomains.thy ===== *)
theory QueryDomains
  imports QueryModel
begin

text \<open>
  The four built-in domains of internal/shared/query/domains.go, as the init function registers
  them: their tables, owner and date columns, measures, dimensions and leaf-row projections.
\<close>

definition qt :: string where
  "qt = [CHR 0x27]"

definition axes :: "string list" where
  "axes = [''project'', ''language'', ''editor'', ''category'', ''branch'', ''plugin'', ''machine'', ''platform'']"

definition registerCoding :: domain where
  "registerCoding = \<lparr>dom_name = ''coding'',
     dom_measures =
       [(''seconds'', \<lparr>m_name = ''seconds'', m_table = ''hb_rollup_daily'', m_expr = ''sum(total_seconds)'',
          m_dateCol = ''day'', m_ownerCol = ''sender'',
          m_dims = axes\<rparr>)],
     dom_dimensions = map (\<lambda>a. (a, \<lparr>d_name = a, d_table = ''hb_rollup_daily'', d_expr = a\<rparr>)) axes,
     dom_rows = None\<rparr>"

definition registerReading :: domain where
  "registerReading = \<lparr>dom_name = ''reading'',
     dom_measures =
       [(''seconds'', \<lparr>m_name = ''seconds'', m_table = ''reading_activity'', m_expr = ''sum(listening_seconds)'',
          m_dateCol = ''bucket_date'', m_ownerCol = ''owner'',
          m_dims = [''source'']\<rparr>),
        (''books'', \<lparr>m_name = ''books'', m_table = ''reading_items'', m_expr = ''count(*)'',
          m_dateCol = ''finished_at'', m_ownerCol = ''owner'',
          m_dims = [''source'', ''status'', ''statusDerived'',
            ''isMatched'', ''syncState'', ''series'', ''author'', ''genre'',
            ''list'', ''title'', ''liberationStatus'']\<rparr>),
        (''runtime'', \<lparr>m_name = ''runtime'', m_table = ''reading_items'', m_expr = ''sum(runtime_min)'',
          m_dateCol = ''finished_at'', m_ownerCol = ''owner'',
          m_dims = [''source'', ''status'', ''statusDerived'',
            ''isMatched'', ''syncState'', ''series'', ''author'', ''genre'',
            ''list'', ''title'', ''liberationStatus'']\<rparr>),
        (''finished'', \<lparr>m_name = ''finished'', m_table = ''reading_items'', m_expr = ''sum(case when COALESCE(status_override, status) = '' @ qt @ ''read'' @ qt @ '' then 1 else 0 end)'',
          m_dateCol = ''finished_at'', m_ownerCol = ''owner'',
          m_dims = [''source'', ''status'', ''statusDerived'',
            ''isMatched'', ''syncState'', ''series'', ''author'', ''genre'',
            ''list'', ''title'', ''liberationStatus'']\<rparr>)],
     dom_dimensions = 
       [(''source'', \<lparr>d_name = ''source'', d_table = ''reading_activity'', d_expr = ''source''\<rparr>),
        (''status'', \<lparr>d_name = ''status'', d_table = ''reading_items'', d_expr = ''COALESCE(status_override, status)''\<rparr>),
        (''statusDerived'', \<lparr>d_name = ''statusDerived'', d_table = ''reading_items'', d_expr = ''status''\<rparr>),
        (''series'', \<lparr>d_name = ''series'', d_table = ''reading_items'', d_expr = ''series''\<rparr>),
        (''author'', \<lparr>d_name = ''author'', d_table = ''reading_items'', d_expr = ''authors''\<rparr>),
        (''genre'', \<lparr>d_name = ''genre'', d_table = ''reading_items'', d_expr = ''genres->>0''\<rparr>),
        (''list'', \<lparr>d_name = ''list'', d_table = ''reading_items'', d_expr = ''hardcover_lists->>0''\<rparr>),
        (''isMatched'', \<lparr>d_name = ''isMatched'', d_table = ''reading_items'', d_expr = ''case when hardcover_book_id is not null then '' @ qt @ ''matched'' @ qt @ '' else '' @ qt @ ''unmatched'' @ qt @ '' end''\<rparr>),
        (''syncState'', \<lparr>d_name = ''syncState'', d_table = ''reading_items'', d_expr = ''case when hardcover_book_id is null then '' @ qt @ ''unmatched'' @ qt @ '' when hardcover_status is not null and hardcover_status is distinct from COALESCE(status_override, status) then '' @ qt @ ''diverged'' @ qt @ '' else '' @ qt @ ''synced'' @ qt @ '' end''\<rparr>),
        (''title'', \<lparr>d_name = ''title'', d_table = ''reading_items'', d_expr = ''title''\<rparr>),
        (''liberationStatus'', \<lparr>d_name = ''liberationStatus'', d_table = ''reading_items'', d_expr = ''COALESCE(liberation_status, '' @ qt @ ''none'' @ qt @ '')''\<rparr>)],
     dom_rows = Some \<lparr>rs_table = ''reading_items'', rs_ownerCol = ''owner'', rs_dateCol = ''finished_at'', rs_columns =
       [\<lparr>rc_name = ''source'', rc_expr = ''source''\<rparr>,
        \<lparr>rc_name = ''externalId'', rc_expr = ''external_id''\<rparr>,
        \<lparr>rc_name = ''title'', rc_expr = ''title''\<rparr>,
        \<lparr>rc_name = ''subtitle'', rc_expr = ''subtitle''\<rparr>,
        \<lparr>rc_name = ''authors'', rc_expr = ''authors''\<rparr>,
        \<lparr>rc_name = ''narrators'', rc_expr = ''narrators''\<rparr>,
        \<lparr>rc_name = ''series'', rc_expr = ''series''\<rparr>,
        \<lparr>rc_name = ''status'', rc_expr = ''COALESCE(status_override, status)''\<rparr>,
        \<lparr>rc_name = ''statusDerived'', rc_expr = ''status''\<rparr>,
        \<lparr>rc_name = ''statusOverride'', rc_expr = ''status_override''\<rparr>,
        \<lparr>rc_name = ''statusIsOverride'', rc_expr = ''(status_override IS NOT NULL)''\<rparr>,
        \<lparr>rc_name = ''finished'', rc_expr = ''finished''\<rparr>,
        \<lparr>rc_name = ''progressPercent'', rc_expr = ''progress_percent''\<rparr>,
        \<lparr>rc_name = ''finishedAt'', rc_expr = ''COALESCE(finished_at_override, finished_at)''\<rparr>,
        \<lparr>rc_name = ''finishedAtOverride'', rc_expr = ''finished_at_override''\<rparr>,
        \<lparr>rc_name = ''rating'', rc_expr = ''COALESCE(rating_override, rating)''\<rparr>,
        \<lparr>rc_name = ''ratingOverride'', rc_expr = ''rating_override''\<rparr>,
        \<lparr>rc_name = ''goodreadsRating'', rc_expr = ''goodreads_rating''\<rparr>,
        \<lparr>rc_name = ''coverUrl'', rc_expr = ''cover_url''\<rparr>,
        \<lparr>rc_name = ''runtimeMin'', rc_expr = ''runtime_min''\<rparr>,
        \<lparr>rc_name = ''isbn'', rc_expr = ''isbn''\<rparr>,
        \<lparr>rc_name = ''amazonAsin'', rc_expr = ''amazon_asin''\<rparr>,
        \<lparr>rc_name = ''hardcoverBookId'', rc_expr = ''hardcover_book_id''\<rparr>,
        \<lparr>rc_name = ''hardcoverStatus'', rc_expr = ''hardcover_status''\<rparr>,
        \<lparr>rc_name = ''hardcoverSlug'', rc_expr = ''hardcover_slug''\<rparr>,
        \<lparr>rc_name = ''hardcoverLists'', rc_expr = ''hardcover_lists''\<rparr>,
        \<lparr>rc_name = ''syncedAt'', rc_expr = ''synced_at''\<rparr>,
        \<lparr>rc_name = ''liberationStatus'', rc_expr = ''COALESCE(liberation_status, '' @ qt @ ''none'' @ qt @ '')''\<rparr>,
        \<lparr>rc_name = ''liberationError'', rc_expr = ''liberation_error''\<rparr>,
        \<lparr>rc_name = ''liberatedAt'', rc_expr = ''liberated_at''\<rparr>,
        \<lparr>rc_name = ''audioPath'', rc_expr = ''audio_path''\<rparr>,
        \<lparr>rc_name = ''audioBytes'', rc_expr = ''audio_bytes''\<rparr>,
        \<lparr>rc_name = ''contentFormat'', rc_expr = ''content_format''\<rparr>],
       rs_defaultSort = ''finished_at DESC NULLS LAST''\<rparr>\<rparr>"

definition registerReadingEvents :: domain where
  "registerReadingEvents = \<lparr>dom_name = ''readingEvents'',
     dom_measures =
       [(''reads'', \<lparr>m_name = ''reads'', m_table = ''reading_events_enriched'', m_expr = ''count(*)'',
          m_dateCol = ''finished_at'', m_ownerCol = ''owner'',
          m_dims = [''origin'', ''source'', ''series'', ''author'', ''genre'', ''status'', ''title'']\<rparr>)],
     dom_dimensions = 
       [(''origin'', \<lparr>d_name = ''origin'', d_table = ''reading_events_enriched'', d_expr = ''origin''\<rparr>),
        (''source'', \<lparr>d_name = ''source'', d_table = ''reading_events_enriched'', d_expr = ''source''\<rparr>),
        (''series'', \<lparr>d_name = ''series'', d_table = ''reading_events_enriched'', d_expr = ''series''\<rparr>),
        (''author'', \<lparr>d_name = ''author'', d_table = ''reading_events_enriched'', d_expr = ''authors''\<rparr>),
        (''genre'', \<lparr>d_name = ''genre'', d_table = ''reading_events_enriched'', d_expr = ''genres->>0''\<rparr>),
        (''status'', \<lparr>d_name = ''status'', d_table = ''reading_events_enriched'', d_expr = ''COALESCE(status_override, status)''\<rparr>),
        (''title'', \<lparr>d_name = ''title'', d_table = ''reading_events_enriched'', d_expr = ''title''\<rparr>)],
     dom_rows = Some \<lparr>rs_table = ''reading_events_enriched'', rs_ownerCol = ''owner'', rs_dateCol = ''finished_at'', rs_columns =
       [\<lparr>rc_name = ''origin'', rc_expr = ''origin''\<rparr>,
        \<lparr>rc_name = ''source'', rc_expr = ''source''\<rparr>,
        \<lparr>rc_name = ''externalId'', rc_expr = ''external_id''\<rparr>,
        \<lparr>rc_name = ''hardcoverBookId'', rc_expr = ''hardcover_book_id''\<rparr>,
        \<lparr>rc_name = ''title'', rc_expr = ''title''\<rparr>,
        \<lparr>rc_name = ''authors'', rc_expr = ''authors''\<rparr>,
        \<lparr>rc_name = ''series'', rc_expr = ''series''\<rparr>,
        \<lparr>rc_name = ''status'', rc_expr = ''status_effective''\<rparr>,
        \<lparr>rc_name = ''startedAt'', rc_expr = ''started_at''\<rparr>,
        \<lparr>rc_name = ''finishedAt'', rc_expr = ''finished_at''\<rparr>,
        \<lparr>rc_name = ''progressPages'', rc_expr = ''progress_pages''\<rparr>,
        \<lparr>rc_name = ''progressSeconds'', rc_expr = ''progress_seconds''\<rparr>],
       rs_defaultSort = ''finished_at DESC NULLS LAST''\<rparr>\<rparr>"

definition registerAnnotations :: domain where
  "registerAnnotations = \<lparr>dom_name = ''annotations'',
     dom_measures =
       [(''captures'', \<lparr>m_name = ''captures'', m_table = ''book_annotations_enriched'', m_expr = ''count(*)'',
          m_dateCol = ''captured_at'', m_ownerCol = ''owner'',
          m_dims = [''kind'', ''source'', ''series'', ''author'', ''genre'', ''status'', ''title'']\<rparr>)],
     dom_dimensions = 
       [(''kind'', \<lparr>d_name = ''kind'', d_table = ''book_annotations_enriched'', d_expr = ''kind''\<rparr>),
        (''source'', \<lparr>d_name = ''source'', d_table = ''book_annotations_enriched'', d_expr = ''source''\<rparr>),
        (''series'', \<lparr>d_name = ''series'', d_table = ''book_annotations_enriched'', d_expr = ''series''\<rparr>),
        (''author'', \<lparr>d_name = ''author'', d_table = ''book_annotations_enriched'', d_expr = ''authors''\<rparr>),
        (''genre'', \<lparr>d_name = ''genre'', d_table = ''book_annotations_enriched'', d_expr = ''genres->>0''\<rparr>),
        (''status'', \<lparr>d_name = ''status'', d_table = ''book_annotations_enriched'', d_expr = ''COALESCE(status_override, status)''\<rparr>),
        (''title'', \<lparr>d_name = ''title'', d_table = ''book_annotations_enriched'', d_expr = ''title''\<rparr>)],
     dom_rows = Some \<lparr>rs_table = ''book_annotations_enriched'', rs_ownerCol = ''owner'', rs_dateCol = ''captured_at'', rs_columns =
       [\<lparr>rc_name = ''source'', rc_expr = ''source''\<rparr>,
        \<lparr>rc_name = ''externalId'', rc_expr = ''external_id''\<rparr>,
        \<lparr>rc_name = ''kind'', rc_expr = ''kind''\<rparr>,
        \<lparr>rc_name = ''title'', rc_expr = ''title''\<rparr>,
        \<lparr>rc_name = ''authors'', rc_expr = ''authors''\<rparr>,
        \<lparr>rc_name = ''series'', rc_expr = ''series''\<rparr>,
        \<lparr>rc_name = ''status'', rc_expr = ''status_effective''\<rparr>,
        \<lparr>rc_name = ''positionUnit'', rc_expr = ''position_unit''\<rparr>,
        \<lparr>rc_name = ''positionStart'', rc_expr = ''position_start''\<rparr>,
        \<lparr>rc_name = ''positionEnd'', rc_expr = ''position_end''\<rparr>,
        \<lparr>rc_name = ''body'', rc_expr = ''body''\<rparr>,
        \<lparr>rc_name = ''note'', rc_expr = ''note''\<rparr>,
        \<lparr>rc_name = ''transcript'', rc_expr = ''transcript''\<rparr>,
        \<lparr>rc_name = ''transcriptSource'', rc_expr = ''transcript_source''\<rparr>,
        \<lparr>rc_name = ''capturedAt'', rc_expr = ''captured_at''\<rparr>],
       rs_defaultSort = ''captured_at DESC NULLS LAST''\<rparr>\<rparr>"

fun register_all :: "domains \<Rightarrow> domain list \<Rightarrow> domains option" where
  "register_all reg [] = Some reg"
| "register_all reg (d # ds) =
     (case RegisterDomain reg d of None \<Rightarrow> None | Some reg' \<Rightarrow> register_all reg' ds)"

definition builtin :: "domains option" where
  "builtin = register_all [] [registerCoding, registerReading, registerReadingEvents, registerAnnotations]"

section \<open>Coherence\<close>

text \<open>
  A domain is coherent when every whitelist names registered dimensions, the keys agree with the
  names, and the dimensions that leaf rows may filter on are registered.
\<close>

definition measure_ok :: "domain \<Rightarrow> string \<times> measure \<Rightarrow> bool" where
  "measure_ok dmn p \<longleftrightarrow> m_name (snd p) = fst p \<and>
     list_all (\<lambda>d. aget (dom_dimensions dmn) d \<noteq> None) (m_dims (snd p))"

definition coherent :: "domain \<Rightarrow> bool" where
  "coherent dmn \<longleftrightarrow> dom_measures dmn \<noteq> [] \<and> list_all (measure_ok dmn) (dom_measures dmn) \<and>
     list_all (\<lambda>(k, d). d_name d = k) (dom_dimensions dmn) \<and>
     (case dom_rows dmn of None \<Rightarrow> True
      | Some rs \<Rightarrow> rs_columns rs \<noteq> [] \<and> distinct (map rc_name (rs_columns rs)) \<and>
          list_ex (\<lambda>(n, m). m_table m = rs_table rs \<and> m_ownerCol m = rs_ownerCol rs \<and>
            m_dateCol m = rs_dateCol rs) (dom_measures dmn))"

end
