(* ===== verification/QueryCompile.thy ===== *)
theory QueryCompile
  imports QueryDomains
begin

text \<open>
  The compiler of internal/shared/query/compile.go. The SQL text is built as a list of tokens, so
  that the origin of every piece of it is visible: text of the compiler itself, trusted text of
  the registry, a numbered placeholder, a bracket, a connective. \<open>render\<close> gives the string the code
  builds. The connectives and the brackets around fragments are tokens of their own; brackets
  inside compiler text are balanced within one token.
\<close>

datatype tok = TTxt string | TReg string | THole nat | TLP | TRP | TAnd | TOr

datatype sql_arg = AStr string | ATime gotime | AFloat float64

fun render_tok :: "tok \<Rightarrow> string" where
  "render_tok (TTxt s) = s"
| "render_tok (TReg s) = s"
| "render_tok (THole n) = ''$'' @ itoa (int n)"
| "render_tok TLP = ''(''"
| "render_tok TRP = '')''"
| "render_tok TAnd = '' AND ''"
| "render_tok TOr = '' OR ''"

definition render :: "tok list \<Rightarrow> string" where
  "render ts = concat (map render_tok ts)"

section \<open>Time windows\<close>

definition anchor :: "gotime \<Rightarrow> query \<Rightarrow> gotime" where
  "anchor clock q = (if time_is_zero (q_now q) then clock else q_now q)"

definition weekStart :: "gotime \<Rightarrow> gotime" where
  "weekStart t =
     (let d = Date (year_of t) (month_of t) (day_of t);
          wd = (Weekday d + 6) mod 7
      in AddDate d 0 0 (- wd))"

definition resolveRange :: "gotime \<Rightarrow> string \<Rightarrow> range \<Rightarrow> (gotime \<times> gotime) option" where
  "resolveRange now gran r =
     (if range_isZero r then None
      else if \<not> time_is_zero (r_start r) \<or> \<not> time_is_zero (r_end r) then Some (r_start r, r_end r)
      else
        (let e = Date (year_of now) (month_of now) (day_of now);
             n = (if r_lastN r < 1 then 1 else r_lastN r);
             s = (if gran = ''week'' then weekStart (AddDate e 0 0 (- 7 * (n - 1)))
                  else if gran = ''month'' then AddDate (Date (year_of e) (month_of e) 1) 0 (- (n - 1)) 0
                  else AddDate e 0 0 (- (n - 1)))
         in Some (s, e)))"

definition endExclusive :: "gotime \<Rightarrow> gotime" where
  "endExclusive e = AddDate (Date (year_of e) (month_of e) (day_of e)) 0 0 1"

section \<open>Predicates\<close>

definition bslash :: char where
  "bslash = CHR 0x5c"

fun escapeLikeLiteral :: "string \<Rightarrow> string" where
  "escapeLikeLiteral [] = []"
| "escapeLikeLiteral (c # cs) =
     (if c = bslash then [bslash, bslash] else if c = CHR ''%'' then [bslash, CHR ''%'']
      else if c = CHR ''_'' then [bslash, CHR ''_''] else [c]) @ escapeLikeLiteral cs"

definition text_cast :: "dimension \<Rightarrow> tok list" where
  "text_cast d = [TLP, TReg (d_expr d), TRP, TTxt ''::text'']"

definition lower_col :: "dimension \<Rightarrow> tok list" where
  "lower_col d = [TTxt ''lower'', TLP] @ text_cast d @ [TRP]"

definition lower_hole :: "nat \<Rightarrow> tok list" where
  "lower_hole n = [TTxt ''lower'', TLP, THole n, TRP]"

definition ilike_frag :: "dimension \<Rightarrow> nat \<Rightarrow> tok list" where
  "ilike_frag d n =
     text_cast d @ [TTxt '' ILIKE '', TLP, TTxt (qt @ ''%'' @ qt @ '' || ''), THole n,
       TTxt ('' || '' @ qt @ ''%'' @ qt), TRP]"

fun in_loop :: "string list \<Rightarrow> sql_arg list \<Rightarrow> nat \<Rightarrow> tok list list \<times> sql_arg list \<times> nat" where
  "in_loop [] args nxt = ([], args, nxt)"
| "in_loop (v # vs) args nxt =
     (case in_loop vs (args @ [AStr v]) (nxt + 1) of (ph, a, n) \<Rightarrow> (lower_hole nxt # ph, a, n))"

fun ilike_loop :: "dimension \<Rightarrow> string list \<Rightarrow> sql_arg list \<Rightarrow> nat \<Rightarrow> tok list list \<times> sql_arg list \<times> nat" where
  "ilike_loop d [] args nxt = ([], args, nxt)"
| "ilike_loop d (v # vs) args nxt =
     (case ilike_loop d vs (args @ [AStr (escapeLikeLiteral v)]) (nxt + 1) of
        (ph, a, n) \<Rightarrow> (ilike_frag d nxt # ph, a, n))"

definition buildLeaf ::
    "predicate \<Rightarrow> measure \<Rightarrow> domain \<Rightarrow> sql_arg list \<Rightarrow> nat \<Rightarrow> qerror + (tok list \<times> sql_arg list \<times> nat)" where
  "buildLeaf p m dmn args nxt =
     (case aget (dom_dimensions dmn) (pr_dim p) of
        None \<Rightarrow> Inl (UnknownDimension (pr_dim p) (dom_name dmn))
      | Some d \<Rightarrow>
          if \<not> supportsDim m (pr_dim p) then Inl (UnsupportedFilter (m_name m) (pr_dim p))
          else (case pr_values p of
              [] \<Rightarrow> Inl (NoValues (pr_dim p))
            | v # vs \<Rightarrow>
                if pr_op p = ''eq''
                then Inr (lower_col d @ [TTxt '' = ''] @ lower_hole nxt, args @ [AStr v], nxt + 1)
                else if pr_op p = ''neq''
                then Inr (lower_col d @ [TTxt '' <> ''] @ lower_hole nxt, args @ [AStr v], nxt + 1)
                else if pr_op p = ''in''
                then (case in_loop (v # vs) args nxt of
                    (ph, a, n) \<Rightarrow> Inr (lower_col d @ [TTxt '' IN '', TLP] @ join [TTxt '', ''] ph @ [TRP], a, n))
                else if pr_op p = ''ilike''
                then (case ilike_loop d (v # vs) args nxt of
                    (ph, a, n) \<Rightarrow>
                      Inr (if vs = [] then hd ph else [TLP] @ join [TOr] ph @ [TRP], a, n))
                else Inl (UnknownOp (pr_op p))))"

fun buildPredicate ::
    "predicate \<Rightarrow> measure \<Rightarrow> domain \<Rightarrow> sql_arg list \<Rightarrow> nat \<Rightarrow> qerror + (tok list \<times> sql_arg list \<times> nat)"
and buildAll ::
    "predicate option list \<Rightarrow> measure \<Rightarrow> domain \<Rightarrow> sql_arg list \<Rightarrow> nat \<Rightarrow>
     qerror + (tok list list \<times> sql_arg list \<times> nat)" where
  "buildPredicate (Predicate k dm op vs ps) m dmn args nxt =
     (if k = ''leaf'' then buildLeaf (Predicate k dm op vs ps) m dmn args nxt
      else if k = ''and'' \<or> k = ''or''
      then (if ps = [] then Inl (NoChildren k)
            else rbind (buildAll ps m dmn args nxt)
              (\<lambda>(frags, a, n). Inr ([TLP] @ join [if k = ''or'' then TOr else TAnd] frags @ [TRP], a, n)))
      else if k = ''not''
      then (case ps of
              [None] \<Rightarrow> Inl NilPanic
            | [Some c] \<Rightarrow> rbind (buildPredicate c m dmn args nxt)
                (\<lambda>(f, a, n). Inr ([TTxt ''NOT '', TLP] @ f @ [TRP], a, n))
            | _ \<Rightarrow> Inl (NotArity (length ps)))
      else Inl (UnknownKind k))"
| "buildAll [] m dmn args nxt = Inr ([], args, nxt)"
| "buildAll (None # ps) m dmn args nxt = Inl NilPanic"
| "buildAll (Some c # ps) m dmn args nxt =
     rbind (buildPredicate c m dmn args nxt)
       (\<lambda>(f, a, n). rbind (buildAll ps m dmn a n) (\<lambda>(fs, a', n'). Inr (f # fs, a', n')))"

declare buildPredicate.simps [simp del] buildAll.simps [simp del]

section \<open>The aggregate compiler\<close>

definition havingOps :: "(string \<times> string) list" where
  "havingOps = [(''>='', ''>=''), (''<='', ''<=''), (''>'', ''>''), (''<'', ''<''), (''=='', ''=''), (''!='', ''<>'')]"

definition sort_dir :: "bool \<Rightarrow> string" where
  "sort_dir desc = (if desc then ''DESC'' else ''ASC'')"

definition orderBy :: "query \<Rightarrow> bool \<Rightarrow> bool \<Rightarrow> qerror + string" where
  "orderBy q grouped series =
     (if q_sortSet q
      then (if q_sortField q = ''measure'' \<or> q_sortField q = ''value'' then Inr (''value '' @ sort_dir (q_sortDesc q))
            else if q_sortField q = ''bucket''
            then (if \<not> series then Inl SortBucketNeedsSeries else Inr (''bucket '' @ sort_dir (q_sortDesc q)))
            else if q_sortField q = ''key'' \<or> q_sortField q = q_group q
            then (if \<not> grouped then Inl SortKeyNeedsGroup else Inr (''key '' @ sort_dir (q_sortDesc q)))
            else Inl (UnknownSort (q_sortField q)))
      else if grouped then Inr ''value DESC''
      else if series then Inr ''bucket ASC''
      else Inr [])"

definition nl :: string where
  "nl = [CHR 0x0a]"

text \<open>\<open>COALESCE(expr, 0)::double precision\<close>.\<close>

definition coalesced :: "string \<Rightarrow> tok list" where
  "coalesced e = [TTxt ''COALESCE'', TLP, TReg e, TTxt '', 0'', TRP, TTxt ''::double precision'']"

text \<open>The axis: the extra SELECT column and the GROUP BY expression.\<close>

definition select_axis :: "query \<Rightarrow> domain \<Rightarrow> measure \<Rightarrow> qerror + (tok list list \<times> tok list)" where
  "select_axis q dmn m =
     (if q_group q \<noteq> []
      then (case aget (dom_dimensions dmn) (q_group q) of
              None \<Rightarrow> Inl (UnknownDimension (q_group q) (q_domain q))
            | Some gd \<Rightarrow>
                if \<not> supportsDim m (q_group q) then Inl (UnsupportedGroup (q_measure q) (q_group q))
                else Inr ([text_cast gd @ [TTxt '' AS key'']], text_cast gd))
      else if q_gran q \<noteq> ''none''
      then (case trunc (q_gran q) of
              None \<Rightarrow> Inl (UnknownGranularity (q_gran q))
            | Some field \<Rightarrow>
                (let b = [TTxt ''date_trunc'', TLP, TTxt (qt @ field @ qt @ '', ''), TReg (m_dateCol m), TRP]
                 in Inr ([b @ [TTxt '' AS bucket'']], b)))
      else Inr ([], []))"

fun rollup_cols :: "query \<Rightarrow> domain \<Rightarrow> measure \<Rightarrow> string list \<Rightarrow> qerror + tok list list" where
  "rollup_cols q dmn m [] = Inr []"
| "rollup_cols q dmn m (name # ns) =
     (case aget (dom_measures dmn) name of
        None \<Rightarrow> Inl (UnknownRollup name (q_domain q))
      | Some rm \<Rightarrow>
          if m_table rm \<noteq> m_table m \<or> m_ownerCol rm \<noteq> m_ownerCol m \<or> m_dateCol rm \<noteq> m_dateCol m
          then Inl (RollupOtherTable name (q_measure q))
          else rbind (rollup_cols q dmn m ns)
            (\<lambda>cs. Inr ((coalesced (m_expr rm) @ [TTxt '' AS r_'', TReg name]) # cs)))"

definition select_rollups :: "query \<Rightarrow> domain \<Rightarrow> measure \<Rightarrow> qerror + tok list list" where
  "select_rollups q dmn m =
     (if q_rollups q = [] then Inr []
      else if q_group q = [] then Inl RollupsNeedGroup
      else rbind (rollup_cols q dmn m (q_rollups q)) (\<lambda>cs. Inr ([TTxt ''count(*) AS count''] # cs)))"

text \<open>The conjuncts of WHERE: the owner, the window and the predicate, with their arguments.\<close>

definition where_pred ::
    "predicate option \<Rightarrow> measure \<Rightarrow> domain \<Rightarrow> tok list list \<Rightarrow> sql_arg list \<Rightarrow> nat \<Rightarrow>
     qerror + (tok list list \<times> sql_arg list \<times> nat)" where
  "where_pred p m dmn w1 a1 n1 =
     (case p of None \<Rightarrow> Inr (w1, a1, n1)
      | Some p \<Rightarrow> rbind (buildPredicate p m dmn a1 n1)
          (\<lambda>(frag, a2, n2). Inr (if frag = [] then w1 else w1 @ [frag], a2, n2)))"

definition where_clause ::
    "gotime \<Rightarrow> string \<Rightarrow> query \<Rightarrow> domain \<Rightarrow> measure \<Rightarrow> qerror + (tok list list \<times> sql_arg list \<times> nat)" where
  "where_clause clock owner q dmn m =
     (let w0 = [[TReg (m_ownerCol m), TTxt '' = '', THole 1]]; a0 = [AStr owner]; n0 = 2;
          (w1, a1, n1) =
            (if range_isZero (q_rng q) then (w0, a0, n0)
             else (case resolveRange (anchor clock q) (q_gran q) (q_rng q) of
                None \<Rightarrow> (w0, a0, n0)
              | Some (s, e) \<Rightarrow>
                  (w0 @ [[TReg (m_dateCol m), TTxt '' >= '', THole n0, TAnd, TReg (m_dateCol m), TTxt '' < '', THole (n0 + 1)]],
                   a0 @ [ATime s, ATime (endExclusive e)], n0 + 2)))
      in where_pred (q_where q) m dmn w1 a1 n1)"

definition having_clause ::
    "query \<Rightarrow> measure \<Rightarrow> tok list \<Rightarrow> sql_arg list \<Rightarrow> nat \<Rightarrow> qerror + (tok list \<times> sql_arg list)" where
  "having_clause q m groupBy args nxt =
     (case q_having q of
        None \<Rightarrow> Inr ([], args)
      | Some h \<Rightarrow>
          (case aget havingOps (h_op h) of
             None \<Rightarrow> Inl (UnknownHavingOp (h_op h))
           | Some op \<Rightarrow>
               if groupBy = [] then Inl HavingNeedsGroup
               else Inr ([TTxt (nl @ ''HAVING '')] @ coalesced (m_expr m) @ [TTxt ('' '' @ op @ '' ''), THole nxt],
                         args @ [AFloat (h_value h)])))"

definition assemble :: "tok list list \<Rightarrow> string \<Rightarrow> tok list list \<Rightarrow> tok list" where
  "assemble cols table conjs =
     [TTxt ''SELECT ''] @ join [TTxt '', ''] cols @ [TTxt (nl @ ''FROM ''), TReg table, TTxt (nl @ ''WHERE '')] @
     join [TAnd] conjs"

definition statement ::
    "query \<Rightarrow> measure \<Rightarrow> tok list list \<Rightarrow> tok list \<Rightarrow> tok list list \<Rightarrow> tok list list \<Rightarrow> tok list \<Rightarrow> string \<Rightarrow>
     tok list" where
  "statement q m axis groupBy rollups conjs having ob =
     assemble (axis @ [coalesced (m_expr m) @ [TTxt '' AS value'']] @ rollups) (m_table m) conjs @
     (if groupBy = [] then [] else TTxt (nl @ ''GROUP BY '') # groupBy) @
     having @
     (if ob = [] then [] else [TTxt (nl @ ''ORDER BY '' @ ob)]) @
     (if q_limit q > 0 \<and> q_bucket q = None then [TTxt (nl @ ''LIMIT '' @ itoa (q_limit q))] else [])"

definition compileAggregate ::
    "gotime \<Rightarrow> string \<Rightarrow> query \<Rightarrow> domain \<Rightarrow> qerror + (tok list \<times> sql_arg list)" where
  "compileAggregate clock owner q dmn =
     (if q_measure q = [] then Inl NoMeasure
      else (case aget (dom_measures dmn) (q_measure q) of
          None \<Rightarrow> Inl (UnknownMeasure (q_measure q) (q_domain q))
        | Some m \<Rightarrow>
            (let grouped = (q_group q \<noteq> []); series = (q_gran q \<noteq> ''none'') in
             if grouped \<and> series then Inl (GroupWithGranularity (q_group q))
             else if q_bucket q \<noteq> None \<and> \<not> grouped then Inl BucketNeedsGroup
             else
               rbind (select_axis q dmn m) (\<lambda>(axis, groupBy).
               rbind (select_rollups q dmn m) (\<lambda>rollups.
               rbind (where_clause clock owner q dmn m) (\<lambda>(conjs, a1, n1).
               rbind (having_clause q m groupBy a1 n1) (\<lambda>(having, a2).
               rbind (orderBy q grouped series) (\<lambda>ob.
                 Inr (statement q m axis groupBy rollups conjs having ob, a2)))))))))"

section \<open>Rows mode\<close>

definition page_window :: "query \<Rightarrow> int \<times> int" where
  "page_window q =
     (let size' = (if q_pageSize q \<le> 0 then 50 else q_pageSize q);
          page = (if q_page q < 1 then 1 else q_page q)
      in (size', int64 ((page - 1) * size')))"

definition compileRowsSQL ::
    "gotime \<Rightarrow> string \<Rightarrow> query \<Rightarrow> domain \<Rightarrow> qerror + (tok list \<times> tok list \<times> sql_arg list)" where
  "compileRowsSQL clock owner q dmn =
     (if owner = [] then Inl EmptyOwner
      else (case (dom_rows dmn, rowsMeasure dmn) of
          (Some rs, Some rm) \<Rightarrow>
            if q_group q \<noteq> [] then Inl RowsWithGroup
            else if q_gran q \<noteq> ''none'' then Inl RowsWithGranularity
            else if q_sortSet q then Inl RowsWithSort
            else if q_limit q > 0 then Inl RowsWithLimit
            else if q_having q \<noteq> None then Inl RowsWithHaving
            else if q_bucket q \<noteq> None then Inl RowsWithBucket
            else if q_rollups q \<noteq> [] then Inl RowsWithRollups
            else if rs_columns rs = [] then Inl (NoColumns (q_domain q))
            else
              (let cols = map (\<lambda>c. [TReg (rc_expr c), TTxt '' AS '', TReg (CHR 0x22 # rc_name c @ [CHR 0x22])]) (rs_columns rs);
                   (size', offset) = page_window q;
                   order = (if rs_defaultSort rs = [] then [] else [TTxt (nl @ ''ORDER BY ''), TReg (rs_defaultSort rs)])
               in rbind (where_clause clock owner q dmn rm) (\<lambda>(conjs, a, n).
                    Inr (assemble cols (rs_table rs) conjs @ order @
                           [TTxt (nl @ ''LIMIT '' @ itoa size' @ '' OFFSET '' @ itoa offset)],
                         assemble [[TTxt ''count(*)'']] (rs_table rs) conjs,
                         a)))
        | _ \<Rightarrow> Inl (NoRowListing (q_domain q))))"

definition Compile :: "domains \<Rightarrow> gotime \<Rightarrow> string \<Rightarrow> query \<Rightarrow> qerror + (tok list \<times> sql_arg list)" where
  "Compile reg clock owner q =
     (if owner = [] then Inl EmptyOwner
      else (case lookupDomain reg (q_domain q) of
          None \<Rightarrow> Inl (UnknownDomain (q_domain q))
        | Some dmn \<Rightarrow>
            (case range_validate (q_rng q) of
               Some e \<Rightarrow> Inl e
             | None \<Rightarrow>
                 if q_rowsMode q
                 then rbind (compileRowsSQL clock owner q dmn) (\<lambda>(page, count, args). Inr (page, args))
                 else compileAggregate clock owner q dmn)))"

end
