(* ===== verification/QueryRun.thy ===== *)
theory QueryRun
  imports QueryCompile
begin

text \<open>
  Running a compiled query (Run and applyBucketPolicy of internal/shared/query/compile.go) and the
  HTTP surface over it (internal/shared/queryapi: spec.go and the pure parts of handler.go). The
  database is an argument: for each query shape, the rows or the error it answers with.
\<close>

section \<open>Results\<close>

type_synonym stats = "(string \<times> float64) list"

record point =
  pt_bucket :: gotime
  pt_value :: float64

record group =
  g_key :: string
  g_value :: float64
  g_stats :: "stats option"

datatype 'r result =
    ResultScalar float64
  | ResultSeries "point list"
  | ResultGroups "group list"
  | ResultRows "'r list" int

text \<open>A grouped row as scanned: a nullable key, the value, the count and the rollup values.\<close>

record group_row =
  gr_key :: "string option"
  gr_value :: float64
  gr_count :: int
  gr_vals :: "float64 list"

record 'r querier =
  db_groups :: "string \<Rightarrow> sql_arg list \<Rightarrow> string + group_row list"
  db_series :: "string \<Rightarrow> sql_arg list \<Rightarrow> string + (gotime \<times> float64) list"
  db_scalar :: "string \<Rightarrow> sql_arg list \<Rightarrow> string + float64"
  db_rows :: "string \<Rightarrow> sql_arg list \<Rightarrow> string + 'r list"
  db_count :: "string \<Rightarrow> sql_arg list \<Rightarrow> string + int"

section \<open>The bucket policy\<close>

fun add_stats :: "stats \<Rightarrow> stats option \<Rightarrow> stats option" where
  "add_stats [] other = other"
| "add_stats ((k, v) # kvs) other =
     (let m = (case other of None \<Rightarrow> [] | Some m \<Rightarrow> m);
          old = (case aget m k of None \<Rightarrow> 0 | Some x \<Rightarrow> x)
      in add_stats kvs (Some (aput m k (old + v))))"

text \<open>
  The loop of applyBucketPolicy: the groups kept so far, the rolled-up value and stats, and how
  many groups that are not pinned were kept.
\<close>

fun bucket_loop ::
    "string set \<Rightarrow> int \<Rightarrow> group list \<Rightarrow> group list \<Rightarrow> float64 \<Rightarrow> stats option \<Rightarrow> int \<Rightarrow>
     group list \<times> float64 \<times> stats option" where
  "bucket_loop pinned topN [] kept other ostats n = (kept, other, ostats)"
| "bucket_loop pinned topN (g # gs) kept other ostats n =
     (if to_lower (g_key g) \<in> pinned then bucket_loop pinned topN gs (kept @ [g]) other ostats n
      else if topN \<le> 0 \<or> n < topN then bucket_loop pinned topN gs (kept @ [g]) other ostats (n + 1)
      else bucket_loop pinned topN gs kept (other + g_value g)
             (case g_stats g of None \<Rightarrow> ostats | Some st \<Rightarrow> add_stats st ostats) n)"

definition applyBucketPolicy :: "group list \<Rightarrow> bucketPolicy \<Rightarrow> group list" where
  "applyBucketPolicy groups p =
     (let pinned = set (map to_lower (bp_pin p)) in
      case bucket_loop pinned (bp_topN p) groups [] 0 None 0 of
        (kept, other, ostats) \<Rightarrow>
          slice_stable (\<lambda>a b. g_value b < g_value a) kept @
          (if bp_other p \<and> (other > 0 \<or> ostats \<noteq> None)
           then [\<lparr>g_key = ''Other'', g_value = other, g_stats = ostats\<rparr>] else []))"

section \<open>Run\<close>

datatype run_error = CompileError qerror | DbError string

fun from_db :: "string + 'a \<Rightarrow> run_error + 'a" where
  "from_db (Inl e) = Inl (DbError e)"
| "from_db (Inr x) = Inr x"

fun from_compile :: "qerror + 'a \<Rightarrow> run_error + 'a" where
  "from_compile (Inl e) = Inl (CompileError e)"
| "from_compile (Inr x) = Inr x"

definition scan_group :: "string list \<Rightarrow> group_row \<Rightarrow> group" where
  "scan_group rollups r =
     \<lparr>g_key = (case gr_key r of None \<Rightarrow> [] | Some k \<Rightarrow> k), g_value = gr_value r,
      g_stats = (if rollups = [] then None
                 else Some (fold (\<lambda>(n, v) m. aput m n v) (zip rollups (gr_vals r)) [(''count'', of_int (gr_count r))]))\<rparr>"

definition Run :: "'r querier \<Rightarrow> domains \<Rightarrow> gotime \<Rightarrow> string \<Rightarrow> query \<Rightarrow> run_error + 'r result" where
  "Run db reg clock owner q =
     (if q_rowsMode q
      then (case lookupDomain reg (q_domain q) of
          None \<Rightarrow> Inl (CompileError (UnknownDomain (q_domain q)))
        | Some dmn \<Rightarrow>
            rbind (from_compile (compileRowsSQL clock owner q dmn)) (\<lambda>(page, count, args).
            rbind (from_db (db_rows db (render page) args)) (\<lambda>out.
            rbind (from_db (db_count db (render count) args)) (\<lambda>total.
              Inr (ResultRows out total)))))
      else
        rbind (from_compile (Compile reg clock owner q)) (\<lambda>(sql, args).
          if q_group q \<noteq> []
          then rbind (from_db (db_groups db (render sql) args)) (\<lambda>rs.
            (let gs = map (scan_group (q_rollups q)) rs in
             Inr (ResultGroups
               (case q_bucket q of None \<Rightarrow> gs
                | Some p \<Rightarrow>
                    (let gs' = applyBucketPolicy gs p
                     in if q_limit q > 0 \<and> int (length gs') > q_limit q then take (nat (q_limit q)) gs' else gs')))))
          else if q_gran q \<noteq> ''none''
          then rbind (from_db (db_series db (render sql) args)) (\<lambda>rs.
            Inr (ResultSeries (map (\<lambda>(t, v). \<lparr>pt_bucket = t, pt_value = v\<rparr>) rs)))
          else rbind (from_db (db_scalar db (render sql) args)) (\<lambda>v. Inr (ResultScalar v))))"

section \<open>The request\<close>

datatype predicateNode =
  PredicateNode (pn_kind: string) (pn_dim: string) (pn_op: string) (pn_values: "string list")
    (pn_of: "predicateNode option list")

record rangeSpec =
  rg_lastN :: "int option"
  rg_between :: "(gotime \<times> gotime) option"

record overSpec =
  ov_granularity :: string
  ov_range :: "rangeSpec option"

record spec =
  sp_domain :: string
  sp_measure :: string
  sp_where :: "predicateNode option"
  sp_group :: string
  sp_over :: "overSpec option"
  sp_bucket :: "bucketPolicy option"
  sp_having :: "havingCond option"
  sp_sort :: "(string \<times> bool) option"
  sp_limit :: int
  sp_rollups :: "string list"
  sp_rows :: bool
  sp_page :: "(int \<times> int) option"

fun toPredicate :: "predicateNode \<Rightarrow> predicate" where
  "toPredicate (PredicateNode k dm op vs ps) = Predicate k dm op vs (map (map_option toPredicate) ps)"

datatype spec_error = RangeBoth

definition toRange :: "rangeSpec option \<Rightarrow> spec_error + range" where
  "toRange r =
     (case r of None \<Rightarrow> Inr zero_range
      | Some r \<Rightarrow>
          if rg_lastN r \<noteq> None \<and> rg_between r \<noteq> None then Inl RangeBoth
          else (case rg_between r of Some (s, e) \<Rightarrow> Inr (Between s e)
                | None \<Rightarrow> (case rg_lastN r of Some n \<Rightarrow> Inr (LastN n) | None \<Rightarrow> Inr zero_range)))"

text \<open>toQuery in the order of the code: up to the group, the window, and the rest.\<close>

definition start_query :: "spec \<Rightarrow> query" where
  "start_query s =
     (let q0 = Measure (Q (sp_domain s)) (sp_measure s);
          q1 = (case sp_where s of None \<Rightarrow> q0 | Some p \<Rightarrow> Where q0 (Some (toPredicate p)))
      in if sp_group s \<noteq> [] then Group q1 (sp_group s) else q1)"

definition finish_query :: "spec \<Rightarrow> query \<Rightarrow> query" where
  "finish_query s q3 =
     (let q4 = (case sp_bucket s of None \<Rightarrow> q3 | Some b \<Rightarrow> Bucket q3 b);
          q5 = (case sp_having s of None \<Rightarrow> q4 | Some h \<Rightarrow> Having q4 h);
          q6 = (case sp_sort s of None \<Rightarrow> q5 | Some (f, d) \<Rightarrow> Sort q5 f d);
          q7 = (if sp_rollups s \<noteq> [] then Rollups q6 (sp_rollups s) else q6);
          q8 = (if sp_rows s then Rows q7 else q7);
          q9 = (case sp_page s of None \<Rightarrow> q8 | Some (n, z) \<Rightarrow> Page q8 n z)
      in if sp_limit s > 0 then Limit q9 (sp_limit s) else q9)"

definition toQuery :: "spec \<Rightarrow> spec_error + query" where
  "toQuery s =
     rbind (case sp_over s of None \<Rightarrow> Inr (start_query s)
            | Some ov \<Rightarrow> rbind (toRange (ov_range ov))
                (\<lambda>r. Inr (Over (start_query s) (if ov_granularity ov = [] then ''none'' else ov_granularity ov) r)))
       (\<lambda>q3. Inr (finish_query s q3))"

section \<open>The handler\<close>

fun union_ci :: "string set \<Rightarrow> string list \<Rightarrow> string list" where
  "union_ci seen [] = []"
| "union_ci seen (v # vs) =
     (if to_lower v \<in> seen then union_ci seen vs else v # union_ci (insert (to_lower v) seen) vs)"

definition unionCI :: "string list \<Rightarrow> string list \<Rightarrow> string list" where
  "unionCI base add = union_ci {} (base @ add)"

text \<open>\<open>pins\<close> is what LoadPinnedSet answers for the grouped axis.\<close>

definition applyCanonicalPins :: "(string + string list) \<Rightarrow> spec \<Rightarrow> string + spec" where
  "applyCanonicalPins pins s =
     (if sp_group s = [] then Inr s
      else rbind pins (\<lambda>ps.
        if ps = [] then Inr s
        else (case sp_bucket s of
            None \<Rightarrow> Inr (s\<lparr>sp_bucket := Some \<lparr>bp_topN = 0, bp_pin = ps, bp_other = False\<rparr>\<rparr>)
          | Some b \<Rightarrow> Inr (s\<lparr>sp_bucket := Some (b\<lparr>bp_pin := unionCI (bp_pin b) ps\<rparr>)\<rparr>))))"

text \<open>The answers of the endpoint once the caller is known and the body is bound.\<close>

datatype 'r response =
    NotFound | BadSpec spec_error | BadQuery qerror | InternalErr string | Panics | Ok "'r result"

definition books_gated :: "bool \<Rightarrow> spec \<Rightarrow> bool" where
  "books_gated booksEnabled s \<longleftrightarrow> (sp_domain s = ''reading'' \<or> sp_domain s = ''readingEvents'') \<and> \<not> booksEnabled"

definition RunQuery ::
    "'r querier \<Rightarrow> domains \<Rightarrow> gotime \<Rightarrow> bool \<Rightarrow> (string + string list) \<Rightarrow> string \<Rightarrow> spec \<Rightarrow> 'r response" where
  "RunQuery db reg clock booksEnabled pins owner s =
     (if books_gated booksEnabled s then NotFound
      else (case applyCanonicalPins pins s of
          Inl e \<Rightarrow> InternalErr e
        | Inr s1 \<Rightarrow>
            (case toQuery s1 of
               Inl e \<Rightarrow> BadSpec e
             | Inr q \<Rightarrow>
                 (case Compile reg clock owner q of
                    Inl e \<Rightarrow> (if e = NilPanic then Panics else BadQuery e)
                  | Inr _ \<Rightarrow>
                      (case Run db reg clock owner q of
                         Inl (DbError e) \<Rightarrow> InternalErr e
                       | Inl (CompileError e) \<Rightarrow> InternalErr ''compile''
                       | Inr res \<Rightarrow> Ok res)))))"

end
