(* ===== verification/QueryCorrect.thy ===== *)
theory QueryCorrect
  imports QueryRun
begin

text \<open>
  The safety of compiled queries: which placeholders the text has, that it contains registry text
  only, that a user's predicate cannot escape the owner scope, and that no user value influences
  the text.
\<close>

section \<open>Token lists\<close>

fun holes :: "tok list \<Rightarrow> nat list" where
  "holes [] = []"
| "holes (THole n # ts) = n # holes ts"
| "holes (t # ts) = holes ts"

fun regs :: "tok list \<Rightarrow> string set" where
  "regs [] = {}"
| "regs (TReg s # ts) = insert s (regs ts)"
| "regs (t # ts) = regs ts"

text \<open>Brackets balance and no OR stands outside brackets; \<open>k\<close> brackets are open already.\<close>

fun depth_ok :: "nat \<Rightarrow> tok list \<Rightarrow> bool" where
  "depth_ok k [] \<longleftrightarrow> k = 0"
| "depth_ok k (TLP # ts) \<longleftrightarrow> depth_ok (Suc k) ts"
| "depth_ok k (TRP # ts) \<longleftrightarrow> 0 < k \<and> depth_ok (k - 1) ts"
| "depth_ok k (TOr # ts) \<longleftrightarrow> 0 < k \<and> depth_ok k ts"
| "depth_ok k (t # ts) \<longleftrightarrow> depth_ok k ts"

definition enclosed :: "tok list \<Rightarrow> bool" where
  "enclosed ts \<longleftrightarrow> depth_ok 0 ts"

lemma holes_append [simp]: "holes (xs @ ys) = holes xs @ holes ys"
  by (induction xs rule: holes.induct) auto

lemma regs_append [simp]: "regs (xs @ ys) = regs xs \<union> regs ys"
  by (induction xs rule: regs.induct) auto

lemma depth_ok_append: "depth_ok k f \<Longrightarrow> depth_ok (k + d) (f @ ts) = depth_ok d ts"
proof (induction k f rule: depth_ok.induct)
  case (3 k ts')
  then have "k + d - 1 = k - 1 + d" by simp
  with 3 show ?case by simp
qed auto

lemma enclosed_append: "enclosed f \<Longrightarrow> depth_ok d (f @ ts) = depth_ok d ts"
  using depth_ok_append [of 0 f d ts] by (simp add: enclosed_def)

lemma holes_join: "holes sep = [] \<Longrightarrow> holes (join sep fs) = concat (map holes fs)"
  by (induction fs) (auto simp: join_Cons)

lemma regs_join: "regs sep \<subseteq> S \<Longrightarrow> (\<And>f. f \<in> set fs \<Longrightarrow> regs f \<subseteq> S) \<Longrightarrow> regs (join sep fs) \<subseteq> S"
  by (induction fs) (auto simp: join_Cons)

lemma upt_append: "i \<le> j \<Longrightarrow> j \<le> k \<Longrightarrow> [i..<k] = [i..<j] @ [j..<k]"
  using upt_add_eq_append [of i j "k - j"] by simp

lemma upt_from: "[n..<n + Suc k] = n # [n + 1..<n + 1 + k]"
  by (simp add: upt_conv_Cons del: upt_Suc)

lemma depth_ok_join:
  assumes "\<forall>f\<in>set fs. enclosed f" "sep = TOr \<or> sep = TAnd \<or> sep = TTxt s"
  shows "depth_ok (Suc d) (join [sep] fs @ ts) = depth_ok (Suc d) ts"
  using assms
proof (induction fs)
  case (Cons f fs)
  then show ?case
    by (auto simp: join_Cons enclosed_append)
qed simp

lemma enclosed_bracket:
  "(\<forall>f\<in>set fs. enclosed f) \<Longrightarrow> sep = TOr \<or> sep = TAnd \<or> sep = TTxt s \<Longrightarrow>
   enclosed ([TLP] @ join [sep] fs @ [TRP])"
  using depth_ok_join [of fs sep s 0 "[TRP]"] by (simp add: enclosed_def)

lemmas frag_defs = text_cast_def lower_col_def lower_hole_def ilike_frag_def coalesced_def

section \<open>Predicates\<close>

lemma in_loop_eq:
  "in_loop vs args nxt = (map lower_hole [nxt..<nxt + length vs], args @ map AStr vs, nxt + length vs)"
proof (induction vs args nxt rule: in_loop.induct)
  case (2 v vs args nxt)
  then show ?case
    using upt_from [of nxt "length vs"] by (simp del: upt_Suc)
qed simp

lemma ilike_loop_eq:
  "ilike_loop d vs args nxt =
     (map (ilike_frag d) [nxt..<nxt + length vs], args @ map (\<lambda>v. AStr (escapeLikeLiteral v)) vs,
      nxt + length vs)"
proof (induction d vs args nxt rule: ilike_loop.induct)
  case (2 d v vs args nxt)
  then show ?case
    using upt_from [of nxt "length vs"] by (simp del: upt_Suc)
qed simp

lemma concat_map_single: "(\<And>x. x \<in> set xs \<Longrightarrow> g (f x) = [x]) \<Longrightarrow> concat (map (g \<circ> f) xs) = xs"
  by (induction xs) auto

text \<open>What one fragment promises.\<close>

definition frag_ok :: "string set \<Rightarrow> nat \<Rightarrow> nat \<Rightarrow> tok list \<Rightarrow> bool" where
  "frag_ok S nxt n f \<longleftrightarrow> nxt \<le> n \<and> holes f = [nxt..<n] \<and> regs f \<subseteq> S \<and> enclosed f \<and> f \<noteq> []"

definition dim_exprs :: "domain \<Rightarrow> string set" where
  "dim_exprs dmn = (\<lambda>(k, d). d_expr d) ` set (dom_dimensions dmn)"

lemma dim_exprsI: "aget (dom_dimensions dmn) k = Some d \<Longrightarrow> d_expr d \<in> dim_exprs dmn"
  by (force simp: dim_exprs_def dest: aget_SomeD)

lemma leaf_frags:
  "frag_ok {d_expr d} n (Suc n) (lower_col d @ [TTxt s] @ lower_hole n)"
  "frag_ok {d_expr d} n (Suc n) (ilike_frag d n)"
  "0 < k \<Longrightarrow> frag_ok {d_expr d} n (n + k)
     (lower_col d @ [TTxt s, TLP] @ join [TTxt s'] (map lower_hole [n..<n + k]) @ [TRP])"
  "0 < k \<Longrightarrow> frag_ok {d_expr d} n (n + k)
     ([TLP] @ join [TOr] (map (ilike_frag d) [n..<n + k]) @ [TRP])"
proof -
  have e: "enclosed (lower_hole i)" "enclosed (ilike_frag d i)" for i
    by (simp_all add: enclosed_def frag_defs)
  have r: "regs (lower_hole i) = {}" "regs (ilike_frag d i) = {d_expr d}" for i
    by (simp_all add: frag_defs)
  have h: "concat (map (holes \<circ> lower_hole) xs) = xs" "concat (map (holes \<circ> ilike_frag d) xs) = xs" for xs
    by (rule concat_map_single; simp add: frag_defs)+
  have j: "regs (join [TTxt s'] (map lower_hole xs)) = {}" for xs
  proof -
    have "regs (join [TTxt s'] (map lower_hole xs)) \<subseteq> {}"
      by (rule regs_join) (auto simp: r)
    then show ?thesis by simp
  qed
  have j2: "regs (join [TOr] (map (ilike_frag d) xs)) \<subseteq> {d_expr d}" for xs
    by (rule regs_join) (auto simp: r)
  show "frag_ok {d_expr d} n (Suc n) (lower_col d @ [TTxt s] @ lower_hole n)"
    "frag_ok {d_expr d} n (Suc n) (ilike_frag d n)"
    by (simp_all add: frag_ok_def enclosed_def frag_defs)
  show "0 < k \<Longrightarrow> frag_ok {d_expr d} n (n + k)
     (lower_col d @ [TTxt s, TLP] @ join [TTxt s'] (map lower_hole [n..<n + k]) @ [TRP])"
    using depth_ok_join [of "map lower_hole [n..<n + k]" "TTxt s'" s' 0 "[TRP]"]
    by (auto simp: frag_ok_def holes_join h e r j) (simp_all add: enclosed_def lower_col_def text_cast_def)
  show "0 < k \<Longrightarrow> frag_ok {d_expr d} n (n + k)
     ([TLP] @ join [TOr] (map (ilike_frag d) [n..<n + k]) @ [TRP])"
    using j2 [of "[n..<n + k]"] enclosed_bracket [of "map (ilike_frag d) [n..<n + k]" TOr]
    by (simp add: frag_ok_def holes_join h e)
qed

lemma frag_ok_mono: "frag_ok S nxt n f \<Longrightarrow> S \<subseteq> T \<Longrightarrow> frag_ok T nxt n f"
  by (auto simp: frag_ok_def)

lemma buildLeaf_ok:
  assumes "buildLeaf p m dmn args nxt = Inr (f, a, n)"
  shows "frag_ok (dim_exprs dmn) nxt n f \<and> (\<exists>vs. a = args @ vs \<and> length vs = n - nxt)"
proof -
  obtain d where d: "aget (dom_dimensions dmn) (pr_dim p) = Some d"
    using assms by (auto simp: buildLeaf_def split: option.splits)
  have sub: "{d_expr d} \<subseteq> dim_exprs dmn"
    using dim_exprsI [OF d] by simp
  obtain v vs where v: "pr_values p = v # vs"
    using assms d by (auto simp: buildLeaf_def split: if_splits list.splits)
  have "frag_ok (dim_exprs dmn) nxt n f"
  proof (cases "pr_op p = ''ilike'' \<and> vs = []")
    case True
    with assms d v show ?thesis
      using leaf_frags(2) [of d nxt, THEN frag_ok_mono, OF sub]
      by (auto simp: buildLeaf_def ilike_loop_eq split: if_splits)
  next
    case False
    with assms d v show ?thesis
      using leaf_frags(1) [of d nxt "'' = ''", THEN frag_ok_mono, OF sub]
        leaf_frags(1) [of d nxt "'' <> ''", THEN frag_ok_mono, OF sub]
        leaf_frags(3) [of "Suc (length vs)" d nxt "'' IN ''" "'', ''", OF _, THEN frag_ok_mono, OF _ sub]
        leaf_frags(4) [of "Suc (length vs)" d nxt, OF _, THEN frag_ok_mono, OF _ sub]
      by (auto simp: buildLeaf_def in_loop_eq ilike_loop_eq simp del: upt_Suc split: if_splits)
  qed
  moreover have "\<exists>vs. a = args @ vs \<and> length vs = n - nxt"
    using assms d v by (auto simp: buildLeaf_def in_loop_eq ilike_loop_eq simp del: upt_Suc split: if_splits)
  ultimately show ?thesis ..
qed

lemma buildPredicate_ok:
  "buildPredicate p m dmn args nxt = Inr (f, a, n) \<Longrightarrow>
     frag_ok (dim_exprs dmn) nxt n f \<and> (\<exists>vs. a = args @ vs \<and> length vs = n - nxt)"
  "buildAll ps m dmn args nxt = Inr (fs, a, n) \<Longrightarrow>
     nxt \<le> n \<and> concat (map holes fs) = [nxt..<n] \<and> (\<forall>f\<in>set fs. regs f \<subseteq> dim_exprs dmn \<and> enclosed f) \<and>
     (\<exists>vs. a = args @ vs \<and> length vs = n - nxt) \<and> length fs = length ps"
proof (induction p m dmn args nxt and ps m dmn args nxt arbitrary: f a n and fs a n
    rule: buildPredicate_buildAll.induct)
  case (1 k dm op vs ps m dmn args nxt)
  consider (leaf) "k = ''leaf''" | (junct) "k = ''and'' \<or> k = ''or''" "ps \<noteq> []" | (neg) c where "k = ''not''" "ps = [Some c]"
    using "1.prems" by (auto simp: buildPredicate.simps split: if_splits list.splits option.splits)
  then show ?case
  proof cases
    case leaf
    with 1 show ?thesis by (simp add: buildPredicate.simps buildLeaf_ok)
  next
    case junct
    let ?sep = "if k = ''or'' then TOr else TAnd"
    obtain fs where b: "buildAll ps m dmn args nxt = Inr (fs, a, n)" and f: "f = [TLP] @ join [?sep] fs @ [TRP]"
      using junct "1.prems" by (auto simp: buildPredicate.simps rbind_Inr_iff)
    from junct have k: "k \<noteq> ''leaf''" by auto
    from "1.IH"(1) [OF k junct b]
    have ih: "nxt \<le> n" "concat (map holes fs) = [nxt..<n]" "\<forall>f\<in>set fs. regs f \<subseteq> dim_exprs dmn \<and> enclosed f"
      "\<exists>vs. a = args @ vs \<and> length vs = n - nxt" by auto
    then show ?thesis
      using enclosed_bracket [of fs ?sep] regs_join [of "[?sep]" "dim_exprs dmn" fs]
      by (auto simp: frag_ok_def f holes_join)
  next
    case neg
    obtain f' where b: "buildPredicate c m dmn args nxt = Inr (f', a, n)" and f: "f = [TTxt ''NOT '', TLP] @ f' @ [TRP]"
      using neg "1.prems" by (auto simp: buildPredicate.simps rbind_Inr_iff)
    have "frag_ok (dim_exprs dmn) nxt n f' \<and> (\<exists>vs. a = args @ vs \<and> length vs = n - nxt)"
      using neg b by (intro "1.IH"(2)) auto
    then show ?thesis
      by (auto simp: frag_ok_def f enclosed_def) (simp add: enclosed_append [unfolded enclosed_def])
  qed
next
  case (4 c ps m dmn args nxt)
  obtain f a1 n1 fs' where c: "buildPredicate c m dmn args nxt = Inr (f, a1, n1)"
      "buildAll ps m dmn a1 n1 = Inr (fs', a, n)" "fs = f # fs'"
    using "4.prems" by (auto simp: buildAll.simps rbind_Inr_iff)
  from "4.IH"(1) [OF c(1)] "4.IH"(2) [OF c(2)] show ?case
    using upt_append [of nxt n1 n] by (auto simp: c(3) frag_ok_def)
qed (auto simp: buildAll.simps)

end
