(* ===== verification/QuerySafety.thy ===== *)
theory QuerySafety
  imports QueryCorrect
begin

text \<open>
  The properties of the compiler and of the endpoint, on top of the fragment lemmas of
  QueryCorrect.
\<close>

section \<open>The clauses of an aggregate query\<close>

definition measure_texts :: "string \<times> measure \<Rightarrow> string set" where
  "measure_texts p = {fst p, m_table (snd p), m_expr (snd p), m_dateCol (snd p), m_ownerCol (snd p)}"

definition rows_texts :: "rowSource \<Rightarrow> string set" where
  "rows_texts rs = {rs_table rs, rs_ownerCol rs, rs_dateCol rs, rs_defaultSort rs} \<union>
     rc_expr ` set (rs_columns rs) \<union> (\<lambda>c. CHR 0x22 # rc_name c @ [CHR 0x22]) ` set (rs_columns rs)"

definition trusted :: "domain \<Rightarrow> string set" where
  "trusted dmn = (\<Union>p\<in>set (dom_measures dmn). measure_texts p) \<union> dim_exprs dmn \<union>
     (case dom_rows dmn of None \<Rightarrow> {} | Some rs \<Rightarrow> rows_texts rs)"

lemma trusted_measure: "aget (dom_measures dmn) k = Some m \<Longrightarrow> measure_texts (k, m) \<subseteq> trusted dmn"
  by (auto simp: trusted_def dest!: aget_SomeD)

lemma trusted_dims: "dim_exprs dmn \<subseteq> trusted dmn"
  by (auto simp: trusted_def)

lemma trusted_rows: "dom_rows dmn = Some rs \<Longrightarrow> rows_texts rs \<subseteq> trusted dmn"
  by (auto simp: trusted_def)

definition owner_conj :: "string \<Rightarrow> tok list" where
  "owner_conj col = [TReg col, TTxt '' = '', THole 1]"

definition conjs_ok :: "string set \<Rightarrow> string \<Rightarrow> string \<Rightarrow> tok list list \<Rightarrow> sql_arg list \<Rightarrow> nat \<Rightarrow> bool" where
  "conjs_ok S col owner conjs a n \<longleftrightarrow>
     (\<exists>frags vs. conjs = owner_conj col # frags \<and> (\<forall>f\<in>set frags. enclosed f) \<and> a = AStr owner # vs) \<and>
     n = Suc (length a) \<and> concat (map holes conjs) = [1..<n] \<and> (\<forall>f\<in>set conjs. regs f \<subseteq> S)"

lemma upt_snoc: "0 < n \<Longrightarrow> [1..<Suc n] = [1..<n] @ [n]"
  by simp

lemma conjs_ok_snoc:
  assumes "conjs_ok S col owner conjs a n" "frag_ok S n n' f" "length vs = n' - n"
  shows "conjs_ok S col owner (conjs @ [f]) (a @ vs) n'"
proof -
  obtain frags ws where c: "conjs = owner_conj col # frags" "\<forall>f\<in>set frags. enclosed f" "a = AStr owner # ws"
    using assms(1) by (auto simp: conjs_ok_def)
  have "1 \<le> n" "n \<le> n'"
    using assms(1,2) by (auto simp: conjs_ok_def frag_ok_def)
  then show ?thesis
    using assms upt_append [of 1 n n'] c
    by (auto simp: conjs_ok_def frag_ok_def intro!: exI [of _ "frags @ [f]"])
qed

lemma range_frag_ok:
  "c \<in> S \<Longrightarrow> frag_ok S n (Suc (Suc n)) [TReg c, TTxt '' >= '', THole n, TAnd, TReg c, TTxt '' < '', THole (Suc n)]"
  by (simp add: frag_ok_def enclosed_def)

lemma where_clause_ok:
  assumes "where_clause clock owner q dmn m = Inr (conjs, a, n)"
    and "m_ownerCol m \<in> trusted dmn" "m_dateCol m \<in> trusted dmn"
  shows "conjs_ok (trusted dmn) (m_ownerCol m) owner conjs a n"
proof -
  let ?w0 = "[owner_conj (m_ownerCol m)]"
  define wan where "wan = (if range_isZero (q_rng q) then (?w0, [AStr owner], 2::nat)
      else (case resolveRange (anchor clock q) (q_gran q) (q_rng q) of
          None \<Rightarrow> (?w0, [AStr owner], 2)
        | Some (s, e) \<Rightarrow>
            (?w0 @ [[TReg (m_dateCol m), TTxt '' >= '', THole 2, TAnd, TReg (m_dateCol m), TTxt '' < '', THole 3]],
             [AStr owner] @ [ATime s, ATime (endExclusive e)], 4)))"
  obtain w1 a1 n1 where wan1: "wan = (w1, a1, n1)" by (cases wan) auto
  have base: "conjs_ok (trusted dmn) (m_ownerCol m) owner ?w0 [AStr owner] 2"
    using assms(2) by (auto simp: conjs_ok_def owner_conj_def eval_nat_numeral)
  have ok1: "conjs_ok (trusted dmn) (m_ownerCol m) owner w1 a1 n1"
    using wan1 base range_frag_ok [OF assms(3), of 2]
      conjs_ok_snoc [OF base, of 4 _ "[ATime _, ATime _]"]
    by (auto simp: wan_def eval_nat_numeral split: if_splits option.splits)
  have w: "where_clause clock owner q dmn m = where_pred (q_where q) m dmn w1 a1 n1"
    using wan1 unfolding where_clause_def Let_def wan_def owner_conj_def
    by (auto simp: eval_nat_numeral split: option.splits)
  show ?thesis
  proof (cases "q_where q")
    case None
    with w assms(1) ok1 show ?thesis by (simp add: where_pred_def)
  next
    case (Some p)
    then have "rbind (buildPredicate p m dmn a1 n1)
        (\<lambda>(frag, a2, n2). Inr (if frag = [] then w1 else w1 @ [frag], a2, n2)) = Inr (conjs, a, n)"
      using w assms(1) by (simp add: where_pred_def)
    then obtain f where f: "buildPredicate p m dmn a1 n1 = Inr (f, a, n)" "conjs = (if f = [] then w1 else w1 @ [f])"
      by (auto simp: rbind_Inr_iff)
    from buildPredicate_ok(1) [OF f(1)] obtain vs where "frag_ok (dim_exprs dmn) n1 n f" "a = a1 @ vs" "length vs = n - n1"
      by auto
    moreover from this(1) have "conjs = w1 @ [f]"
      using f(2) by (simp add: frag_ok_def)
    ultimately show ?thesis
      using conjs_ok_snoc [OF ok1] frag_ok_mono [OF _ trusted_dims] by blast
  qed
qed

text \<open>What an accepted aggregate query is made of.\<close>

lemma aggregate_parts:
  assumes "compileAggregate clock owner q dmn = Inr (sql, args)"
  obtains m axis gb rollups conjs a1 n1 having ob where
    "aget (dom_measures dmn) (q_measure q) = Some m"
    "\<not> (q_group q \<noteq> [] \<and> q_gran q \<noteq> ''none'')" "q_bucket q \<noteq> None \<longrightarrow> q_group q \<noteq> []"
    "select_axis q dmn m = Inr (axis, gb)" "select_rollups q dmn m = Inr rollups"
    "where_clause clock owner q dmn m = Inr (conjs, a1, n1)"
    "having_clause q m gb a1 n1 = Inr (having, args)"
    "orderBy q (q_group q \<noteq> []) (q_gran q \<noteq> ''none'') = Inr ob"
    "sql = statement q m axis gb rollups conjs having ob"
proof -
  obtain m where m: "aget (dom_measures dmn) (q_measure q) = Some m"
    using assms by (auto simp: compileAggregate_def split: if_splits option.splits)
  have neg: "\<not> (q_group q \<noteq> [] \<and> q_gran q \<noteq> ''none'')" "q_bucket q \<noteq> None \<longrightarrow> q_group q \<noteq> []"
    using assms m by (auto simp: compileAggregate_def Let_def split: if_splits)
  have "\<exists>axis gb rollups conjs a1 n1 having ob. select_axis q dmn m = Inr (axis, gb) \<and>
      select_rollups q dmn m = Inr rollups \<and> where_clause clock owner q dmn m = Inr (conjs, a1, n1) \<and>
      having_clause q m gb a1 n1 = Inr (having, args) \<and>
      orderBy q (q_group q \<noteq> []) (q_gran q \<noteq> ''none'') = Inr ob \<and> sql = statement q m axis gb rollups conjs having ob"
    using assms m by (auto simp: compileAggregate_def Let_def rbind_Inr_iff split: if_split_asm)
  with that [OF m neg] show ?thesis by blast
qed

definition plain :: "string set \<Rightarrow> tok list \<Rightarrow> bool" where
  "plain S ts \<longleftrightarrow> holes ts = [] \<and> regs ts \<subseteq> S"

lemma coalesced_plain: "e \<in> S \<Longrightarrow> plain S (coalesced e)"
  by (simp add: plain_def coalesced_def)

lemma select_axis_plain:
  assumes "select_axis q dmn m = Inr (axis, gb)" "m_dateCol m \<in> trusted dmn"
  shows "(\<forall>c\<in>set axis. plain (trusted dmn) c) \<and> plain (trusted dmn) gb"
  using assms dim_exprsI [of dmn "q_group q"] trusted_dims [of dmn]
  by (auto simp: select_axis_def plain_def text_cast_def Let_def split: if_splits option.splits)

lemma rollup_cols_plain:
  "rollup_cols q dmn m ns = Inr cs \<Longrightarrow> \<forall>c\<in>set cs. plain (trusted dmn) c"
proof (induction q dmn m ns arbitrary: cs rule: rollup_cols.induct)
  case (2 q dmn m name ns)
  then obtain rm cs' where rm: "aget (dom_measures dmn) name = Some rm" "rollup_cols q dmn m ns = Inr cs'"
      "cs = (coalesced (m_expr rm) @ [TTxt '' AS r_'', TReg name]) # cs'"
    by (auto simp: rbind_Inr_iff split: option.splits if_splits)
  have "plain (trusted dmn) (coalesced (m_expr rm) @ [TTxt '' AS r_'', TReg name])"
    using trusted_measure [OF rm(1)] by (auto simp: plain_def coalesced_def measure_texts_def)
  moreover have "\<forall>c\<in>set cs'. plain (trusted dmn) c"
    using 2 rm by (auto split: if_splits)
  ultimately show ?case by (simp add: rm(3))
qed simp

lemma select_rollups_plain:
  "select_rollups q dmn m = Inr cs \<Longrightarrow> \<forall>c\<in>set cs. plain (trusted dmn) c"
  using rollup_cols_plain by (fastforce simp: select_rollups_def plain_def rbind_Inr_iff split: if_splits)

lemma plain_join: "(\<forall>c\<in>set cs. plain S c) \<Longrightarrow> plain S (join [TTxt s] cs)"
  by (induction cs) (auto simp: plain_def join_Cons)

lemma assemble_ok:
  assumes "\<forall>c\<in>set cols. plain S c" "table \<in> S" "conjs_ok S col owner conjs a n"
  shows "holes (assemble cols table conjs) = [1..<Suc (length a)] \<and> regs (assemble cols table conjs) \<subseteq> S"
proof -
  have "regs (join [TAnd] conjs) \<subseteq> S"
    by (rule regs_join) (use assms(3) in \<open>auto simp: conjs_ok_def\<close>)
  then show ?thesis
    using plain_join [OF assms(1), of "'', ''"] assms(2,3)
    by (simp add: assemble_def plain_def conjs_ok_def holes_join)
qed

lemma having_ok:
  assumes "having_clause q m gb a1 (Suc (length a1)) = Inr (having, args)" "m_expr m \<in> S"
  shows "holes having = [Suc (length a1)..<Suc (length args)] \<and> regs having \<subseteq> S \<and> (\<exists>vs. args = a1 @ vs)"
  using assms by (auto simp: having_clause_def coalesced_def split: option.splits if_splits)

lemma compileAggregate_ok:
  assumes "compileAggregate clock owner q dmn = Inr (sql, args)"
  shows "holes sql = [1..<Suc (length args)] \<and> regs sql \<subseteq> trusted dmn \<and>
    (\<exists>cols table col frags rest vs. sql = assemble cols table (owner_conj col # frags) @ rest \<and>
       (\<forall>f\<in>set frags. enclosed f) \<and> args = AStr owner # vs \<and>
       (\<exists>(k, m)\<in>set (dom_measures dmn). m_table m = table \<and> m_ownerCol m = col))"
  using assms
proof (rule aggregate_parts)
  fix m axis gb rollups conjs a1 n1 having ob
  assume m: "aget (dom_measures dmn) (q_measure q) = Some m"
    and ax: "select_axis q dmn m = Inr (axis, gb)" and ro: "select_rollups q dmn m = Inr rollups"
    and wh: "where_clause clock owner q dmn m = Inr (conjs, a1, n1)"
    and ha: "having_clause q m gb a1 n1 = Inr (having, args)"
    and sql: "sql = statement q m axis gb rollups conjs having ob"
  have tr: "m_table m \<in> trusted dmn" "m_expr m \<in> trusted dmn" "m_dateCol m \<in> trusted dmn" "m_ownerCol m \<in> trusted dmn"
    using trusted_measure [OF m] by (auto simp: measure_texts_def)
  have conj: "conjs_ok (trusted dmn) (m_ownerCol m) owner conjs a1 n1"
    using where_clause_ok [OF wh] tr by simp
  then have n1: "n1 = Suc (length a1)" by (simp add: conjs_ok_def)
  have hav: "holes having = [Suc (length a1)..<Suc (length args)]" "regs having \<subseteq> trusted dmn"
      "\<exists>vs. args = a1 @ vs"
    using having_ok [OF ha [unfolded n1] tr(2)] by auto
  have ax': "\<forall>c\<in>set axis. plain (trusted dmn) c" "plain (trusted dmn) gb"
    using select_axis_plain [OF ax tr(3)] by auto
  have "plain (trusted dmn) (coalesced (m_expr m) @ [TTxt '' AS value''])"
    using coalesced_plain [OF tr(2)] by (simp add: plain_def)
  then have "\<forall>c\<in>set (axis @ [coalesced (m_expr m) @ [TTxt '' AS value'']] @ rollups). plain (trusted dmn) c"
    using ax'(1) select_rollups_plain [OF ro] by auto
  from assemble_ok [OF this tr(1) conj] hav ax'(2)
  have "holes sql = [1..<Suc (length args)] \<and> regs sql \<subseteq> trusted dmn"
    using upt_append [of 1 "Suc (length a1)" "Suc (length args)"] by (auto simp: sql statement_def plain_def)
  moreover have "\<exists>frags vs. conjs = owner_conj (m_ownerCol m) # frags \<and> (\<forall>f\<in>set frags. enclosed f) \<and> args = AStr owner # vs"
    using conj hav(3) by (auto simp: conjs_ok_def)
  moreover have "(q_measure q, m) \<in> set (dom_measures dmn)"
    using m by (rule aget_SomeD)
  ultimately show ?thesis
    unfolding sql statement_def by fast
qed

section \<open>Rows mode\<close>

lemma rows_parts:
  assumes "compileRowsSQL clock owner q dmn = Inr (page, cnt, args)"
  obtains rs rm conjs n where "dom_rows dmn = Some rs" "rowsMeasure dmn = Some rm"
    "where_clause clock owner q dmn rm = Inr (conjs, args, n)"
    "page = assemble (map (\<lambda>c. [TReg (rc_expr c), TTxt '' AS '', TReg (CHR 0x22 # rc_name c @ [CHR 0x22])]) (rs_columns rs))
       (rs_table rs) conjs @ (if rs_defaultSort rs = [] then [] else [TTxt (nl @ ''ORDER BY ''), TReg (rs_defaultSort rs)]) @
       [TTxt (nl @ ''LIMIT '' @ itoa (fst (page_window q)) @ '' OFFSET '' @ itoa (snd (page_window q)))]"
    "cnt = assemble [[TTxt ''count(*)'']] (rs_table rs) conjs"
  using assms
  by (fastforce simp: compileRowsSQL_def Let_def rbind_Inr_iff case_prod_unfold split: if_splits option.splits)

lemma rowsMeasure_cols:
  assumes "rowsMeasure dmn = Some rm" "dom_rows dmn = Some rs"
  shows "m_ownerCol rm = rs_ownerCol rs" "m_dateCol rm = rs_dateCol rs"
  using assms by (auto simp: rowsMeasure_def)

lemma compileRows_ok:
  assumes "compileRowsSQL clock owner q dmn = Inr (page, cnt, args)"
  shows "(\<forall>sql\<in>{page, cnt}. holes sql = [1..<Suc (length args)] \<and> regs sql \<subseteq> trusted dmn) \<and>
    (\<exists>rs frags rest cols vs. dom_rows dmn = Some rs \<and> (\<forall>f\<in>set frags. enclosed f) \<and> args = AStr owner # vs \<and>
       page = assemble cols (rs_table rs) (owner_conj (rs_ownerCol rs) # frags) @ rest \<and>
       cnt = assemble [[TTxt ''count(*)'']] (rs_table rs) (owner_conj (rs_ownerCol rs) # frags))"
  using assms
proof (rule rows_parts)
  fix rs rm conjs n
  assume rs: "dom_rows dmn = Some rs" "rowsMeasure dmn = Some rm"
    and wh: "where_clause clock owner q dmn rm = Inr (conjs, args, n)"
    and page: "page = assemble (map (\<lambda>c. [TReg (rc_expr c), TTxt '' AS '', TReg (CHR 0x22 # rc_name c @ [CHR 0x22])]) (rs_columns rs))
       (rs_table rs) conjs @ (if rs_defaultSort rs = [] then [] else [TTxt (nl @ ''ORDER BY ''), TReg (rs_defaultSort rs)]) @
       [TTxt (nl @ ''LIMIT '' @ itoa (fst (page_window q)) @ '' OFFSET '' @ itoa (snd (page_window q)))]"
    and cnt: "cnt = assemble [[TTxt ''count(*)'']] (rs_table rs) conjs"
  have S: "rows_texts rs \<subseteq> trusted dmn"
    using rs(1) by (rule trusted_rows)
  have conj: "conjs_ok (trusted dmn) (rs_ownerCol rs) owner conjs args n"
    using where_clause_ok [OF wh] S by (auto simp: rowsMeasure_cols [OF rs(2,1)] rows_texts_def)
  have t: "rs_table rs \<in> trusted dmn" "rs_defaultSort rs \<in> trusted dmn"
    using S by (auto simp: rows_texts_def)
  have "\<forall>c\<in>set (map (\<lambda>c. [TReg (rc_expr c), TTxt '' AS '', TReg (CHR 0x22 # rc_name c @ [CHR 0x22])]) (rs_columns rs)).
      plain (trusted dmn) c"
    using S by (auto simp: plain_def rows_texts_def)
  from assemble_ok [OF this t(1) conj] assemble_ok [OF _ t(1) conj, of "[[TTxt ''count(*)'']]"] t(2)
  have "\<forall>sql\<in>{page, cnt}. holes sql = [1..<Suc (length args)] \<and> regs sql \<subseteq> trusted dmn"
    by (simp add: page cnt plain_def)
  moreover obtain frags vs where "conjs = owner_conj (rs_ownerCol rs) # frags" "\<forall>f\<in>set frags. enclosed f" "args = AStr owner # vs"
    using conj by (auto simp: conjs_ok_def)
  ultimately show ?thesis
    using rs(1) unfolding page cnt by (intro conjI exI [of _ rs] exI [of _ frags]) auto
qed

end
