(* ===== verification/QueryProps.thy ===== *)
theory QueryProps
  imports QuerySafety
begin

text \<open>The properties of the query compiler.\<close>

section \<open>A concrete query\<close>

definition builtin_domains :: domains where
  "builtin_domains = [(''coding'', registerCoding), (''reading'', registerReading),
     (''readingEvents'', registerReadingEvents), (''annotations'', registerAnnotations)]"

lemma builtin_eq: "builtin = Some builtin_domains"
  by (simp add: builtin_def builtin_domains_def RegisterDomain_def registerCoding_def registerReading_def
      registerReadingEvents_def registerAnnotations_def)

definition demo_query :: query where
  "demo_query =
     Over (Where (Group (Measure (Q ''coding'') ''seconds'') ''project'')
       (Some (Or [Some (Leaf ''language'' ''eq'' [''go'']), Some (Leaf ''branch'' ''ilike'' [''fix_'', ''%''])])))
       ''none'' (Between 0 (minutes 5))"

definition demo_sql :: "tok list" where
  "demo_sql = fst (projr (Compile builtin_domains 0 ''ann'' demo_query))"

definition demo_args :: "sql_arg list" where
  "demo_args = snd (projr (Compile builtin_domains 0 ''ann'' demo_query))"

lemma demo_compiles: "Compile builtin_domains 0 ''ann'' demo_query = Inr (demo_sql, demo_args)"
proof -
  have "\<exists>r. Compile builtin_domains 0 ''ann'' demo_query = Inr r"
    by (simp add: Compile_def lookupDomain_def builtin_domains_def demo_query_def builder_defs Q_def Between_def
        zero_range_def range_validate_def time_is_zero_def zero_time_def minutes_def registerCoding_def
        compileAggregate_def select_axis_def axes_def supportsDim_def select_rollups_def where_clause_def where_pred_def
        range_isZero_def resolveRange_def Or_def Leaf_def buildPredicate.simps buildAll.simps buildLeaf_def
        in_loop_eq ilike_loop_eq having_clause_def orderBy_def)
  then show ?thesis
    by (auto simp: demo_sql_def demo_args_def)
qed

section \<open>Compiled text\<close>

definition sources :: "domain \<Rightarrow> (string \<times> string) set" where
  "sources dmn = (\<lambda>(k, m). (m_table m, m_ownerCol m)) ` set (dom_measures dmn) \<union>
     (case dom_rows dmn of None \<Rightarrow> {} | Some rs \<Rightarrow> {(rs_table rs, rs_ownerCol rs)})"

lemma Compile_cases:
  assumes "Compile reg clock owner q = Inr (sql, args)"
  obtains dmn where "owner \<noteq> []" "lookupDomain reg (q_domain q) = Some dmn" "range_validate (q_rng q) = None"
    "q_rowsMode q \<Longrightarrow> \<exists>cnt. compileRowsSQL clock owner q dmn = Inr (sql, cnt, args)"
    "\<not> q_rowsMode q \<Longrightarrow> compileAggregate clock owner q dmn = Inr (sql, args)"
  using assms by (auto simp: Compile_def rbind_Inr_iff split: if_splits option.splits)



text \<open>
  The placeholders of an accepted query are exactly $1, $2, ... in the order of the text, one for
  each argument, so every value is bound where the code meant it.
\<close>

lemma compile_placeholders:
  assumes "Compile reg clock owner q = Inr (sql, args)"
  shows "holes sql = [1..<Suc (length args)]"
  using assms
proof (rule Compile_cases)
  fix dmn
  assume rows: "q_rowsMode q \<Longrightarrow> \<exists>cnt. compileRowsSQL clock owner q dmn = Inr (sql, cnt, args)"
    and agg: "\<not> q_rowsMode q \<Longrightarrow> compileAggregate clock owner q dmn = Inr (sql, args)"
  show ?thesis
  proof (cases "q_rowsMode q")
    case True
    with rows compileRows_ok [of clock owner q dmn sql _ args] show ?thesis by blast
  next
    case False
    with agg compileAggregate_ok [of clock owner q dmn sql args] show ?thesis by blast
  qed
qed

lemma compile_placeholders_witness: "holes demo_sql = [1..<Suc (length demo_args)]"
  by (rule compile_placeholders [OF demo_compiles])

text \<open>
  Every table, column, expression and alias in an accepted query's text is text the registry of
  its domain carries; a name from the request reaches the text only when it is registered.
\<close>

lemma compile_registry_text:
  assumes "Compile reg clock owner q = Inr (sql, args)"
  shows "\<exists>dmn. lookupDomain reg (q_domain q) = Some dmn \<and> regs sql \<subseteq> trusted dmn"
  using assms
proof (rule Compile_cases)
  fix dmn
  assume d: "lookupDomain reg (q_domain q) = Some dmn"
    and rows: "q_rowsMode q \<Longrightarrow> \<exists>cnt. compileRowsSQL clock owner q dmn = Inr (sql, cnt, args)"
    and agg: "\<not> q_rowsMode q \<Longrightarrow> compileAggregate clock owner q dmn = Inr (sql, args)"
  show ?thesis
  proof (cases "q_rowsMode q")
    case True
    with d rows compileRows_ok [of clock owner q dmn sql _ args] show ?thesis by blast
  next
    case False
    with d agg compileAggregate_ok [of clock owner q dmn sql args] show ?thesis by blast
  qed
qed

lemma compile_registry_text_witness: "regs demo_sql \<subseteq> trusted registerCoding"
proof -
  have "lookupDomain builtin_domains (q_domain demo_query) = Some registerCoding"
    by (simp add: lookupDomain_def builtin_domains_def demo_query_def builder_defs Q_def)
  with compile_registry_text [OF demo_compiles] show ?thesis by simp
qed

section \<open>Values do not influence the text\<close>

fun blank_pred :: "predicate \<Rightarrow> predicate" where
  "blank_pred (Predicate k dm op vs ps) = Predicate k dm op (map (\<lambda>_. []) vs) (map (map_option blank_pred) ps)"

definition blank_range :: "range \<Rightarrow> range" where
  "blank_range r = (if range_isZero r then r else LastN 1)"

text \<open>The query with every caller-supplied value, bound and threshold replaced by a fixed one.\<close>

definition blank :: "query \<Rightarrow> query" where
  "blank q = q\<lparr>q_where := map_option blank_pred (q_where q), q_rng := blank_range (q_rng q),
     q_having := map_option (\<lambda>h. h\<lparr>h_value := 0\<rparr>) (q_having q), q_now := zero_time\<rparr>"

lemma blank_sel [simp]:
  "q_domain (blank q) = q_domain q" "q_measure (blank q) = q_measure q" "q_group (blank q) = q_group q"
  "q_where (blank q) = map_option blank_pred (q_where q)" "q_gran (blank q) = q_gran q"
  "q_rng (blank q) = blank_range (q_rng q)" "q_bucket (blank q) = q_bucket q"
  "q_having (blank q) = map_option (\<lambda>h. h\<lparr>h_value := 0\<rparr>) (q_having q)"
  "q_sortField (blank q) = q_sortField q" "q_sortDesc (blank q) = q_sortDesc q" "q_sortSet (blank q) = q_sortSet q"
  "q_rollups (blank q) = q_rollups q" "q_rowsMode (blank q) = q_rowsMode q" "q_page (blank q) = q_page q"
  "q_pageSize (blank q) = q_pageSize q" "q_limit (blank q) = q_limit q"
  by (simp_all add: blank_def)

lemma blank_range_simps [simp]:
  "range_isZero (blank_range r) = range_isZero r" "range_validate r = None \<Longrightarrow> range_validate (blank_range r) = None"
  by (auto simp: blank_range_def LastN_def zero_range_def range_isZero_def range_validate_def time_is_zero_def)

text \<open>The text and the number of arguments of a build step.\<close>

fun text_of :: "qerror + ('a \<times> sql_arg list \<times> nat) \<Rightarrow> qerror + ('a \<times> nat \<times> nat)" where
  "text_of (Inl e) = Inl e"
| "text_of (Inr (f, a, n)) = Inr (f, length a, n)"

lemma text_of_Inr: "text_of r = Inr (f, k, n) \<longleftrightarrow> (\<exists>a. r = Inr (f, a, n) \<and> length a = k)"
  by (cases r rule: text_of.cases) auto

lemma text_of_Inl: "text_of r = Inl e \<longleftrightarrow> r = Inl e"
  by (cases r rule: text_of.cases) auto

lemma buildLeaf_blank:
  "length args' = length args \<Longrightarrow>
   text_of (buildLeaf (blank_pred p) m dmn args' nxt) = text_of (buildLeaf p m dmn args nxt)"
  by (cases p) (auto simp: buildLeaf_def in_loop_eq ilike_loop_eq simp del: upt_Suc split: option.splits list.splits)

lemma buildPredicate_blank:
  "length args' = length args \<Longrightarrow>
     text_of (buildPredicate (blank_pred p) m dmn args' nxt) = text_of (buildPredicate p m dmn args nxt)"
  "length args' = length args \<Longrightarrow>
     text_of (buildAll (map (map_option blank_pred) ps) m dmn args' nxt) = text_of (buildAll ps m dmn args nxt)"
proof (induction p m dmn args nxt and ps m dmn args nxt arbitrary: args' and args'
    rule: buildPredicate_buildAll.induct)
  case (1 k dm op vs ps m dmn args nxt)
  consider (leaf) "k = ''leaf''" | (junct) "k = ''and'' \<or> k = ''or''" "ps \<noteq> []" | (neg) c where "k = ''not''" "ps = [Some c]"
    | (err) "k \<noteq> ''leaf''" "(k = ''and'' \<or> k = ''or'') \<longrightarrow> ps = []" "k = ''not'' \<longrightarrow> \<not> (\<exists>c. ps = [Some c])"
    by blast
  then show ?case
  proof cases
    case leaf
    then show ?thesis
      using buildLeaf_blank [OF "1.prems", of "Predicate k dm op vs ps"] by (simp add: buildPredicate.simps)
  next
    case junct
    then have k: "k \<noteq> ''leaf''" by auto
    from "1.IH"(1) [OF k junct "1.prems"] junct show ?thesis
      by (cases "buildAll ps m dmn args nxt" rule: text_of.cases)
         (auto simp: buildPredicate.simps text_of_Inl text_of_Inr)
  next
    case neg
    have "text_of (buildPredicate (blank_pred c) m dmn args' nxt) = text_of (buildPredicate c m dmn args nxt)"
      using neg "1.prems" by (intro "1.IH"(2)) auto
    with neg show ?thesis
      by (cases "buildPredicate c m dmn args nxt" rule: text_of.cases)
         (auto simp: buildPredicate.simps text_of_Inl text_of_Inr)
  next
    case err
    then show ?thesis
      by (auto simp: buildPredicate.simps split: list.splits option.splits)
  qed
next
  case (4 c ps m dmn args nxt)
  show ?case
  proof (cases "buildPredicate c m dmn args nxt" rule: text_of.cases)
    case (1 e)
    with "4.IH"(1) [OF "4.prems"] show ?thesis by (simp add: buildAll.simps text_of_Inl)
  next
    case (2 f a n)
    with "4.IH"(1) [OF "4.prems"] obtain a' where a': "buildPredicate (blank_pred c) m dmn args' nxt = Inr (f, a', n)"
        "length a' = length a"
      by (auto simp: text_of_Inr)
    from "4.IH"(2) [OF a'(2), of n] a'(1) 2 show ?thesis
      by (cases "buildAll ps m dmn a n" rule: text_of.cases) (auto simp: buildAll.simps text_of_Inl text_of_Inr)
  qed
qed (simp_all add: buildAll.simps)

lemma resolveRange_some: "\<not> range_isZero r \<Longrightarrow> \<exists>s e. resolveRange now gran r = Some (s, e)"
  by (auto simp: resolveRange_def Let_def)

lemma where_clause_blank:
  "text_of (where_clause clock' owner' (blank q) dmn m) = text_of (where_clause clock owner q dmn m)"
proof -
  have g: "text_of (where_pred (map_option blank_pred p) m dmn w a' n) = text_of (where_pred p m dmn w a n)"
    if "length a' = length a" for w a' a n p
  proof (cases p)
    case (Some x)
    with buildPredicate_blank(1) [OF that, of x m dmn n] show ?thesis
      by (cases "buildPredicate x m dmn a n" rule: text_of.cases) (auto simp: where_pred_def text_of_Inl text_of_Inr)
  qed (simp add: where_pred_def that)
  show ?thesis
  proof (cases "range_isZero (q_rng q)")
    case True
    then show ?thesis
      using g [of "[AStr owner']" "[AStr owner]"] by (simp add: where_clause_def Let_def)
  next
    case False
    obtain s e s' e' where "resolveRange (anchor clock q) (q_gran q) (q_rng q) = Some (s, e)"
      "resolveRange (anchor clock' (blank q)) (q_gran q) (blank_range (q_rng q)) = Some (s', e')"
      using resolveRange_some False by (metis blank_range_simps(1))
    then show ?thesis
      using False g [of "[AStr owner', ATime s', ATime (endExclusive e')]" "[AStr owner, ATime s, ATime (endExclusive e)]"]
      by (simp add: where_clause_def Let_def)
  qed
qed

lemma having_clause_blank:
  assumes "having_clause q m gb a n = Inr (having, args)" "length a' = length a"
  shows "\<exists>args'. having_clause (blank q) m gb a' n = Inr (having, args') \<and> length args' = length args"
  using assms by (auto simp: having_clause_def split: option.splits if_splits)

lemma blank_frame:
  "select_axis (blank q) dmn m = select_axis q dmn m" "select_rollups (blank q) dmn m = select_rollups q dmn m"
  "orderBy (blank q) gr se = orderBy q gr se" "statement (blank q) m = statement q m" "page_window (blank q) = page_window q"
proof -
  have "rollup_cols (blank q) dmn m ns = rollup_cols q dmn m ns" for ns
    by (induction ns) (auto split: option.split)
  then show "select_rollups (blank q) dmn m = select_rollups q dmn m"
    by (simp add: select_rollups_def)
qed (simp_all add: select_axis_def orderBy_def statement_def page_window_def fun_eq_iff Let_def split: option.split)

lemma aggregate_blank:
  assumes "compileAggregate clock owner q dmn = Inr (sql, args)"
  shows "\<exists>args'. compileAggregate clock' owner' (blank q) dmn = Inr (sql, args') \<and> length args' = length args"
  using assms
proof (rule aggregate_parts)
  fix m axis gb rollups conjs a1 n1 having ob
  assume m: "aget (dom_measures dmn) (q_measure q) = Some m" "\<not> (q_group q \<noteq> [] \<and> q_gran q \<noteq> ''none'')"
    "q_bucket q \<noteq> None \<longrightarrow> q_group q \<noteq> []"
    and ax: "select_axis q dmn m = Inr (axis, gb)" and ro: "select_rollups q dmn m = Inr rollups"
    and wh: "where_clause clock owner q dmn m = Inr (conjs, a1, n1)"
    and ha: "having_clause q m gb a1 n1 = Inr (having, args)"
    and ob: "orderBy q (q_group q \<noteq> []) (q_gran q \<noteq> ''none'') = Inr ob"
    and sql: "sql = statement q m axis gb rollups conjs having ob"
  obtain a1' where wh': "where_clause clock' owner' (blank q) dmn m = Inr (conjs, a1', n1)" "length a1' = length a1"
    using where_clause_blank [of clock' owner' q dmn m clock owner] wh by (auto simp: text_of_Inr)
  obtain args' where ha': "having_clause (blank q) m gb a1' n1 = Inr (having, args')" "length args' = length args"
    using having_clause_blank [OF ha wh'(2)] by blast
  have "q_measure q \<noteq> []"
    using assms by (auto simp: compileAggregate_def)
  with m ax ro wh' ha' ob sql show ?thesis
    by (auto simp: compileAggregate_def Let_def blank_frame)
qed

lemma rows_blank:
  assumes "compileRowsSQL clock owner q dmn = Inr (page, cnt, args)" "owner' \<noteq> []"
  shows "\<exists>args'. compileRowsSQL clock' owner' (blank q) dmn = Inr (page, cnt, args') \<and> length args' = length args"
  using assms(1)
proof (rule rows_parts)
  fix rs rm conjs n
  assume rs: "dom_rows dmn = Some rs" "rowsMeasure dmn = Some rm"
    and wh: "where_clause clock owner q dmn rm = Inr (conjs, args, n)"
  obtain args' where wh': "where_clause clock' owner' (blank q) dmn rm = Inr (conjs, args', n)" "length args' = length args"
    using where_clause_blank [of clock' owner' q dmn rm clock owner] wh by (auto simp: text_of_Inr)
  have "q_having (blank q) = None \<longleftrightarrow> q_having q = None"
    by simp
  with assms rs wh wh' show ?thesis
    by (auto simp: compileRowsSQL_def Let_def blank_frame case_prod_unfold split: if_splits)
qed

text \<open>
  C11 No value of a request influences the SQL text: the text of an accepted query is that of the same
  query with every predicate value, range bound and having threshold blanked and any other owner
  and clock, and it takes as many arguments. User data travels in the arguments only.
\<close>

theorem compile_values_not_in_text:
  assumes "Compile reg clock owner q = Inr (sql, args)" "owner' \<noteq> []"
  shows "\<exists>args'. Compile reg clock' owner' (blank q) = Inr (sql, args') \<and> length args' = length args"
  using assms(1)
proof (rule Compile_cases)
  fix dmn
  assume d: "lookupDomain reg (q_domain q) = Some dmn" "range_validate (q_rng q) = None"
    and rows: "q_rowsMode q \<Longrightarrow> \<exists>cnt. compileRowsSQL clock owner q dmn = Inr (sql, cnt, args)"
    and agg: "\<not> q_rowsMode q \<Longrightarrow> compileAggregate clock owner q dmn = Inr (sql, args)"
  show ?thesis
  proof (cases "q_rowsMode q")
    case True
    with rows obtain cnt where "compileRowsSQL clock owner q dmn = Inr (sql, cnt, args)"
      by blast
    from rows_blank [OF this assms(2), of clock'] True d assms(2) show ?thesis
      by (auto simp: Compile_def)
  next
    case False
    with agg aggregate_blank [of clock owner q dmn sql args clock' owner'] d assms(2) show ?thesis
      by (auto simp: Compile_def)
  qed
qed

theorem compile_values_not_in_text_witness:
  "\<exists>args'. Compile builtin_domains 5 ''bob'' (blank demo_query) = Inr (demo_sql, args') \<and>
           length args' = length demo_args"
  by (rule compile_values_not_in_text [OF demo_compiles]) simp

section \<open>Names are whitelisted\<close>

fun leaf_dims :: "predicate \<Rightarrow> string set" where
  "leaf_dims (Predicate k dm op vs ps) =
     (if k = ''leaf'' then {dm}
      else \<Union> (set (map (\<lambda>x. case x of None \<Rightarrow> {} | Some p \<Rightarrow> leaf_dims p) ps)))"

lemma buildPredicate_dims:
  "buildPredicate p m dmn args nxt = Inr r \<Longrightarrow> leaf_dims p \<subseteq> {d. supportsDim m d \<and> aget (dom_dimensions dmn) d \<noteq> None}"
  "buildAll ps m dmn args nxt = Inr rs \<Longrightarrow>
     \<forall>p. Some p \<in> set ps \<longrightarrow> leaf_dims p \<subseteq> {d. supportsDim m d \<and> aget (dom_dimensions dmn) d \<noteq> None}"
proof (induction p m dmn args nxt and ps m dmn args nxt arbitrary: r and rs
    rule: buildPredicate_buildAll.induct)
  case (1 k dm op vs ps m dmn args nxt)
  consider (leaf) "k = ''leaf''" | (junct) "k = ''and'' \<or> k = ''or''" "ps \<noteq> []" | (neg) c where "k = ''not''" "ps = [Some c]"
    using "1.prems" by (auto simp: buildPredicate.simps split: if_splits list.splits option.splits)
  then show ?case
  proof cases
    case leaf
    with "1.prems" show ?thesis
      by (auto simp: buildPredicate.simps buildLeaf_def split: option.splits if_splits)
  next
    case junct
    then have k: "k \<noteq> ''leaf''" by auto
    obtain rs where "buildAll ps m dmn args nxt = Inr rs"
      using junct "1.prems" by (auto simp: buildPredicate.simps rbind_Inr_iff)
    from "1.IH"(1) [OF k junct this] k show ?thesis
      by (fastforce split: option.splits)
  next
    case neg
    obtain r' where "buildPredicate c m dmn args nxt = Inr r'"
      using neg "1.prems" by (auto simp: buildPredicate.simps rbind_Inr_iff)
    then have "leaf_dims c \<subseteq> {d. supportsDim m d \<and> aget (dom_dimensions dmn) d \<noteq> None}"
      using neg by (intro "1.IH"(2)) auto
    with neg show ?thesis by simp
  qed
next
  case (4 c ps m dmn args nxt)
  obtain f a n fs where b: "buildPredicate c m dmn args nxt = Inr (f, a, n)" "buildAll ps m dmn a n = Inr fs"
    using "4.prems" by (auto simp: buildAll.simps rbind_Inr_iff)
  from "4.IH"(1) [OF b(1)] "4.IH"(2) [OF b(2)] show ?case by auto
qed (auto simp: buildAll.simps)

lemma where_clause_pred:
  assumes "where_clause clock owner q dmn m = Inr r" "q_where q = Some p"
  shows "\<exists>w a n. where_pred (Some p) m dmn w a n = Inr r"
proof -
  have "\<exists>w1 a1 n1. where_clause clock owner q dmn m = where_pred (q_where q) m dmn w1 a1 n1"
  proof (cases "range_isZero (q_rng q)")
    case True
    then show ?thesis by (auto simp: where_clause_def)
  next
    case False
    from resolveRange_some [OF this] obtain s e where "resolveRange (anchor clock q) (q_gran q) (q_rng q) = Some (s, e)"
      by blast
    with False show ?thesis by (auto simp: where_clause_def)
  qed
  with assms show ?thesis by metis
qed

text \<open>
  An accepted aggregate query uses a registered measure, and its group and every dimension its
  predicate filters on are registered and on that measure's whitelist; every rollup is a measure
  over the same table with the same owner and date columns.
\<close>

lemma compile_whitelisted:
  assumes "Compile reg clock owner q = Inr (sql, args)" "\<not> q_rowsMode q"
  shows "\<exists>dmn m. lookupDomain reg (q_domain q) = Some dmn \<and> aget (dom_measures dmn) (q_measure q) = Some m \<and>
     (q_group q = [] \<or> supportsDim m (q_group q)) \<and>
     (\<forall>p. q_where q = Some p \<longrightarrow> leaf_dims p \<subseteq> {d. supportsDim m d}) \<and>
     (\<forall>name\<in>set (q_rollups q). \<exists>rm. aget (dom_measures dmn) name = Some rm \<and> m_table rm = m_table m \<and>
        m_ownerCol rm = m_ownerCol m \<and> m_dateCol rm = m_dateCol m)"
proof -
  obtain dmn where d: "lookupDomain reg (q_domain q) = Some dmn" "compileAggregate clock owner q dmn = Inr (sql, args)"
    using assms by (auto elim: Compile_cases)
  from d(2) show ?thesis
  proof (rule aggregate_parts)
    fix m axis gb rollups conjs a1 n1 having ob
    assume m: "aget (dom_measures dmn) (q_measure q) = Some m"
      and ax: "select_axis q dmn m = Inr (axis, gb)" and ro: "select_rollups q dmn m = Inr rollups"
      and wh: "where_clause clock owner q dmn m = Inr (conjs, a1, n1)"
    have "rollup_cols q dmn m ns = Inr cs \<Longrightarrow> \<forall>name\<in>set ns. \<exists>rm. aget (dom_measures dmn) name = Some rm \<and>
        m_table rm = m_table m \<and> m_ownerCol rm = m_ownerCol m \<and> m_dateCol rm = m_dateCol m" for ns cs
      by (induction ns arbitrary: cs) (auto simp: rbind_Inr_iff split: option.splits if_splits)
    then have "\<forall>name\<in>set (q_rollups q). \<exists>rm. aget (dom_measures dmn) name = Some rm \<and>
        m_table rm = m_table m \<and> m_ownerCol rm = m_ownerCol m \<and> m_dateCol rm = m_dateCol m"
      using ro by (auto simp: select_rollups_def rbind_Inr_iff split: if_splits)
    moreover have "leaf_dims p \<subseteq> {d. supportsDim m d}" if p: "q_where q = Some p" for p
    proof -
      obtain w a n r where "where_pred (Some p) m dmn w a n = Inr r"
        using where_clause_pred [OF wh p] by blast
      then obtain r' where "buildPredicate p m dmn a n = Inr r'"
        by (auto simp: where_pred_def rbind_Inr_iff)
      from buildPredicate_dims(1) [OF this] show ?thesis by auto
    qed
    moreover have "q_group q = [] \<or> supportsDim m (q_group q)"
      using ax by (auto simp: select_axis_def split: option.splits if_splits)
    ultimately show ?thesis
      using d(1) m by blast
  qed
qed

lemma compile_whitelisted_witness:
  "\<exists>m. aget (dom_measures registerCoding) ''seconds'' = Some m \<and> supportsDim m ''project'' \<and>
       {''language'', ''branch''} \<subseteq> {d. supportsDim m d}"
proof -
  have d: "lookupDomain builtin_domains (q_domain demo_query) = Some registerCoding" "q_measure demo_query = ''seconds''"
    "q_group demo_query = ''project''" "\<not> q_rowsMode demo_query"
    "q_where demo_query = Some (Or [Some (Leaf ''language'' ''eq'' [''go'']), Some (Leaf ''branch'' ''ilike'' [''fix_'', ''%''])])"
    by (simp_all add: lookupDomain_def builtin_domains_def demo_query_def builder_defs Q_def)
  have "leaf_dims (Or [Some (Leaf ''language'' ''eq'' [''go'']), Some (Leaf ''branch'' ''ilike'' [''fix_'', ''%''])]) =
      {''language'', ''branch''}"
    by (auto simp: Or_def Leaf_def)
  with compile_whitelisted [OF demo_compiles d(4)] show ?thesis
    unfolding d by auto
qed

end
