(* ===== verification/QueryBehaviour.thy ===== *)
theory QueryBehaviour
  imports QueryProps
begin

text \<open>
  The behaviour of the query engine around the compiler: time windows, the ILIKE literal, the bucket
  policy, pagination, the built-in domains and the endpoint.
\<close>

section \<open>Windows\<close>

lemma resolveRange_lastN:
  assumes "time_is_zero (r_start r)" "time_is_zero (r_end r)" "r_lastN r \<noteq> 0"
  shows "resolveRange now gran r = Some
    ((let e = midnight now; n = max 1 (r_lastN r) in
      if gran = ''week'' then weekStart (e - 7 * (n - 1) * day_ns)
      else if gran = ''month'' then AddDate (Date (year_of e) (month_of e) 1) 0 (- (n - 1)) 0
      else e - (n - 1) * day_ns), midnight now)"
proof -
  have "(if r_lastN r < 1 then 1 else r_lastN r) = max 1 (r_lastN r)"
    by (simp add: max_def)
  then show ?thesis
    using assms by (simp add: resolveRange_def range_isZero_def Let_def date_midnight AddDate_days algebra_simps)
qed

lemma weekStart_spec:
  "midnight (weekStart t) = weekStart t \<and> Weekday (weekStart t) = 1 \<and> weekStart t \<le> t \<and>
   t < weekStart t + 7 * day_ns"
proof -
  define wd where "wd = (Weekday (midnight t) + 6) mod 7"
  have ws: "weekStart t = (day_no t - wd) * day_ns"
    by (simp add: weekStart_def Let_def date_midnight AddDate_days wd_def midnight_def algebra_simps)
  have wd: "0 \<le> wd" "wd \<le> 6"
    by (simp_all add: wd_def)
  have "midnight t = day_no t * day_ns"
    by (simp add: midnight_def)
  moreover have "0 \<le> wd * day_ns" "wd * day_ns \<le> 6 * day_ns"
    using wd by (simp_all add: mult_right_mono less_imp_le [OF day_ns_pos])
  ultimately have "weekStart t \<le> t" "t < weekStart t + 7 * day_ns"
    using midnight_le [of t] midnight_next [of t] unfolding ws left_diff_distrib by linarith+
  moreover have "(day_no t - wd + 4) mod 7 = 1"
    unfolding wd_def Weekday_def by (simp add: midnight_def) presburger
  ultimately show ?thesis
    by (simp add: ws Weekday_def midnight_def)
qed

text \<open>
  "The last n units" is the window it says: it ends on the anchor's day, starts on a midnight, and
  spans n days, or starts on the Monday of the week n-1 weeks back, or on the first of the month
  n-1 months back; the half-open bound the query uses contains the anchor itself.
\<close>

lemma lastN_window:
  assumes "n \<noteq> 0"
  shows "\<exists>s. resolveRange now gran (LastN n) = Some (s, midnight now) \<and> midnight s = s \<and>
     (let k = max 1 n in
      if gran = ''week''
      then Weekday s = 1 \<and> s \<le> midnight now - 7 * (k - 1) * day_ns \<and>
           midnight now - 7 * (k - 1) * day_ns < s + 7 * day_ns
      else if gran = ''month''
      then day_of s = 1 \<and> month_index s = month_index now - (k - 1)
      else s = midnight now - (k - 1) * day_ns) \<and>
     s \<le> now \<and> now < endExclusive (midnight now)"
proof -
  define k where "k = max 1 n"
  define e where "e = midnight now"
  have k: "1 \<le> k"
    by (simp add: k_def)
  define s where "s = (if gran = ''week'' then weekStart (e - 7 * (k - 1) * day_ns)
      else if gran = ''month'' then AddDate (Date (year_of e) (month_of e) 1) 0 (- (k - 1)) 0
      else e - (k - 1) * day_ns)"
  have r: "resolveRange now gran (LastN n) = Some (s, midnight now)"
    using assms resolveRange_lastN [of "LastN n" now gran]
    by (simp add: LastN_def zero_range_def time_is_zero_def s_def k_def e_def Let_def)
  have e: "e \<le> now" "now < endExclusive e" "midnight e = e"
    using midnight_le midnight_next by (simp_all add: e_def endExclusive_def date_midnight AddDate_days)
  have bk: "e - c * (k - 1) * day_ns \<le> e" if "0 \<le> c" for c
    using k that less_imp_le [OF day_ns_pos] by (simp add: mult_nonneg_nonneg)
  have mid: "midnight (e - c * day_ns) = e - c * day_ns" for c
    using midnight_shift [of e "- c"] e(3) by simp
  have dn: "day_no e = day_no now"
    by (simp add: e_def midnight_def)
  consider (week) "gran = ''week''" | (month) "gran = ''month''" | (day) "gran \<noteq> ''week''" "gran \<noteq> ''month''"
    by blast
  then show ?thesis
  proof cases
    case week
    have "weekStart (e - 7 * (k - 1) * day_ns) \<le> now"
      using weekStart_spec [of "e - 7 * (k - 1) * day_ns"] bk [of 7] e(1) by linarith
    with week weekStart_spec [of "e - 7 * (k - 1) * day_ns"] bk [of 7] e r show ?thesis
      by (auto simp: s_def k_def e_def Let_def)
  next
    case month
    define f where "f = Date (year_of e) (month_of e) 1"
    have f: "month_index f = month_index now" "day_of f = 1" "f mod day_ns = 0"
      using Date_first [of "year_of e" "month_of e"]
      by (auto simp: f_def Date_def month_index_def year_of_def month_of_def dn)
    have s: "s = Date (year_of f) (month_of f - (k - 1)) 1"
      using month f(2,3) by (simp add: s_def f_def [symmetric] AddDate_def algebra_simps)
    have si: "month_index s = month_index now - (k - 1)" "day_of s = 1"
      using Date_first [of "year_of f" "month_of f - (k - 1)"] f(1) by (simp_all add: s month_index_def)
    have sm: "s = month_start (month_index now - int (nat (k - 1))) * day_ns"
      using Date_month_start [of "year_of f" "month_of f - (k - 1)"] f(1) k
      by (simp add: s month_index_def algebra_simps)
    have "s \<le> month_start (month_index now) * day_ns"
      unfolding sm by (intro mult_right_mono month_start_mono) (simp add: less_imp_le [OF day_ns_pos])
    then have "s \<le> now"
      using month_first_le [of now] midnight_le [of now] by linarith
    with month si r e show ?thesis
      by (simp add: k_def e_def Let_def) (simp add: s midnight_def Date_def)
  next
    case day
    with bk [of 1] mid [of "k - 1"] e r show ?thesis
      by (auto simp: s_def k_def e_def Let_def)
  qed
qed

text \<open>The witness: the last two weeks before the first minutes of 1970-01-08.\<close>

lemma lastN_window_witness:
  "\<exists>s. resolveRange (7 * day_ns + minutes 5) ''week'' (LastN 2) = Some (s, 7 * day_ns) \<and> Weekday s = 1 \<and> s \<le> 0"
proof -
  have "midnight (7 * day_ns + minutes 5) = 7 * day_ns"
    by (simp add: midnight_def day_no_def day_ns_def minutes_def)
  with lastN_window [of 2 "7 * day_ns + minutes 5" "''week''"] show ?thesis
    by auto
qed

text \<open>
  An explicit window is inclusive of its end: the exclusive bound the query uses is after the end
  by at most a day, and it is a midnight, so no row at or before the end is dropped.
\<close>

lemma between_window:
  assumes "range_validate (Between s e) = None" "\<not> range_isZero (Between s e)"
  shows "resolveRange now gran (Between s e) = Some (s, e) \<and> s \<le> e \<and> e < endExclusive e \<and>
         endExclusive e \<le> e + day_ns \<and> midnight (endExclusive e) = endExclusive e"
proof -
  have "endExclusive e = midnight e + day_ns"
    by (simp add: endExclusive_def date_midnight AddDate_days)
  moreover have "midnight (midnight e + 1 * day_ns) = midnight e + 1 * day_ns"
    by (subst midnight_shift) simp
  moreover have "resolveRange now gran (Between s e) = Some (s, e)" "s \<le> e"
    using assms by (auto simp: resolveRange_def range_validate_def range_isZero_def Between_def zero_range_def
        time_is_zero_def split: if_splits)
  ultimately show ?thesis
    using midnight_le [of e] midnight_next [of e] by simp
qed

lemma between_window_witness: "minutes 5 < endExclusive (minutes 5) \<and> endExclusive (minutes 5) \<le> minutes 5 + day_ns"
proof -
  have "range_validate (Between 0 (minutes 5)) = None" "\<not> range_isZero (Between 0 (minutes 5))"
    by (simp_all add: range_validate_def Between_def zero_range_def time_is_zero_def zero_time_def minutes_def
        range_isZero_def)
  from between_window [OF this, of 0 "''none''"] show ?thesis by simp
qed

section \<open>Literal substrings\<close>

lemma escapeLikeLiteral_append: "escapeLikeLiteral (u @ v) = escapeLikeLiteral u @ escapeLikeLiteral v"
  by (induction u) auto

text \<open>
  An ilike filter means "contains this text": for any matcher with the documented rules of LIKE
  patterns (percent matches any run, a backslash takes the next character literally, a plain
  character matches itself), the pattern the query builds around an escaped value matches exactly
  the strings that contain the value, wildcards and backslashes included.
\<close>

lemma ilike_is_substring:
  assumes nil: "\<And>s. like [] s \<longleftrightarrow> s = []"
    and pct: "\<And>p s. like (CHR ''%'' # p) s \<longleftrightarrow> (\<exists>u v. s = u @ v \<and> like p v)"
    and esc: "\<And>c p s. like (bslash # c # p) s \<longleftrightarrow> (\<exists>v. s = c # v \<and> like p v)"
    and plain: "\<And>c p s. c \<noteq> CHR ''%'' \<Longrightarrow> c \<noteq> CHR ''_'' \<Longrightarrow> c \<noteq> bslash \<Longrightarrow>
                  like (c # p) s \<longleftrightarrow> (\<exists>v. s = c # v \<and> like p v)"
  shows "like (''%'' @ escapeLikeLiteral x @ ''%'') s \<longleftrightarrow> (\<exists>u v. s = u @ x @ v)"
proof -
  have lit: "like (escapeLikeLiteral x @ p) s \<longleftrightarrow> (\<exists>v. s = x @ v \<and> like p v)" for p s
  proof (induction x arbitrary: s)
    case (Cons c x)
    have "like (escapeLikeLiteral (c # x) @ p) s \<longleftrightarrow> (\<exists>v. s = c # v \<and> like (escapeLikeLiteral x @ p) v)"
      using plain [of c] esc by (auto simp: bslash_def)
    with Cons show ?case by auto
  qed simp
  have "like ''%'' v" for v
    using pct [of "[]" v] nil by auto
  then show ?thesis
    using lit [of "''%''"] by (simp add: pct) blast
qed

text \<open>A matcher with those rules, for the witness.\<close>

fun like_match :: "string \<Rightarrow> string \<Rightarrow> bool" where
  "like_match [] s \<longleftrightarrow> s = []"
| "like_match (c # p) s \<longleftrightarrow>
     (if c = CHR ''%'' then list_ex (\<lambda>k. like_match p (drop k s)) [0..<Suc (length s)]
      else if c = bslash then (case p of [] \<Rightarrow> False | d # p' \<Rightarrow> s \<noteq> [] \<and> hd s = d \<and> like_match p' (tl s))
      else s \<noteq> [] \<and> (c = CHR ''_'' \<or> hd s = c) \<and> like_match p (tl s))"

lemma like_match_pct: "like_match (CHR ''%'' # p) s \<longleftrightarrow> (\<exists>u v. s = u @ v \<and> like_match p v)"
proof
  assume "like_match (CHR ''%'' # p) s"
  then obtain k where "k \<in> set [0..<Suc (length s)]" "like_match p (drop k s)"
    unfolding like_match.simps if_P [OF refl] list_ex_iff by blast
  then show "\<exists>u v. s = u @ v \<and> like_match p v"
    by (intro exI [of _ "take k s"] exI [of _ "drop k s"]) simp
next
  assume "\<exists>u v. s = u @ v \<and> like_match p v"
  then obtain u v where "s = u @ v" "like_match p v" by blast
  then show "like_match (CHR ''%'' # p) s"
    by (auto simp: list_ex_iff intro!: bexI [of _ "length u"])
qed

lemma ilike_is_substring_witness:
  "like_match (''%'' @ escapeLikeLiteral ''a_b'' @ ''%'') ''xa_by'' \<and>
   \<not> like_match (''%'' @ escapeLikeLiteral ''a_b'' @ ''%'') ''xacby''"
proof -
  have rules: "like_match (bslash # c # p) s \<longleftrightarrow> (\<exists>v. s = c # v \<and> like_match p v)"
    "c \<noteq> CHR ''%'' \<Longrightarrow> c \<noteq> CHR ''_'' \<Longrightarrow> c \<noteq> bslash \<Longrightarrow>
       like_match (c # p) s \<longleftrightarrow> (\<exists>v. s = c # v \<and> like_match p v)" for c p s
    by (cases s; simp add: bslash_def)+
  have sub: "like_match (''%'' @ escapeLikeLiteral x @ ''%'') s \<longleftrightarrow> (\<exists>u v. s = u @ x @ v)" for x s
    by (rule ilike_is_substring) (use like_match_pct rules in auto)
  have "''xa_by'' = ''x'' @ ''a_b'' @ ''y''" by simp
  moreover have "\<not> (\<exists>u v. ''xacby'' = u @ ''a_b'' @ v)"
  proof
    assume "\<exists>u v. ''xacby'' = u @ ''a_b'' @ v"
    then have "CHR ''_'' \<in> set ''xacby''"
      by (metis (no_types) Un_iff insertI1 insertI2 list.simps(15) set_append)
    then show False by simp
  qed
  ultimately show ?thesis
    using sub by metis
qed

end
