(* ===== verification/QueryEndpoint.thy ===== *)
theory QueryEndpoint
  imports QueryBehaviour
begin

text \<open>
  The grouped result (bucket policy, canonical pins), pagination, the built-in domains and the HTTP
  endpoint over the query engine.
\<close>

section \<open>The bucket policy\<close>

interpretation value_desc: strict_weak "\<lambda>a b :: group. g_value b < g_value a"
  by (rule strict_weak_key_desc)

definition is_pinned :: "bucketPolicy \<Rightarrow> group \<Rightarrow> bool" where
  "is_pinned p g \<longleftrightarrow> to_lower (g_key g) \<in> to_lower ` set (bp_pin p)"

text \<open>Which groups the loop keeps and which it rolls up.\<close>

fun split_groups :: "(group \<Rightarrow> bool) \<Rightarrow> int \<Rightarrow> int \<Rightarrow> group list \<Rightarrow> group list \<times> group list" where
  "split_groups pin topN n [] = ([], [])"
| "split_groups pin topN n (g # gs) =
     (if pin g then map_prod ((#) g) id (split_groups pin topN n gs)
      else if topN \<le> 0 \<or> n < topN then map_prod ((#) g) id (split_groups pin topN (n + 1) gs)
      else map_prod id ((#) g) (split_groups pin topN n gs))"

definition roll_stats :: "group list \<Rightarrow> stats option \<Rightarrow> stats option" where
  "roll_stats gs st = fold (\<lambda>g st. case g_stats g of None \<Rightarrow> st | Some s \<Rightarrow> add_stats s st) gs st"

lemma bucket_loop_split:
  "bucket_loop (to_lower ` set (bp_pin p)) topN gs kept other st n =
     (case split_groups (is_pinned p) topN n gs of
        (K, R) \<Rightarrow> (kept @ K, other + sum_list (map g_value R), roll_stats R st))"
  by (induction gs arbitrary: kept other st n)
     (auto simp: is_pinned_def roll_stats_def case_prod_unfold algebra_simps split: option.splits)

lemma split_mset: "split_groups pin topN n gs = (K, R) \<Longrightarrow> mset gs = mset K + mset R"
  by (induction pin topN n gs arbitrary: K R rule: split_groups.induct)
     (fastforce simp: map_prod_def split: if_splits prod.splits)+

lemma split_pinned: "split_groups pin topN n gs = (K, R) \<Longrightarrow> filter pin K = filter pin gs"
  by (induction pin topN n gs arbitrary: K R rule: split_groups.induct)
     (fastforce simp: map_prod_def split: if_splits prod.splits)+

lemma split_all: "split_groups pin topN n gs = (K, R) \<Longrightarrow> topN \<le> 0 \<Longrightarrow> K = gs"
  by (induction pin topN n gs arbitrary: K R rule: split_groups.induct)
     (auto simp: map_prod_def split: if_splits prod.splits)

lemma split_top:
  "split_groups pin topN n gs = (K, R) \<Longrightarrow> 0 < topN \<Longrightarrow>
     filter (\<lambda>g. \<not> pin g) K = take (nat (topN - n)) (filter (\<lambda>g. \<not> pin g) gs)"
proof (induction pin topN n gs arbitrary: K R rule: split_groups.induct)
  case (2 pin topN n g gs)
  consider (pin) "pin g" | (kept) "\<not> pin g" "n < topN" | (rolled) "\<not> pin g" "\<not> n < topN"
    by blast
  then show ?case
  proof cases
    case pin
    then obtain K' where K': "split_groups pin topN n gs = (K', R)" "K = g # K'"
      using "2.prems"(1) by (cases "split_groups pin topN n gs") auto
    show ?thesis
      using "2.IH"(1) [OF pin K'(1) "2.prems"(2)] pin by (simp add: K'(2))
  next
    case kept
    then obtain K' where K': "split_groups pin topN (n + 1) gs = (K', R)" "K = g # K'"
      using "2.prems"(1) by (cases "split_groups pin topN (n + 1) gs") auto
    have c: "topN \<le> 0 \<or> n < topN" and suc: "nat (topN - n) = Suc (nat (topN - (n + 1)))"
      using kept(2) by simp_all
    show ?thesis
      using "2.IH"(2) [OF kept(1) c K'(1) "2.prems"(2)] kept(1) by (simp add: K'(2) suc)
  next
    case rolled
    have c: "\<not> (topN \<le> 0 \<or> n < topN)"
      using rolled(2) "2.prems"(2) by simp
    then obtain R' where R': "split_groups pin topN n gs = (K, R')"
      using "2.prems"(1) rolled(1) by (cases "split_groups pin topN n gs") auto
    show ?thesis
      using "2.IH"(3) [OF rolled(1) c R' "2.prems"(2)] rolled by simp
  qed
qed simp

lemma applyBucketPolicy_split:
  assumes "split_groups (is_pinned p) (bp_topN p) 0 gs = (K, R)"
  shows "applyBucketPolicy gs p = slice_stable (\<lambda>a b. g_value b < g_value a) K @
     (if bp_other p \<and> (sum_list (map g_value R) > 0 \<or> roll_stats R None \<noteq> None)
      then [\<lparr>g_key = ''Other'', g_value = sum_list (map g_value R), g_stats = roll_stats R None\<rparr>] else [])"
  by (simp add: applyBucketPolicy_def bucket_loop_split assms image_image)


text \<open>
  With the "Other" group on, the bucket policy loses nothing: the values of the answer add up to
  those of the groups, as long as no group is negative.
\<close>

lemma bucket_policy_total:
  assumes "bp_other p" "\<forall>g\<in>set gs. 0 \<le> g_value g"
  shows "sum_list (map g_value (applyBucketPolicy gs p)) = sum_list (map g_value gs)"
proof -
  obtain K R where s: "split_groups (is_pinned p) (bp_topN p) 0 gs = (K, R)"
    by (cases "split_groups (is_pinned p) (bp_topN p) 0 gs")
  have m: "mset gs = mset K + mset R"
    using s by (rule split_mset)
  have sum: "sum_list (map g_value xs) = sum_mset (image_mset g_value (mset xs))" for xs :: "group list"
    by (metis mset_map sum_mset_sum_list)
  have "\<forall>g\<in>set R. 0 \<le> g_value g"
    using assms(2) m by (metis mset_eq_setD set_append mset_append Un_iff)
  then have "0 \<le> sum_list (map g_value R)"
    by (intro sum_list_nonneg) auto
  then have "sum_list (map g_value (applyBucketPolicy gs p)) = sum_list (map g_value K) + sum_list (map g_value R)"
    using assms(1) by (auto simp: applyBucketPolicy_split [OF s] sum [of "slice_stable _ K"] sum [of K])
  also have "\<dots> = sum_list (map g_value gs)"
    by (simp add: sum m)
  finally show ?thesis .
qed

definition demo_groups :: "group list" where
  "demo_groups = [\<lparr>g_key = ''a'', g_value = 5, g_stats = None\<rparr>, \<lparr>g_key = ''b'', g_value = 3, g_stats = None\<rparr>,
     \<lparr>g_key = ''C'', g_value = 2, g_stats = None\<rparr>, \<lparr>g_key = ''d'', g_value = 1, g_stats = None\<rparr>]"

lemma bucket_policy_total_witness:
  "sum_list (map g_value (applyBucketPolicy demo_groups \<lparr>bp_topN = 1, bp_pin = [''c''], bp_other = True\<rparr>)) = 11"
  using bucket_policy_total [of "\<lparr>bp_topN = 1, bp_pin = [''c''], bp_other = True\<rparr>" demo_groups]
  by (simp add: demo_groups_def)

text \<open>
  A synthesised pin policy (no bucket in the request, saved pins on the axis) keeps every group,
  but it always answers in order of decreasing value: a listing the request asked to be sorted
  otherwise, by key for instance, is reordered.
\<close>

lemma pins_resort_by_value:
  "applyBucketPolicy gs \<lparr>bp_topN = 0, bp_pin = pins, bp_other = False\<rparr> =
     slice_stable (\<lambda>a b. g_value b < g_value a) gs \<and>
   applyBucketPolicy (rev demo_groups) \<lparr>bp_topN = 0, bp_pin = pins, bp_other = False\<rparr> = demo_groups \<and>
   rev demo_groups \<noteq> demo_groups"
proof -
  let ?p = "\<lparr>bp_topN = 0, bp_pin = pins, bp_other = False\<rparr>"
  have all: "applyBucketPolicy gs ?p = slice_stable (\<lambda>a b. g_value b < g_value a) gs" for gs
  proof -
    have "split_groups pin 0 n gs = (gs, [])" for pin n
      by (induction gs arbitrary: n) auto
    from applyBucketPolicy_split [of ?p gs gs "[]"] this show ?thesis by simp
  qed
  then show ?thesis
    by (simp add: demo_groups_def)
qed

section \<open>Pagination\<close>

text \<open>
  A page request is repaired to a positive size and a page number of at least one, so the offset
  is the number of rows before the page and never negative, as long as the product fits an int64.
\<close>

lemma page_window_bounds:
  assumes "page_window q = (sz, off)" "max 1 (q_page q) * sz < 2 ^ 63" "q_page q < 2 ^ 63"
  shows "1 \<le> sz \<and> off = (max 1 (q_page q) - 1) * sz \<and> 0 \<le> off"
proof -
  have sz: "sz = (if q_pageSize q \<le> 0 then 50 else q_pageSize q)" "1 \<le> sz"
    and off: "off = int64 ((max 1 (q_page q) - 1) * sz)"
    using assms(1) by (auto simp: page_window_def Let_def max_def split: if_splits)
  have nn: "0 \<le> (max 1 (q_page q) - 1) * sz"
    using sz(2) by simp
  moreover have "(max 1 (q_page q) - 1) * sz \<le> max 1 (q_page q) * sz"
    using sz(2) by (intro mult_right_mono) simp_all
  ultimately have "int64 ((max 1 (q_page q) - 1) * sz) = (max 1 (q_page q) - 1) * sz"
    using assms(2) by (intro int64_id) simp_all
  with sz(2) nn show ?thesis by (simp add: off)
qed

lemma page_window_bounds_witness: "page_window (Page (Rows (Q ''reading'')) 3 20) = (20, 40)"
proof -
  obtain sz off where p: "page_window (Page (Rows (Q ''reading'')) 3 20) = (sz, off)"
    by (cases "page_window (Page (Rows (Q ''reading'')) 3 20)")
  have sel: "q_page (Page (Rows (Q ''reading'')) 3 20) = 3" "q_pageSize (Page (Rows (Q ''reading'')) 3 20) = 20"
    by (simp_all add: builder_defs)
  with p have sz: "sz = 20"
    by (simp add: page_window_def Let_def)
  from page_window_bounds [OF p] show ?thesis
    by (simp add: p sel sz)
qed

text \<open>
  Outside that bound the offset wraps: a page number of 2^62 + 1 with size 2 gives a negative
  OFFSET, which is accepted by the compiler.
\<close>

lemma page_offset_overflow:
  "snd (page_window (Page (Rows (Q ''reading'')) (2 ^ 62 + 1) 2)) = - (2 ^ 63) \<and>
   is_ok (Compile builtin_domains 0 ''ann'' (Page (Rows (Q ''reading'')) (2 ^ 62 + 1) 2))"
proof -
  have "range_validate zero_range = None" "range_isZero zero_range"
    by (simp_all add: range_validate_def range_isZero_def zero_range_def time_is_zero_def)
  then show ?thesis
    by (simp add: builder_defs Q_def page_window_def int64_def Compile_def lookupDomain_def builtin_domains_def
        compileRowsSQL_def registerReading_def rowsMeasure_def where_clause_def where_pred_def)
qed

section \<open>The built-in domains\<close>

text \<open>
  The init function registers the four built-in domains without a clash, and each of them is
  coherent: measure and dimension keys agree with their names, every whitelist names a registered
  dimension, leaf rows project distinct columns and list a table some measure vets.
\<close>

lemma builtin_domains_coherent:
  "\<exists>reg. builtin = Some reg \<and> length reg = 4 \<and> list_all (\<lambda>(n, d). dom_name d = n \<and> coherent d) reg"
proof -
  have "coherent registerCoding"
    by (simp add: coherent_def registerCoding_def measure_ok_def axes_def)
  moreover have "coherent registerReading"
    by (simp add: coherent_def registerReading_def measure_ok_def)
  moreover have "coherent registerReadingEvents"
    by (simp add: coherent_def registerReadingEvents_def measure_ok_def)
  moreover have "coherent registerAnnotations"
    by (simp add: coherent_def registerAnnotations_def measure_ok_def)
  ultimately show ?thesis
    by (simp add: builtin_eq builtin_domains_def)
       (simp add: registerCoding_def registerReading_def registerReadingEvents_def registerAnnotations_def)
qed

section \<open>The endpoint\<close>

fun node_has_null :: "predicateNode \<Rightarrow> bool" where
  "node_has_null (PredicateNode k dm op vs ps) =
     list_ex (\<lambda>x. case x of None \<Rightarrow> True | Some n \<Rightarrow> node_has_null n) ps"

fun pred_has_nil :: "predicate \<Rightarrow> bool" where
  "pred_has_nil (Predicate k dm op vs ps) =
     list_ex (\<lambda>x. case x of None \<Rightarrow> True | Some n \<Rightarrow> pred_has_nil n) ps"

lemma toPredicate_nil: "pred_has_nil (toPredicate n) = node_has_null n"
proof (induction n)
  case (PredicateNode k dm op vs ps)
  have "(case map_option toPredicate x of None \<Rightarrow> True | Some n \<Rightarrow> pred_has_nil n) =
      (case x of None \<Rightarrow> True | Some n \<Rightarrow> node_has_null n)" if "x \<in> set ps" for x
    using PredicateNode that by (cases x) auto
  then show ?case
    by (simp add: list_ex_iff)
qed

lemma buildPredicate_nil:
  "buildPredicate p m dmn args nxt = Inl NilPanic \<Longrightarrow> pred_has_nil p"
  "buildAll ps m dmn args nxt = Inl NilPanic \<Longrightarrow> \<exists>x\<in>set ps. case x of None \<Rightarrow> True | Some n \<Rightarrow> pred_has_nil n"
proof (induction p m dmn args nxt and ps m dmn args nxt rule: buildPredicate_buildAll.induct)
  case (1 k dm op vs ps m dmn args nxt)
  then show ?case
    by (auto simp: buildPredicate.simps buildLeaf_def rbind_Inl_iff list_ex_iff in_loop_eq ilike_loop_eq
        simp del: upt_Suc split: if_splits list.splits option.splits)
next
  case (4 c ps m dmn args nxt)
  then show ?case
    by (auto simp: buildAll.simps rbind_Inl_iff)
qed (auto simp: buildAll.simps)

lemma where_clause_nil:
  assumes "where_clause clock owner q dmn m = Inl NilPanic"
  shows "\<exists>p. q_where q = Some p \<and> pred_has_nil p"
proof -
  have "\<exists>w1 a1 n1. where_clause clock owner q dmn m = where_pred (q_where q) m dmn w1 a1 n1"
  proof (cases "range_isZero (q_rng q)")
    case True
    then show ?thesis by (auto simp: where_clause_def)
  next
    case False
    from resolveRange_some [OF this] obtain s e where "resolveRange (anchor clock q) (q_gran q) (q_rng q) = Some (s, e)"
      by blast
    with False show ?thesis by (auto simp: where_clause_def)
  qed
  then obtain w1 a1 n1 where "where_pred (q_where q) m dmn w1 a1 n1 = Inl NilPanic"
    using assms by auto
  then show ?thesis
    by (auto simp: where_pred_def rbind_Inl_iff dest: buildPredicate_nil(1) split: option.splits)
qed

lemma select_no_panic:
  "select_axis q dmn m \<noteq> Inl NilPanic" "rollup_cols q dmn m ns \<noteq> Inl NilPanic"
  "having_clause q m gb a n \<noteq> Inl NilPanic" "orderBy q gr se \<noteq> Inl NilPanic"
proof -
  show "rollup_cols q dmn m ns \<noteq> Inl NilPanic"
    by (induction ns) (auto simp: rbind_Inl_iff split: option.splits)
qed (auto simp: select_axis_def having_clause_def orderBy_def Let_def split: option.splits)

lemma select_rollups_no_panic: "select_rollups q dmn m \<noteq> Inl NilPanic"
  using select_no_panic(2) [of q dmn m "q_rollups q"] by (auto simp: select_rollups_def rbind_Inl_iff)

lemma rbind_nil:
  "rbind x f = Inl e \<Longrightarrow> x \<noteq> Inl e \<Longrightarrow> (\<And>y. x = Inr y \<Longrightarrow> f y = Inl e \<Longrightarrow> thesis) \<Longrightarrow> thesis"
  by (cases x) auto

lemma aggregate_nil:
  assumes "compileAggregate clock owner q dmn = Inl NilPanic"
  obtains m where "where_clause clock owner q dmn m = Inl NilPanic"
proof -
  obtain m where m: "aget (dom_measures dmn) (q_measure q) = Some m"
    using assms by (auto simp: compileAggregate_def split: if_splits option.splits)
  let ?fin = "\<lambda>axis gb rollups (conjs, a1, n1). rbind (having_clause q m gb a1 n1) (\<lambda>(having, a2).
      rbind (orderBy q (q_group q \<noteq> []) (q_gran q \<noteq> ''none'')) (\<lambda>ob. Inr (statement q m axis gb rollups conjs having ob, a2)))"
  have fin: "?fin axis gb rollups w \<noteq> Inl NilPanic" for axis gb rollups w
    by (cases w) (auto simp: rbind_Inl_iff select_no_panic)
  have "rbind (select_axis q dmn m) (\<lambda>(axis, gb). rbind (select_rollups q dmn m) (\<lambda>rollups.
      rbind (where_clause clock owner q dmn m) (?fin axis gb rollups))) = Inl NilPanic"
    using assms m by (simp add: compileAggregate_def Let_def split: if_split_asm)
  then obtain ax where "(case ax of (axis, gb) \<Rightarrow> rbind (select_rollups q dmn m) (\<lambda>rollups.
      rbind (where_clause clock owner q dmn m) (?fin axis gb rollups))) = Inl NilPanic"
    by (rule rbind_nil) (rule select_no_panic)
  then obtain axis gb where "rbind (select_rollups q dmn m) (\<lambda>rollups.
      rbind (where_clause clock owner q dmn m) (?fin axis gb rollups)) = Inl NilPanic"
    by (cases ax) simp
  then obtain rollups where "rbind (where_clause clock owner q dmn m) (?fin axis gb rollups) = Inl NilPanic"
    by (rule rbind_nil) (rule select_rollups_no_panic)
  then have r: "rbind (where_clause clock owner q dmn m) (?fin axis gb rollups) = Inl NilPanic" .
  show ?thesis
  proof (cases "where_clause clock owner q dmn m")
    case (Inl e)
    with r have "e = NilPanic" by simp
    with Inl that show ?thesis by simp
  next
    case (Inr w)
    with r have "?fin axis gb rollups w = Inl NilPanic"
      by (simp only: rbind.simps)
    with fin show ?thesis by (rule notE)
  qed
qed

lemma Compile_nil:
  assumes "Compile reg clock owner q = Inl NilPanic"
  shows "\<exists>p. q_where q = Some p \<and> pred_has_nil p"
proof -
  obtain dmn where "compileRowsSQL clock owner q dmn = Inl NilPanic \<or> compileAggregate clock owner q dmn = Inl NilPanic"
    using assms by (auto simp: Compile_def range_validate_def rbind_Inl_iff split: if_splits option.splits)
  then show ?thesis
  proof
    assume "compileRowsSQL clock owner q dmn = Inl NilPanic"
    then obtain m where "where_clause clock owner q dmn m = Inl NilPanic"
      by (auto simp: compileRowsSQL_def Let_def case_prod_unfold rbind_Inl_iff split: if_splits option.splits)
    then show ?thesis by (rule where_clause_nil)
  next
    assume "compileAggregate clock owner q dmn = Inl NilPanic"
    then obtain m where "where_clause clock owner q dmn m = Inl NilPanic"
      by (rule aggregate_nil)
    then show ?thesis by (rule where_clause_nil)
  qed
qed

lemma stage_where:
  "q_where (case b of None \<Rightarrow> q | Some x \<Rightarrow> Bucket q x) = q_where q"
  "q_where (case h of None \<Rightarrow> q | Some x \<Rightarrow> Having q x) = q_where q"
  "q_where (case st of None \<Rightarrow> q | Some (f, d) \<Rightarrow> Sort q f d) = q_where q"
  "q_where (case pg of None \<Rightarrow> q | Some (n, z) \<Rightarrow> Page q n z) = q_where q"
  "q_where (if c then Rollups q rs else q) = q_where q" "q_where (if c then Rows q else q) = q_where q"
  "q_where (if c then Limit q n else q) = q_where q" "q_where (if c then Group q g else q) = q_where q"
  "q_where (Over q g r) = q_where q"
  "q_where (case w of None \<Rightarrow> Measure (Q d) m | Some p \<Rightarrow> Where (Measure (Q d) m) (Some (toPredicate p))) =
     map_option toPredicate w"
  by (auto simp: builder_defs Q_def split: option.splits prod.splits)

lemma toQuery_where:
  assumes "toQuery s = Inr q"
  shows "q_where q = map_option toPredicate (sp_where s)"
proof -
  have start: "q_where (start_query s) = map_option toPredicate (sp_where s)"
    by (simp only: start_query_def Let_def stage_where)
  have finish: "q_where (finish_query s q3) = q_where q3" for q3
    by (simp only: finish_query_def Let_def stage_where)
  show ?thesis
    using assms start by (cases "sp_over s") (auto simp: toQuery_def rbind_Inr_iff finish stage_where)
qed

lemma pins_where: "applyCanonicalPins pins s = Inr s' \<Longrightarrow> sp_where s' = sp_where s"
  by (auto simp: applyCanonicalPins_def rbind_Inr_iff split: option.splits if_splits)

lemma Run_compiles:
  assumes "Compile reg clock owner q = Inr (sql, args)"
  shows "Run db reg clock owner q \<noteq> Inl (CompileError e)"
proof -
  have db: "from_db x \<noteq> Inl (CompileError e)" for x :: "string + 'x"
    by (cases x) auto
  show ?thesis
    using assms
  proof (rule Compile_cases)
    fix dmn
    assume d: "lookupDomain reg (q_domain q) = Some dmn"
      and rows: "q_rowsMode q \<Longrightarrow> \<exists>cnt. compileRowsSQL clock owner q dmn = Inr (sql, cnt, args)"
    show ?thesis
    proof (cases "q_rowsMode q")
      case True
      with rows obtain cnt where "compileRowsSQL clock owner q dmn = Inr (sql, cnt, args)" by blast
      with True d show ?thesis
        by (auto simp: Run_def rbind_Inl_iff db)
    next
      case False
      with assms show ?thesis
        by (auto simp: Run_def rbind_Inl_iff db Let_def)
    qed
  qed
qed

text \<open>
  C13 A request whose where-tree holds no JSON null never crashes the endpoint, and once the compiler
  accepted it the only remaining failure is the database's.
\<close>

theorem endpoint_no_panic:
  assumes "case sp_where s of None \<Rightarrow> True | Some n \<Rightarrow> \<not> node_has_null n"
  shows "RunQuery db reg clock books pins owner s \<noteq> Panics \<and>
         (\<forall>s1 q r. applyCanonicalPins pins s = Inr s1 \<longrightarrow> toQuery s1 = Inr q \<longrightarrow> Compile reg clock owner q = Inr r \<longrightarrow>
            (\<forall>e. Run db reg clock owner q \<noteq> Inl (CompileError e)))"
proof -
  have "Compile reg clock owner q \<noteq> Inl NilPanic" if "applyCanonicalPins pins s = Inr s1" "toQuery s1 = Inr q" for s1 q
  proof
    assume "Compile reg clock owner q = Inl NilPanic"
    from Compile_nil [OF this] obtain p where "q_where q = Some p" "pred_has_nil p" by blast
    with toQuery_where [OF that(2)] pins_where [OF that(1)] assms show False
      by (auto simp: toPredicate_nil split: option.splits)
  qed
  then have "RunQuery db reg clock books pins owner s \<noteq> Panics"
    by (auto simp: RunQuery_def split: sum.splits run_error.splits)
  moreover have "\<forall>e. Run db reg clock owner q \<noteq> Inl (CompileError e)" if "Compile reg clock owner q = Inr r" for q r
    using Run_compiles that by (cases r) blast
  ultimately show ?thesis by blast
qed

definition demo_spec :: "predicateNode option \<Rightarrow> spec" where
  "demo_spec w = \<lparr>sp_domain = ''coding'', sp_measure = ''seconds'', sp_where = w, sp_group = [], sp_over = None,
     sp_bucket = None, sp_having = None, sp_sort = None, sp_limit = 0, sp_rollups = [], sp_rows = False, sp_page = None\<rparr>"

theorem endpoint_no_panic_witness:
  "\<forall>db :: string querier. RunQuery db builtin_domains 0 True (Inr []) ''ann''
     (demo_spec (Some (PredicateNode ''leaf'' ''language'' ''eq'' [''go''] []))) \<noteq> Panics"
proof -
  have "case sp_where (demo_spec (Some (PredicateNode ''leaf'' ''language'' ''eq'' [''go''] []))) of
      None \<Rightarrow> True | Some n \<Rightarrow> \<not> node_has_null n"
    by (simp add: demo_spec_def)
  from endpoint_no_panic [OF this] show ?thesis by blast
qed

text \<open>
  A JSON null among the children of a combinator does crash it: the nil child is dereferenced by
  the compiler instead of being refused with a 400.
\<close>

lemma null_child_panics:
  "RunQuery db builtin_domains clock books (Inr []) ''ann''
     (demo_spec (Some (PredicateNode ''and'' [] [] [] [None]))) = Panics"
proof -
  have "toQuery (demo_spec (Some (PredicateNode ''and'' [] [] [] [None]))) =
      Inr (Where (Measure (Q ''coding'') ''seconds'') (Some (Predicate ''and'' [] [] [] [None])))"
    by (simp add: toQuery_def start_query_def finish_query_def demo_spec_def Let_def)
  moreover have "Compile builtin_domains clock ''ann''
      (Where (Measure (Q ''coding'') ''seconds'') (Some (Predicate ''and'' [] [] [] [None]))) = Inl NilPanic"
    by (simp add: Compile_def lookupDomain_def builtin_domains_def builder_defs Q_def zero_range_def range_validate_def
        time_is_zero_def registerCoding_def compileAggregate_def select_axis_def select_rollups_def where_clause_def
        where_pred_def range_isZero_def buildPredicate.simps buildAll.simps)
  ultimately show ?thesis
    by (simp add: RunQuery_def books_gated_def applyCanonicalPins_def) (simp add: demo_spec_def)
qed

text \<open>
  With the books feature off, requests for the domains reading and readingEvents are answered 404;
  every other domain answers as if the feature were on, the books domain annotations included.
\<close>

lemma books_gate:
  "(if sp_domain s = ''reading'' \<or> sp_domain s = ''readingEvents''
    then RunQuery db reg clock False pins owner s = NotFound
    else RunQuery db reg clock False pins owner s = RunQuery db reg clock True pins owner s) \<and>
   lookupDomain builtin_domains ''annotations'' = Some registerAnnotations"
  by (simp add: RunQuery_def books_gated_def) (simp add: lookupDomain_def builtin_domains_def)

end
