(* ===== verification/GoJson.thy ===== *)
theory GoJson
  imports Prelude "HOL-Library.Monad_Syntax"
begin

text \<open>
  The part of \<open>encoding/json\<close> the sources rely on, on parsed JSON values: decoding an object into
  a struct. An object key sets a field when it equals the field's name up to case; keys apply in
  order, so the last one wins; null leaves a scalar as it is and empties a slice; a missing field
  keeps its zero value; a value of another type is an error. A number is \<open>JInt\<close> when its literal
  has neither a fraction nor an exponent, and only such a literal, in range, decodes into an
  \<open>int\<close>. A nil slice and an empty one are not distinguished, and a slice named twice by one object
  decodes afresh the second time.
\<close>

datatype json = JNull | JBool bool | JInt int | JNum rat | JStr string | JArr "json list" | JObj "(string \<times> json) list"

type_synonym fields = "(string \<times> json) list"

fun obj_fields :: "json \<Rightarrow> fields option" where
  "obj_fields (JObj kvs) = Some kvs"
| "obj_fields JNull = Some []"
| "obj_fields j = None"

definition vals :: "string \<Rightarrow> fields \<Rightarrow> json list" where
  "vals name kvs = [v. (k, v) \<leftarrow> kvs, to_lower k = to_lower name]"

fun dec_str :: "string \<Rightarrow> json list \<Rightarrow> string option" where
  "dec_str acc [] = Some acc"
| "dec_str acc (JStr s # vs) = dec_str s vs"
| "dec_str acc (JNull # vs) = dec_str acc vs"
| "dec_str acc (v # vs) = None"

fun dec_num :: "float64 \<Rightarrow> json list \<Rightarrow> float64 option" where
  "dec_num acc [] = Some acc"
| "dec_num acc (JNum r # vs) = dec_num r vs"
| "dec_num acc (JInt i # vs) = dec_num (of_int i) vs"
| "dec_num acc (JNull # vs) = dec_num acc vs"
| "dec_num acc (v # vs) = None"

definition int_fits :: "int \<Rightarrow> bool" where
  "int_fits i \<longleftrightarrow> - (2 ^ 63) \<le> i \<and> i < 2 ^ 63"

fun dec_int :: "int \<Rightarrow> json list \<Rightarrow> int option" where
  "dec_int acc [] = Some acc"
| "dec_int acc (JInt i # vs) = (if int_fits i then dec_int i vs else None)"
| "dec_int acc (JNull # vs) = dec_int acc vs"
| "dec_int acc (v # vs) = None"

fun elem_str :: "json \<Rightarrow> string option" where
  "elem_str (JStr s) = Some s"
| "elem_str JNull = Some []"
| "elem_str v = None"

fun elem_int :: "json \<Rightarrow> int option" where
  "elem_int (JInt i) = (if int_fits i then Some i else None)"
| "elem_int JNull = Some 0"
| "elem_int v = None"

fun opt_all :: "'a option list \<Rightarrow> 'a list option" where
  "opt_all [] = Some []"
| "opt_all (None # xs) = None"
| "opt_all (Some x # xs) = map_option ((#) x) (opt_all xs)"

fun dec_slice :: "(json \<Rightarrow> 'a option) \<Rightarrow> 'a list \<Rightarrow> json list \<Rightarrow> 'a list option" where
  "dec_slice el acc [] = Some acc"
| "dec_slice el acc (JArr xs # vs) =
     (case opt_all (map el xs) of None \<Rightarrow> None | Some ys \<Rightarrow> dec_slice el ys vs)"
| "dec_slice el acc (JNull # vs) = dec_slice el [] vs"
| "dec_slice el acc (v # vs) = None"

text \<open>A \<open>json.RawMessage\<close> field keeps the value as it is, null included.\<close>

fun dec_raw :: "json list \<Rightarrow> json option" where
  "dec_raw [] = None"
| "dec_raw [v] = Some v"
| "dec_raw (v # vs) = dec_raw vs"

definition get_str :: "fields \<Rightarrow> string \<Rightarrow> string option" where
  "get_str kvs name = dec_str [] (vals name kvs)"

definition get_num :: "fields \<Rightarrow> string \<Rightarrow> float64 option" where
  "get_num kvs name = dec_num 0 (vals name kvs)"

definition get_int :: "fields \<Rightarrow> string \<Rightarrow> int option" where
  "get_int kvs name = dec_int 0 (vals name kvs)"

definition get_strs :: "fields \<Rightarrow> string \<Rightarrow> string list option" where
  "get_strs kvs name = dec_slice elem_str [] (vals name kvs)"

definition get_ints :: "fields \<Rightarrow> string \<Rightarrow> int list option" where
  "get_ints kvs name = dec_slice elem_int [] (vals name kvs)"

definition get_raws :: "fields \<Rightarrow> string \<Rightarrow> json list option" where
  "get_raws kvs name = dec_slice Some [] (vals name kvs)"

definition get_raw :: "fields \<Rightarrow> string \<Rightarrow> json option" where
  "get_raw kvs name = dec_raw (vals name kvs)"

text \<open>Encoding: a \<open>float64\<close> without a fraction is printed as an integer literal.\<close>

definition enc_num :: "float64 \<Rightarrow> json" where
  "enc_num r = (if of_int \<lfloor>r\<rfloor> = r then JInt \<lfloor>r\<rfloor> else JNum r)"

text \<open>A \<open>*string\<close> field: null makes it nil.\<close>

fun dec_strp :: "string option \<Rightarrow> json list \<Rightarrow> string option option" where
  "dec_strp acc [] = Some acc"
| "dec_strp acc (JStr s # vs) = dec_strp (Some s) vs"
| "dec_strp acc (JNull # vs) = dec_strp None vs"
| "dec_strp acc (v # vs) = None"

definition get_strp :: "fields \<Rightarrow> string \<Rightarrow> string option option" where
  "get_strp kvs name = dec_strp None (vals name kvs)"

lemmas get_defs = get_str_def get_num_def get_int_def get_strs_def get_ints_def get_raws_def get_raw_def

lemma opt_all_Some [simp]: "opt_all (map Some xs) = Some xs"
  by (induction xs) auto

lemma opt_all_inverse: "(\<And>x. x \<in> set xs \<Longrightarrow> g (f x) = Some x) \<Longrightarrow> opt_all (map (g \<circ> f) xs) = Some xs"
  by (induction xs) auto

lemma opt_all_prop:
  "opt_all ys = Some xs \<Longrightarrow> (\<And>x. Some x \<in> set ys \<Longrightarrow> P x) \<Longrightarrow> list_all P xs"
  by (induction ys arbitrary: xs rule: opt_all.induct) auto

lemma dec_slice_prop:
  "(\<And>v x. el v = Some x \<Longrightarrow> P x) \<Longrightarrow> dec_slice el acc vs = Some xs \<Longrightarrow> list_all P acc \<Longrightarrow>
   list_all P xs"
proof (induction el acc vs rule: dec_slice.induct)
  case (2 el acc ys vs)
  then obtain zs where zs: "opt_all (map el ys) = Some zs"
    by (auto split: option.splits)
  moreover have "P x" if "Some x \<in> set (map el ys)" for x
    using that 2(2) by auto
  ultimately have "list_all P zs"
    by (rule opt_all_prop)
  with 2 zs show ?case by simp
qed auto

lemma dec_num_enc [simp]: "dec_num acc [enc_num r] = Some r"
  by (simp add: enc_num_def)

lemma elems_str_enc [simp]: "opt_all (map (elem_str \<circ> JStr) xs) = Some xs"
  by (rule opt_all_inverse) simp

lemma elems_int_enc [simp]: "list_all int_fits xs \<Longrightarrow> opt_all (map (elem_int \<circ> JInt) xs) = Some xs"
  by (rule opt_all_inverse) (simp add: list_all_iff)

lemma dec_int_fits: "dec_int acc vs = Some i \<Longrightarrow> int_fits acc \<Longrightarrow> int_fits i"
  by (induction acc vs rule: dec_int.induct) (auto split: if_splits)

lemma elem_int_fits: "elem_int v = Some i \<Longrightarrow> int_fits i"
  by (cases v) (auto simp: int_fits_def split: if_splits)

lemma get_int_fits: "get_int kvs name = Some i \<Longrightarrow> int_fits i"
  by (auto simp: get_int_def int_fits_def dest!: dec_int_fits)

lemma get_ints_fit: "get_ints kvs name = Some xs \<Longrightarrow> list_all int_fits xs"
  using dec_slice_prop [of elem_int int_fits, OF elem_int_fits] by (simp add: get_ints_def)

text \<open>What a recursive decoder finds is smaller than the object it looks into.\<close>

lemma vals_size: "v \<in> set (vals name kvs) \<Longrightarrow> size v < size (JObj kvs)"
proof -
  assume "v \<in> set (vals name kvs)"
  then obtain k where "(k, v) \<in> set kvs"
    by (auto simp: vals_def split: if_splits)
  then have "size_prod (\<lambda>_. 0) size (k, v) \<le> size_list (size_prod (\<lambda>_. 0) size) kvs"
    by (intro size_list_estimation') auto
  then show ?thesis by simp
qed

lemma dec_slice_size:
  "dec_slice Some acc vs = Some xs \<Longrightarrow> x \<in> set xs \<Longrightarrow> x \<in> set acc \<or> (\<exists>ys. JArr ys \<in> set vs \<and> x \<in> set ys)"
  by (induction "Some :: json \<Rightarrow> json option" acc vs rule: dec_slice.induct) auto

lemma get_raws_size:
  assumes "get_raws kvs name = Some xs" "x \<in> set xs"
  shows "size x < size (JObj kvs)"
proof -
  obtain ys where ys: "JArr ys \<in> set (vals name kvs)" "x \<in> set ys"
    using assms dec_slice_size [of "[]" "vals name kvs" xs x] by (auto simp: get_raws_def)
  have "size x \<le> size_list size ys"
    using ys(2) by (intro size_list_estimation') auto
  then have "size x < size (JArr ys)" by simp
  also have "\<dots> < size (JObj kvs)"
    using ys(1) by (rule vals_size)
  finally show ?thesis .
qed

lemma dec_raw_mem: "dec_raw vs = Some x \<Longrightarrow> x \<in> set vs"
  by (induction vs rule: dec_raw.induct) auto

lemma get_raw_size: "get_raw kvs name = Some x \<Longrightarrow> size x < size (JObj kvs)"
  unfolding get_raw_def by (rule vals_size) (rule dec_raw_mem)

lemma obj_fields_size: "obj_fields j = Some kvs \<Longrightarrow> size x < size (JObj kvs) \<Longrightarrow> kvs \<noteq> [] \<Longrightarrow> size x < size j"
  by (cases j) auto

text \<open>The measures of the recursive decoders.\<close>

lemma fields_not_Nil_raws: "get_raws kvs name = Some xs \<Longrightarrow> x \<in> set xs \<Longrightarrow> kvs \<noteq> []"
  by (auto simp: get_raws_def vals_def)

lemma fields_not_Nil_raw: "get_raw kvs name = Some x \<Longrightarrow> kvs \<noteq> []"
  by (auto simp: get_raw_def vals_def)

lemma raws_smaller:
  "obj_fields j = Some kvs \<Longrightarrow> get_raws kvs name = Some xs \<Longrightarrow> x \<in> set xs \<Longrightarrow> size x < size j"
  using obj_fields_size get_raws_size fields_not_Nil_raws by metis

lemma raw_value_smaller: "obj_fields j = Some kvs \<Longrightarrow> get_raw kvs name = Some x \<Longrightarrow> size x < size j"
  using obj_fields_size get_raw_size fields_not_Nil_raw by metis

end
