(* ===== verification/LabelModel.thy ===== *)
theory LabelModel
  imports GoJson
begin

text \<open>
  The label rules of \<open>internal/boomtime/labels/types.go\<close>: the condition language, its JSON form and
  the label specs and awards. A condition is the Go interface value; \<open>NilCond\<close> is the nil
  interface. Fields keep the order and the names of the structs and their JSON tags. A
  \<open>json.RawMessage\<close> is \<open>None\<close> when it is empty and the parsed value otherwise.
\<close>

abbreviation "AxisLanguages \<equiv> ''languages''"
abbreviation "AxisEditors \<equiv> ''editors''"
abbreviation "AxisProjects \<equiv> ''projects''"
abbreviation "AxisCategories \<equiv> ''categories''"
abbreviation "AxisPlatforms \<equiv> ''platforms''"
abbreviation "OpGE \<equiv> ''>=''"
abbreviation "OpLE \<equiv> ''<=''"
abbreviation "KindTier \<equiv> ''tier''"

definition tierStrength :: "string \<Rightarrow> int" where
  "tierStrength t =
     (if t = ''novice'' then 0 else if t = ''apprentice'' then 1 else if t = ''adept'' then 2
      else if t = ''master'' then 3 else if t = ''legend'' then 4 else - 1)"

datatype condition =
    NilCond
  | AxisTimeCond (at_axis: string) (at_value: string) (at_op: string) (at_hours: float64)
  | AxisTimeSumCond (as_axis: string) (as_values: "string list") (as_op: string) (as_hours: float64)
  | AxisPctCond (ap_axis: string) (ap_value: string) (ap_op: string) (ap_pct: float64)
  | TopShareCond (ts_axis: string) (ts_op: string) (ts_pct: float64)
  | DistinctCountCond (dc_axis: string) (dc_minHoursEach: float64) (dc_op: string) (dc_n: int)
  | PunchcardHourPctCond (ph_hoursIn: "int list") (ph_op: string) (ph_pct: float64)
  | PunchcardDowPctCond (pd_dowIn: "int list") (pd_op: string) (pd_pct: float64)
  | StreakCond (sk_which: string) (sk_op: string) (sk_days: int)
  | DailyAvgCond (da_op: string) (da_hours: float64)
  | TrendCond (tr_window: string) (tr_op: string) (tr_ratio: float64)
  | AllCond (all_of: "condition list")
  | AnyCond (any_of: "condition list")
  | NotCond (not_of: condition)

section \<open>Decoding\<close>

definition dec_axis_time :: "fields \<Rightarrow> condition option" where
  "dec_axis_time kvs = do {
     a \<leftarrow> get_str kvs ''axis''; v \<leftarrow> get_str kvs ''value''; op \<leftarrow> get_str kvs ''op'';
     h \<leftarrow> get_num kvs ''hours''; Some (AxisTimeCond a v op h) }"

definition dec_axis_time_sum :: "fields \<Rightarrow> condition option" where
  "dec_axis_time_sum kvs = do {
     a \<leftarrow> get_str kvs ''axis''; vs \<leftarrow> get_strs kvs ''values''; op \<leftarrow> get_str kvs ''op'';
     h \<leftarrow> get_num kvs ''hours''; Some (AxisTimeSumCond a vs op h) }"

definition dec_axis_pct :: "fields \<Rightarrow> condition option" where
  "dec_axis_pct kvs = do {
     a \<leftarrow> get_str kvs ''axis''; v \<leftarrow> get_str kvs ''value''; op \<leftarrow> get_str kvs ''op'';
     p \<leftarrow> get_num kvs ''pct''; Some (AxisPctCond a v op p) }"

definition dec_top_share :: "fields \<Rightarrow> condition option" where
  "dec_top_share kvs = do {
     a \<leftarrow> get_str kvs ''axis''; op \<leftarrow> get_str kvs ''op''; p \<leftarrow> get_num kvs ''pct'';
     Some (TopShareCond a op p) }"

definition dec_distinct_count :: "fields \<Rightarrow> condition option" where
  "dec_distinct_count kvs = do {
     a \<leftarrow> get_str kvs ''axis''; m \<leftarrow> get_num kvs ''minHoursEach''; op \<leftarrow> get_str kvs ''op'';
     n \<leftarrow> get_int kvs ''n''; Some (DistinctCountCond a m op n) }"

definition dec_punchcard_hour :: "fields \<Rightarrow> condition option" where
  "dec_punchcard_hour kvs = do {
     hs \<leftarrow> get_ints kvs ''hoursIn''; op \<leftarrow> get_str kvs ''op''; p \<leftarrow> get_num kvs ''pct'';
     Some (PunchcardHourPctCond hs op p) }"

definition dec_punchcard_dow :: "fields \<Rightarrow> condition option" where
  "dec_punchcard_dow kvs = do {
     ds \<leftarrow> get_ints kvs ''dowIn''; op \<leftarrow> get_str kvs ''op''; p \<leftarrow> get_num kvs ''pct'';
     Some (PunchcardDowPctCond ds op p) }"

definition dec_streak :: "fields \<Rightarrow> condition option" where
  "dec_streak kvs = do {
     w \<leftarrow> get_str kvs ''which''; op \<leftarrow> get_str kvs ''op''; d \<leftarrow> get_int kvs ''days'';
     Some (StreakCond w op d) }"

definition dec_daily_avg :: "fields \<Rightarrow> condition option" where
  "dec_daily_avg kvs = do {
     op \<leftarrow> get_str kvs ''op''; h \<leftarrow> get_num kvs ''hours''; Some (DailyAvgCond op h) }"

definition dec_trend :: "fields \<Rightarrow> condition option" where
  "dec_trend kvs = do {
     w \<leftarrow> get_str kvs ''window''; op \<leftarrow> get_str kvs ''op''; r \<leftarrow> get_num kvs ''ratio'';
     Some (TrendCond w op r) }"

text \<open>The primitive cases of the switch over the discriminator.\<close>

definition primitive :: "string \<Rightarrow> (fields \<Rightarrow> condition option) option" where
  "primitive k =
     (if k = ''axis-time'' then Some dec_axis_time
      else if k = ''axis-time-sum'' then Some dec_axis_time_sum
      else if k = ''axis-pct'' then Some dec_axis_pct
      else if k = ''top-share'' then Some dec_top_share
      else if k = ''distinct-count'' then Some dec_distinct_count
      else if k = ''punchcard-hour-pct'' then Some dec_punchcard_hour
      else if k = ''punchcard-dow-pct'' then Some dec_punchcard_dow
      else if k = ''streak'' then Some dec_streak
      else if k = ''daily-avg'' then Some dec_daily_avg
      else if k = ''trend'' then Some dec_trend
      else None)"

text \<open>
  The error says where decoding failed: \<open>PeekKind\<close> when the value has no readable discriminator,
  \<open>Decode\<close> when a field has the wrong type, and the wrapped errors of the composers.
\<close>

datatype cond_error =
    PeekKind
  | Decode string
  | UnknownKind string
  | MalformedInner
  | InOf string nat cond_error
  | InNot cond_error

text \<open>\<open>for i, r := range of\<close>, stopping at the first error, which gets its index.\<close>

fun collect :: "(nat \<Rightarrow> 'e \<Rightarrow> 'e) \<Rightarrow> nat \<Rightarrow> ('e + 'a) list \<Rightarrow> 'e + 'a list" where
  "collect wrap i [] = Inr []"
| "collect wrap i (Inl e # rs) = Inl (wrap i e)"
| "collect wrap i (Inr x # rs) = rbind (collect wrap (Suc i) rs) (\<lambda>xs. Inr (x # xs))"

function UnmarshalCondition :: "json option \<Rightarrow> cond_error + condition" where
  "UnmarshalCondition None = Inl PeekKind"
| "UnmarshalCondition (Some j) =
     (case obj_fields j of None \<Rightarrow> Inl PeekKind | Some kvs \<Rightarrow>
        (case get_str kvs ''kind'' of None \<Rightarrow> Inl PeekKind | Some k \<Rightarrow>
           (case primitive k of
              Some dec \<Rightarrow> (case dec kvs of None \<Rightarrow> Inl (Decode k) | Some c \<Rightarrow> Inr c)
            | None \<Rightarrow>
                if k = ''all'' \<or> k = ''any'' then
                  (case get_raws kvs ''of'' of None \<Rightarrow> Inl (Decode k) | Some subs \<Rightarrow>
                     rbind (collect (InOf k) 0 (map (\<lambda>r. UnmarshalCondition (Some r)) subs))
                       (\<lambda>out. Inr (if k = ''all'' then AllCond out else AnyCond out)))
                else if k = ''not'' then
                  (case UnmarshalCondition (get_raw kvs ''of'') of
                     Inl e \<Rightarrow> Inl (InNot e)
                   | Inr sub \<Rightarrow> Inr (NotCond sub))
                else Inl (UnknownKind k))))"
  by pat_completeness auto

definition raw_size :: "json option \<Rightarrow> nat" where
  "raw_size r = (case r of None \<Rightarrow> 0 | Some j \<Rightarrow> Suc (size j))"

lemma raw_smaller: "obj_fields j = Some kvs \<Longrightarrow> raw_size (get_raw kvs name) < raw_size (Some j)"
  using obj_fields_size [of j kvs] get_raw_size [of kvs name] fields_not_Nil_raw [of kvs name]
  by (cases "get_raw kvs name") (auto simp: raw_size_def)

termination UnmarshalCondition
  by (relation "measure raw_size") (auto simp: raw_smaller, auto simp: raw_size_def raws_smaller)

declare UnmarshalCondition.simps [simp del]

section \<open>Encoding\<close>

fun Kind :: "condition \<Rightarrow> string" where
  "Kind NilCond = []"
| "Kind (AxisTimeCond a v op h) = ''axis-time''"
| "Kind (AxisTimeSumCond a vs op h) = ''axis-time-sum''"
| "Kind (AxisPctCond a v op p) = ''axis-pct''"
| "Kind (TopShareCond a op p) = ''top-share''"
| "Kind (DistinctCountCond a m op n) = ''distinct-count''"
| "Kind (PunchcardHourPctCond hs op p) = ''punchcard-hour-pct''"
| "Kind (PunchcardDowPctCond ds op p) = ''punchcard-dow-pct''"
| "Kind (StreakCond w op d) = ''streak''"
| "Kind (DailyAvgCond op h) = ''daily-avg''"
| "Kind (TrendCond w op r) = ''trend''"
| "Kind (AllCond cs) = ''all''"
| "Kind (AnyCond cs) = ''any''"
| "Kind (NotCond c) = ''not''"

text \<open>What \<open>json.Marshal\<close> makes of a primitive's struct, from its tags.\<close>

fun struct_fields :: "condition \<Rightarrow> fields" where
  "struct_fields (AxisTimeCond a v op h) =
     [(''axis'', JStr a), (''value'', JStr v), (''op'', JStr op), (''hours'', enc_num h)]"
| "struct_fields (AxisTimeSumCond a vs op h) =
     [(''axis'', JStr a), (''values'', JArr (map JStr vs)), (''op'', JStr op), (''hours'', enc_num h)]"
| "struct_fields (AxisPctCond a v op p) =
     [(''axis'', JStr a), (''value'', JStr v), (''op'', JStr op), (''pct'', enc_num p)]"
| "struct_fields (TopShareCond a op p) = [(''axis'', JStr a), (''op'', JStr op), (''pct'', enc_num p)]"
| "struct_fields (DistinctCountCond a m op n) =
     [(''axis'', JStr a), (''minHoursEach'', enc_num m), (''op'', JStr op), (''n'', JInt n)]"
| "struct_fields (PunchcardHourPctCond hs op p) =
     [(''hoursIn'', JArr (map JInt hs)), (''op'', JStr op), (''pct'', enc_num p)]"
| "struct_fields (PunchcardDowPctCond ds op p) =
     [(''dowIn'', JArr (map JInt ds)), (''op'', JStr op), (''pct'', enc_num p)]"
| "struct_fields (StreakCond w op d) = [(''which'', JStr w), (''op'', JStr op), (''days'', JInt d)]"
| "struct_fields (DailyAvgCond op h) = [(''op'', JStr op), (''hours'', enc_num h)]"
| "struct_fields (TrendCond w op r) = [(''window'', JStr w), (''op'', JStr op), (''ratio'', enc_num r)]"
| "struct_fields _ = []"

definition marshalComposer :: "string \<Rightarrow> (cond_error + json) list \<Rightarrow> cond_error + json" where
  "marshalComposer k subs =
     rbind (collect (InOf k) 0 subs) (\<lambda>parts. Inr (JObj [(''kind'', JStr k), (''of'', JArr parts)]))"

fun MarshalCondition :: "condition \<Rightarrow> cond_error + json" where
  "MarshalCondition NilCond = Inl MalformedInner"
| "MarshalCondition (AllCond cs) = marshalComposer ''all'' (map MarshalCondition cs)"
| "MarshalCondition (AnyCond cs) = marshalComposer ''any'' (map MarshalCondition cs)"
| "MarshalCondition (NotCond c) =
     rbind (MarshalCondition c) (\<lambda>sub. Inr (JObj [(''kind'', JStr ''not''), (''of'', sub)]))"
| "MarshalCondition c = Inr (JObj ((''kind'', JStr (Kind c)) # struct_fields c))"

section \<open>Specs, awards and catalog rows\<close>

record label_spec =
  ls_ID :: string
  ls_Kind :: string
  ls_Label :: string
  ls_Glyph :: string
  ls_Description :: string
  ls_Rank :: int
  ls_Tier :: string
  ls_TierKey :: string
  ls_PeriodDefault :: string
  ls_Condition :: condition

record label_award =
  la_ID :: string
  la_Kind :: string
  la_Label :: string
  la_Glyph :: string
  la_Description :: string
  la_Rank :: int
  la_Tier :: string
  la_Condition :: condition

definition omitempty :: "string \<Rightarrow> string \<Rightarrow> fields" where
  "omitempty name s = (if s = [] then [] else [(name, JStr s)])"

definition LabelAward_MarshalJSON :: "label_award \<Rightarrow> cond_error + json" where
  "LabelAward_MarshalJSON a =
     (let base = [(''id'', JStr (la_ID a)), (''kind'', JStr (la_Kind a)), (''label'', JStr (la_Label a))]
                 @ omitempty ''glyph'' (la_Glyph a)
                 @ [(''description'', JStr (la_Description a)), (''rank'', JInt (la_Rank a))]
                 @ omitempty ''tier'' (la_Tier a)
      in if la_Condition a = NilCond then Inr (JObj base)
         else rbind (MarshalCondition (la_Condition a)) (\<lambda>c. Inr (JObj (base @ [(''condition'', c)]))))"

end
