(* ===== verification/LabelEval.thy ===== *)
theory LabelEval
  imports LabelModel
begin

text \<open>
  \<open>internal/boomtime/labels/evaluator.go\<close> and \<open>dbrow.go\<close>: the payload a condition reads, the
  predicate walker, the award list and the decoding of catalog rows. Sums of seconds are not
  bounded to 64 bits. The iteration order of the map of tier winners is a parameter \<open>order\<close>.
\<close>

record resource_stats =
  Name :: string
  TotalSeconds :: int

record punchcard_cell =
  Dow :: int
  Hour :: int
  Seconds :: int

record payload =
  Languages :: "resource_stats list"
  Editors :: "resource_stats list"
  Projects :: "resource_stats list"
  Categories :: "resource_stats list"
  Platforms :: "resource_stats list"
  Cells :: "punchcard_cell list"
  PunchcardTotal :: int
  DailyTotal :: "int list"
  DailyAvg :: float64

definition empty_payload :: payload where
  "empty_payload = \<lparr>Languages = [], Editors = [], Projects = [], Categories = [], Platforms = [],
     Cells = [], PunchcardTotal = 0, DailyTotal = [], DailyAvg = 0\<rparr>"

definition axisEntries :: "payload \<Rightarrow> string \<Rightarrow> resource_stats list" where
  "axisEntries p axis =
     (if axis = AxisLanguages then Languages p
      else if axis = AxisEditors then Editors p
      else if axis = AxisProjects then Projects p
      else if axis = AxisCategories then Categories p
      else if axis = AxisPlatforms then Platforms p
      else [])"

definition findAxisEntry :: "payload \<Rightarrow> string \<Rightarrow> string \<Rightarrow> resource_stats option" where
  "findAxisEntry p axis val = find (\<lambda>r. to_lower (Name r) = to_lower val) (axisEntries p axis)"

definition axisTotalSeconds :: "payload \<Rightarrow> string \<Rightarrow> int" where
  "axisTotalSeconds p axis = (\<Sum>r\<leftarrow>axisEntries p axis. TotalSeconds r)"

definition punchcardTotalSeconds :: "payload \<Rightarrow> int" where
  "punchcardTotalSeconds p =
     (if PunchcardTotal p > 0 then PunchcardTotal p else (\<Sum>c\<leftarrow>Cells p. Seconds c))"

definition last7VsPrior7Ratio :: "payload \<Rightarrow> float64 option" where
  "last7VsPrior7Ratio p =
     (let daily = DailyTotal p; n = length daily in
      if n < 14 then None
      else let lastAvg = of_int (sum_list (drop (n - 7) daily)) / 7;
               priorAvg = of_int (sum_list (take 7 (drop (n - 14) daily))) / 7
           in if priorAvg = 0 then (if lastAvg > 0 then Some (10 ^ 18) else Some 0)
              else Some (lastAvg / priorAvg))"

text \<open>The loop over the days from the last one backwards, up to the first day without activity.\<close>

fun trailing_run :: "int list \<Rightarrow> int" where
  "trailing_run [] = 0"
| "trailing_run (v # vs) = (if v > 0 then 1 + trailing_run vs else 0)"

definition currentStreak :: "int list \<Rightarrow> int" where
  "currentStreak daily = trailing_run (rev daily)"

fun streak_loop :: "int \<Rightarrow> int \<Rightarrow> int list \<Rightarrow> int" where
  "streak_loop best cur [] = best"
| "streak_loop best cur (v # vs) =
     (if v > 0 then streak_loop (if cur + 1 > best then cur + 1 else best) (cur + 1) vs
      else streak_loop best 0 vs)"

definition longestStreakInRange :: "int list \<Rightarrow> int" where
  "longestStreakInRange daily = streak_loop 0 0 daily"

definition cmp :: "float64 \<Rightarrow> string \<Rightarrow> float64 \<Rightarrow> bool" where
  "cmp actual op threshold = (if op = OpGE then actual \<ge> threshold else actual \<le> threshold)"

definition hours_of :: "int \<Rightarrow> float64" where
  "hours_of s = of_int s / 3600"

text \<open>A conversion from \<open>float64\<close> to \<open>int64\<close> truncates towards zero.\<close>

definition truncate_float :: "float64 \<Rightarrow> int" where
  "truncate_float r = (if r \<ge> 0 then \<lfloor>r\<rfloor> else \<lceil>r\<rceil>)"

definition entry_seconds :: "resource_stats option \<Rightarrow> int" where
  "entry_seconds hit = (case hit of None \<Rightarrow> 0 | Some r \<Rightarrow> TotalSeconds r)"

definition punchcard_share :: "payload \<Rightarrow> (punchcard_cell \<Rightarrow> bool) \<Rightarrow> float64" where
  "punchcard_share p inside =
     (let total = punchcardTotalSeconds p in
      if total = 0 then 0
      else of_int (\<Sum>c\<leftarrow>filter inside (Cells p). Seconds c) / of_int total)"

fun evaluate :: "condition \<Rightarrow> payload \<Rightarrow> bool" where
  "evaluate NilCond p = False"
| "evaluate (AxisTimeCond a v op h) p = cmp (hours_of (entry_seconds (findAxisEntry p a v))) op h"
| "evaluate (AxisTimeSumCond a vs op h) p =
     cmp (hours_of (\<Sum>v\<leftarrow>vs. entry_seconds (findAxisEntry p a v))) op h"
| "evaluate (AxisPctCond a v op pct) p =
     cmp (case findAxisEntry p a v of None \<Rightarrow> 0
          | Some hit \<Rightarrow> let total = axisTotalSeconds p a in
              if total > 0 then of_int (TotalSeconds hit) / of_int total else 0) op pct"
| "evaluate (TopShareCond a op pct) p =
     (let total = axisTotalSeconds p a in
      case axisEntries p a of [] \<Rightarrow> cmp 0 op pct
      | entry # _ \<Rightarrow> if total = 0 then cmp 0 op pct
                  else cmp (of_int (TotalSeconds entry) / of_int total) op pct)"
| "evaluate (DistinctCountCond a m op n) p =
     cmp (of_nat (length (filter (\<lambda>r. TotalSeconds r \<ge> truncate_float (m * 3600)) (axisEntries p a)))) op (of_int n)"
| "evaluate (PunchcardHourPctCond hs op pct) p = cmp (punchcard_share p (\<lambda>c. Hour c \<in> set hs)) op pct"
| "evaluate (PunchcardDowPctCond ds op pct) p = cmp (punchcard_share p (\<lambda>c. Dow c \<in> set ds)) op pct"
| "evaluate (StreakCond w op d) p =
     cmp (of_int (if w = ''current'' then currentStreak (DailyTotal p)
                  else longestStreakInRange (DailyTotal p))) op (of_int d)"
| "evaluate (DailyAvgCond op h) p = cmp (DailyAvg p / 3600) op h"
| "evaluate (TrendCond w op r) p =
     (case last7VsPrior7Ratio p of None \<Rightarrow> False | Some ratio \<Rightarrow> cmp ratio op r)"
| "evaluate (AllCond cs) p = list_all (\<lambda>c. evaluate c p) cs"
| "evaluate (AnyCond cs) p = list_ex (\<lambda>c. evaluate c p) cs"
| "evaluate (NotCond c) p = (\<not> evaluate c p)"

definition EvaluateCondition :: "condition \<Rightarrow> payload option \<Rightarrow> bool" where
  "EvaluateCondition c p = evaluate c (case p of None \<Rightarrow> empty_payload | Some q \<Rightarrow> q)"

section \<open>Awards\<close>

definition is_tiered :: "label_spec \<Rightarrow> bool" where
  "is_tiered s \<longleftrightarrow> ls_Kind s = KindTier \<and> ls_TierKey s \<noteq> []"

definition dedupe_step ::
  "(string \<times> label_spec) list \<times> label_spec list \<Rightarrow> label_spec \<Rightarrow> (string \<times> label_spec) list \<times> label_spec list" where
  "dedupe_step st s =
     (let (byTierKey, nonTier) = st in
      if is_tiered s then
        (case aget byTierKey (ls_TierKey s) of
           None \<Rightarrow> (aput byTierKey (ls_TierKey s) s, nonTier)
         | Some cur \<Rightarrow>
             if tierStrength (ls_Tier s) > tierStrength (ls_Tier cur)
             then (aput byTierKey (ls_TierKey s) s, nonTier) else (byTierKey, nonTier))
      else (byTierKey, nonTier @ [s]))"

definition award_before :: "label_spec \<Rightarrow> label_spec \<Rightarrow> bool" where
  "award_before a b \<longleftrightarrow> (if ls_Rank a \<noteq> ls_Rank b then ls_Rank a > ls_Rank b else ls_ID a < ls_ID b)"

definition award_of :: "label_spec \<Rightarrow> label_award" where
  "award_of s = \<lparr>la_ID = ls_ID s, la_Kind = ls_Kind s, la_Label = ls_Label s, la_Glyph = ls_Glyph s,
     la_Description = ls_Description s, la_Rank = ls_Rank s, la_Tier = ls_Tier s,
     la_Condition = ls_Condition s\<rparr>"

definition award_winners ::
  "(label_spec list \<Rightarrow> label_spec list) \<Rightarrow> payload option \<Rightarrow> label_spec list \<Rightarrow> label_spec list" where
  "award_winners order p catalog =
     (let passing = filter (\<lambda>s. EvaluateCondition (ls_Condition s) p) catalog;
          (byTierKey, nonTier) = foldl dedupe_step ([], []) passing
      in slice_stable award_before (order (map snd byTierKey) @ nonTier))"

definition EvaluateAll ::
  "(label_spec list \<Rightarrow> label_spec list) \<Rightarrow> payload option \<Rightarrow> label_spec list \<Rightarrow> label_award list" where
  "EvaluateAll order p catalog = map award_of (award_winners order p catalog)"

section \<open>Catalog rows\<close>

record db_row =
  r_ID :: string
  r_Kind :: string
  r_Label :: string
  r_Glyph :: string
  r_Description :: string
  r_Rank :: int
  r_Tier :: string
  r_PeriodDefault :: string
  r_Condition :: "json option"

definition has_suffix :: "string \<Rightarrow> string \<Rightarrow> bool" where
  "has_suffix s suf \<longleftrightarrow> length suf \<le> length s \<and> drop (length s - length suf) s = suf"

definition deriveTierKey :: "string \<Rightarrow> string \<Rightarrow> string" where
  "deriveTierKey ident tier =
     (if tier = [] \<or> \<not> has_suffix ident (CHR ''-'' # tier) then []
      else let withoutTier = take (length ident - length (CHR ''-'' # tier)) ident;
               front = takeWhile (\<lambda>c. c \<noteq> CHR ''-'') withoutTier
           in if length front = length withoutTier \<or> front = [] then []
              else front @ '':'' @ drop (length front + 1) withoutTier)"

definition SpecFromDBRow :: "db_row \<Rightarrow> (string \<times> cond_error) + label_spec" where
  "SpecFromDBRow r =
     (case UnmarshalCondition (r_Condition r) of
        Inl e \<Rightarrow> Inl (r_ID r, e)
      | Inr c \<Rightarrow> Inr \<lparr>ls_ID = r_ID r, ls_Kind = r_Kind r, ls_Label = r_Label r, ls_Glyph = r_Glyph r,
          ls_Description = r_Description r, ls_Rank = r_Rank r, ls_Tier = r_Tier r,
          ls_TierKey = (if r_Kind r = KindTier \<and> r_Tier r \<noteq> [] then deriveTierKey (r_ID r) (r_Tier r) else []),
          ls_PeriodDefault = r_PeriodDefault r, ls_Condition = c\<rparr>)"

fun SpecsFromDBRows :: "db_row list \<Rightarrow> (string \<times> cond_error) + label_spec list" where
  "SpecsFromDBRows [] = Inr []"
| "SpecsFromDBRows (r # rs) =
     rbind (SpecFromDBRow r) (\<lambda>s. rbind (SpecsFromDBRows rs) (\<lambda>out. Inr (s # out)))"

section \<open>Streaks\<close>

text \<open>
  The loop computes the greatest length of a run of active days: it is reached by some run, and
  no run of consecutive active days is longer.
\<close>

lemma trailing_run_bounds: "0 \<le> trailing_run vs \<and> trailing_run vs \<le> int (length vs)"
  by (induction vs) auto

lemma streak_loop_ge: "best \<le> streak_loop best cur vs"
  by (induction best cur vs rule: streak_loop.induct) auto

lemma trailing_run_snoc_pos:
  "list_all (\<lambda>v. v > 0) xs \<Longrightarrow> trailing_run (xs @ ys) = int (length xs) + trailing_run ys"
  by (induction xs) auto

text \<open>Processing \<open>vs\<close> after a prefix whose trailing run is \<open>cur\<close> keeps the loop above every trailing run.\<close>

lemma streak_loop_append: "streak_loop b c (xs @ ys) =
    streak_loop (streak_loop b c xs) (if list_all (\<lambda>v. v > 0) xs then c + int (length xs) else trailing_run (rev xs)) ys"
proof (induction xs arbitrary: b c)
  case Nil
  then show ?case by simp
next
  case (Cons x xs)
  have "trailing_run (rev xs @ [x]) = (if list_all (\<lambda>v. v > 0) xs then int (length xs) + trailing_run [x] else trailing_run (rev xs))"
    using trailing_run_snoc_pos [of "rev xs" "[x]"]
    by (induction xs rule: rev_induct) (auto simp: trailing_run_snoc_pos)
  then show ?case
    by (auto simp: Cons ac_simps)
qed

lemma longest_snoc:
  "longestStreakInRange (xs @ [x]) =
   (if x > 0 then max (longestStreakInRange xs) (currentStreak xs + 1) else longestStreakInRange xs)"
proof -
  have "(if list_all (\<lambda>v. v > 0) xs then int (length xs) else trailing_run (rev xs)) = trailing_run (rev xs)"
    using trailing_run_snoc_pos [of "rev xs" "[]"] by auto
  then show ?thesis
    by (simp add: longestStreakInRange_def currentStreak_def streak_loop_append max_def)
      (auto split: if_splits)
qed

lemma current_snoc: "currentStreak (xs @ [x]) = (if x > 0 then currentStreak xs + 1 else 0)"
  by (simp add: currentStreak_def)

lemma current_le_longest: "currentStreak daily \<le> longestStreakInRange daily"
  using streak_loop_ge [of 0 0]
  by (induction daily rule: rev_induct)
    (auto simp: longest_snoc current_snoc longestStreakInRange_def [of "[]"] currentStreak_def [of "[]"],
      simp add: longestStreakInRange_def)

lemma longest_mono: "longestStreakInRange xs \<le> longestStreakInRange (xs @ ys)"
  by (simp add: longestStreakInRange_def streak_loop_append streak_loop_ge)

lemma active_run_le_current: "list_all (\<lambda>v. v > 0) run \<Longrightarrow> int (length run) \<le> currentStreak (xs @ run)"
  using trailing_run_snoc_pos [of "rev run" "rev xs"] trailing_run_bounds [of "rev xs"]
  by (simp add: currentStreak_def)

lemma active_run_le_longest:
  "list_all (\<lambda>v. v > 0) run \<Longrightarrow> int (length run) \<le> longestStreakInRange (xs @ run @ ys)"
proof -
  assume "list_all (\<lambda>v. v > 0) run"
  then have "int (length run) \<le> currentStreak (xs @ run)"
    by (rule active_run_le_current)
  also have "\<dots> \<le> longestStreakInRange (xs @ run)"
    by (rule current_le_longest)
  also have "\<dots> \<le> longestStreakInRange (xs @ run @ ys)"
    using longest_mono [of "xs @ run" ys] by simp
  finally show ?thesis .
qed

lemma current_is_run: "\<exists>xs run. daily = xs @ run \<and> list_all (\<lambda>v. v > 0) run \<and> currentStreak daily = int (length run)"
proof (induction daily rule: rev_induct)
  case Nil
  show ?case by (simp add: currentStreak_def)
next
  case (snoc x daily)
  then obtain xs run where r: "daily = xs @ run" "list_all (\<lambda>v. v > 0) run" "currentStreak daily = int (length run)"
    by blast
  show ?case
  proof (cases "x > 0")
    case True
    with r show ?thesis
      by (intro exI [of _ xs] exI [of _ "run @ [x]"]) (simp add: current_snoc flip: append_assoc)
  next
    case False
    then show ?thesis
      by (intro exI [of _ "daily @ [x]"] exI [of _ "[]"]) (simp add: current_snoc)
  qed
qed

lemma longest_is_run:
  "\<exists>xs run ys. daily = xs @ run @ ys \<and> list_all (\<lambda>v. v > 0) run \<and> longestStreakInRange daily = int (length run)"
proof (induction daily rule: rev_induct)
  case Nil
  show ?case by (simp add: longestStreakInRange_def)
next
  case (snoc x daily)
  then obtain xs run ys where r: "daily = xs @ run @ ys" "list_all (\<lambda>v. v > 0) run"
      "longestStreakInRange daily = int (length run)"
    by blast
  show ?case
  proof (cases "longestStreakInRange (daily @ [x]) = longestStreakInRange daily")
    case True
    with r show ?thesis
      by (intro exI [of _ xs] exI [of _ run] exI [of _ "ys @ [x]"]) simp
  next
    case False
    then have "longestStreakInRange (daily @ [x]) = currentStreak (daily @ [x])"
      by (auto simp: longest_snoc current_snoc max_def split: if_splits)
    then show ?thesis
      using current_is_run [of "daily @ [x]"] by (metis append_Nil2)
  qed
qed

end
