(* ===== verification/LabelValidate.thy ===== *)
theory LabelValidate
  imports LabelModel
begin

text \<open>
  \<open>internal/boomtime/labels/validate.go\<close>: the schema check a condition passes before it is stored.
  An error carries the JSON pointer to the offending field and what is wrong with it. The switch of
  \<open>validateAt\<close> decodes with the same structs as \<open>UnmarshalCondition\<close>, so the model shares the
  decoders and puts the checks of each primitive into \<open>check_fields\<close>.
\<close>

definition MaxConditionDepth :: nat where
  "MaxConditionDepth = 5"

datatype complaint =
    EmptyBody
  | NotAnObject
  | MissingKind
  | CannotDecode string
  | NotAnAxis string
  | NotAnOp string
  | MustBeNonEmpty
  | MustBePositive
  | MustBeNonNegative
  | OutOfRange
  | PctOutOfRange
  | Unsupported
  | TooDeep
  | BadKind string

type_synonym validation_error = "string \<times> complaint"

definition joinPath :: "string \<Rightarrow> string list \<Rightarrow> string" where
  "joinPath base segments = foldl (\<lambda>out s. out @ ''/'' @ s) base segments"

definition requireAxis :: "string \<Rightarrow> string \<Rightarrow> validation_error option" where
  "requireAxis a path =
     (if a \<in> {AxisLanguages, AxisEditors, AxisProjects, AxisCategories, AxisPlatforms} then None
      else Some (joinPath path [''axis''], NotAnAxis a))"

definition requireOp :: "string \<Rightarrow> string \<Rightarrow> validation_error option" where
  "requireOp op path = (if op = OpGE \<or> op = OpLE then None else Some (joinPath path [''op''], NotAnOp op))"

definition requirePct :: "float64 \<Rightarrow> string \<Rightarrow> validation_error option" where
  "requirePct pct path = (if pct < 0 \<or> pct > 1 then Some (joinPath path [''pct''], PctOutOfRange) else None)"

definition require :: "bool \<Rightarrow> string \<Rightarrow> string list \<Rightarrow> complaint \<Rightarrow> validation_error option" where
  "require ok path segments what = (if ok then None else Some (joinPath path segments, what))"

definition require_each :: "('a \<Rightarrow> bool) \<Rightarrow> 'a list \<Rightarrow> string \<Rightarrow> string \<Rightarrow> complaint \<Rightarrow> validation_error option" where
  "require_each ok xs path name what =
     first_error (map (\<lambda>(i, x). require (ok x) path [name, itoa (int i)] what) (enumerate 0 xs))"

text \<open>The checks of a decoded primitive, in the order of its case.\<close>

fun check_fields :: "condition \<Rightarrow> string \<Rightarrow> validation_error option" where
  "check_fields (AxisTimeCond a v op h) path = first_error
     [requireAxis a path, requireOp op path, require (v \<noteq> []) path [''value''] MustBeNonEmpty,
      require (h > 0) path [''hours''] MustBePositive]"
| "check_fields (AxisTimeSumCond a vs op h) path = first_error
     [requireAxis a path, requireOp op path, require (vs \<noteq> []) path [''values''] MustBeNonEmpty,
      require_each (\<lambda>v. v \<noteq> []) vs path ''values'' MustBeNonEmpty,
      require (h > 0) path [''hours''] MustBePositive]"
| "check_fields (AxisPctCond a v op p) path = first_error
     [requireAxis a path, requireOp op path, require (v \<noteq> []) path [''value''] MustBeNonEmpty,
      requirePct p path]"
| "check_fields (TopShareCond a op p) path = first_error
     [requireAxis a path, requireOp op path, requirePct p path]"
| "check_fields (DistinctCountCond a m op n) path = first_error
     [requireAxis a path, requireOp op path, require (m \<ge> 0) path [''minHoursEach''] MustBeNonNegative,
      require (n > 0) path [''n''] MustBePositive]"
| "check_fields (PunchcardHourPctCond hs op p) path = first_error
     [requireOp op path, require (hs \<noteq> []) path [''hoursIn''] MustBeNonEmpty,
      require_each (\<lambda>h. 0 \<le> h \<and> h \<le> 23) hs path ''hoursIn'' OutOfRange, requirePct p path]"
| "check_fields (PunchcardDowPctCond ds op p) path = first_error
     [requireOp op path, require (ds \<noteq> []) path [''dowIn''] MustBeNonEmpty,
      require_each (\<lambda>d. 0 \<le> d \<and> d \<le> 6) ds path ''dowIn'' OutOfRange, requirePct p path]"
| "check_fields (StreakCond w op d) path = first_error
     [require (w = ''current'' \<or> w = ''longest'') path [''which''] Unsupported, requireOp op path,
      require (d > 0) path [''days''] MustBePositive]"
| "check_fields (DailyAvgCond op h) path = first_error
     [requireOp op path, require (h > 0) path [''hours''] MustBePositive]"
| "check_fields (TrendCond w op r) path = first_error
     [require (w = ''last7-vs-prior7'') path [''window''] Unsupported, requireOp op path,
      require (r > 0) path [''ratio''] MustBePositive]"
| "check_fields _ path = None"

function validateAt :: "json option \<Rightarrow> string \<Rightarrow> nat \<Rightarrow> validation_error option" where
  "validateAt None path depth = Some (path, EmptyBody)"
| "validateAt (Some j) path depth =
     (case obj_fields j of None \<Rightarrow> Some (path, NotAnObject) | Some kvs \<Rightarrow>
        (case get_str kvs ''kind'' of None \<Rightarrow> Some (path, NotAnObject) | Some k \<Rightarrow>
           if k = [] then Some (joinPath path [''kind''], MissingKind)
           else (case primitive k of
              Some dec \<Rightarrow>
                (case dec kvs of None \<Rightarrow> Some (path, CannotDecode k) | Some c \<Rightarrow> check_fields c path)
            | None \<Rightarrow>
                if k = ''all'' \<or> k = ''any'' then
                  if depth + 1 > MaxConditionDepth then Some (path, TooDeep)
                  else (case get_raws kvs ''of'' of None \<Rightarrow> Some (path, CannotDecode k) | Some subs \<Rightarrow>
                          if subs = [] then Some (joinPath path [''of''], MustBeNonEmpty)
                          else first_error (map (\<lambda>(i, sub).
                                 validateAt (Some sub) (joinPath path [''of'', itoa (int i)]) (depth + 1))
                                 (enumerate 0 subs)))
                else if k = ''not'' then
                  if depth + 1 > MaxConditionDepth then Some (path, TooDeep)
                  else (case get_raw kvs ''of'' of
                          None \<Rightarrow> Some (joinPath path [''of''], MustBeNonEmpty)
                        | Some sub \<Rightarrow> validateAt (Some sub) (joinPath path [''of'']) (depth + 1))
                else Some (joinPath path [''kind''], BadKind k))))"
  by pat_completeness auto

lemma enumerate_mem: "(i, x) \<in> set (enumerate n xs) \<Longrightarrow> x \<in> set xs"
  by (auto simp: in_set_enumerate_eq intro!: nth_mem)

termination validateAt
  by (relation "measure (\<lambda>(r, path, depth). raw_size r)")
    (auto simp: raw_size_def raws_smaller dest!: enumerate_mem,
      metis raw_smaller raw_size_def option.simps(5) Suc_less_SucD not_less_eq)

declare validateAt.simps [simp del]

definition ValidateCondition :: "json option \<Rightarrow> validation_error option" where
  "ValidateCondition raw = validateAt raw [] 0"

end
