(* ===== verification/LabelJson.thy ===== *)
theory LabelJson
  imports LabelValidate
begin

text \<open>
  What decoding, encoding and validating a condition have to do with each other: the well-formed
  conditions, and the lemmas behind the round trip and the exactness of the validator.
\<close>

fun primitive_cond :: "condition \<Rightarrow> bool" where
  "primitive_cond NilCond = False"
| "primitive_cond (AllCond cs) = False"
| "primitive_cond (AnyCond cs) = False"
| "primitive_cond (NotCond c) = False"
| "primitive_cond c = True"

text \<open>The integers of a condition fit the 64 bits of the struct that holds it, and no part of it is nil.\<close>

fun representable :: "condition \<Rightarrow> bool" where
  "representable NilCond = False"
| "representable (DistinctCountCond a m op n) = int_fits n"
| "representable (PunchcardHourPctCond hs op p) = list_all int_fits hs"
| "representable (PunchcardDowPctCond ds op p) = list_all int_fits ds"
| "representable (StreakCond w op d) = int_fits d"
| "representable (AllCond cs) = list_all representable cs"
| "representable (AnyCond cs) = list_all representable cs"
| "representable (NotCond c) = representable c"
| "representable c = True"

fun composer_depth :: "condition \<Rightarrow> nat" where
  "composer_depth (AllCond cs) = Suc (foldr max (map composer_depth cs) 0)"
| "composer_depth (AnyCond cs) = Suc (foldr max (map composer_depth cs) 0)"
| "composer_depth (NotCond c) = Suc (composer_depth c)"
| "composer_depth c = 0"

definition is_axis :: "string \<Rightarrow> bool" where
  "is_axis a \<longleftrightarrow> a \<in> {AxisLanguages, AxisEditors, AxisProjects, AxisCategories, AxisPlatforms}"

definition is_op :: "string \<Rightarrow> bool" where
  "is_op op \<longleftrightarrow> op = OpGE \<or> op = OpLE"

definition is_share :: "float64 \<Rightarrow> bool" where
  "is_share p \<longleftrightarrow> 0 \<le> p \<and> p \<le> 1"

text \<open>The schema of the rule language.\<close>

fun well_formed :: "condition \<Rightarrow> bool" where
  "well_formed NilCond = False"
| "well_formed (AxisTimeCond a v op h) = (is_axis a \<and> is_op op \<and> v \<noteq> [] \<and> h > 0)"
| "well_formed (AxisTimeSumCond a vs op h) =
     (is_axis a \<and> is_op op \<and> vs \<noteq> [] \<and> list_all (\<lambda>v. v \<noteq> []) vs \<and> h > 0)"
| "well_formed (AxisPctCond a v op p) = (is_axis a \<and> is_op op \<and> v \<noteq> [] \<and> is_share p)"
| "well_formed (TopShareCond a op p) = (is_axis a \<and> is_op op \<and> is_share p)"
| "well_formed (DistinctCountCond a m op n) = (is_axis a \<and> is_op op \<and> m \<ge> 0 \<and> n > 0)"
| "well_formed (PunchcardHourPctCond hs op p) =
     (is_op op \<and> hs \<noteq> [] \<and> list_all (\<lambda>h. 0 \<le> h \<and> h \<le> 23) hs \<and> is_share p)"
| "well_formed (PunchcardDowPctCond ds op p) =
     (is_op op \<and> ds \<noteq> [] \<and> list_all (\<lambda>d. 0 \<le> d \<and> d \<le> 6) ds \<and> is_share p)"
| "well_formed (StreakCond w op d) = ((w = ''current'' \<or> w = ''longest'') \<and> is_op op \<and> d > 0)"
| "well_formed (DailyAvgCond op h) = (is_op op \<and> h > 0)"
| "well_formed (TrendCond w op r) = (w = ''last7-vs-prior7'' \<and> is_op op \<and> r > 0)"
| "well_formed (AllCond cs) = (cs \<noteq> [] \<and> list_all well_formed cs)"
| "well_formed (AnyCond cs) = (cs \<noteq> [] \<and> list_all well_formed cs)"
| "well_formed (NotCond c) = well_formed c"

section \<open>Sequences of checks and of results\<close>

lemma collect_Inr_iff: "collect w i rs = Inr xs \<longleftrightarrow> rs = map Inr xs"
  by (induction w i rs arbitrary: xs rule: collect.induct) (auto simp: rbind_Inr_iff)

lemma require_each_None: "require_each ok xs path name what = None \<longleftrightarrow> list_all ok xs"
  by (simp add: require_each_def first_error_None require_def list_all_length nth_enumerate_eq)
    blast

lemma check_fields_iff: "primitive_cond c \<Longrightarrow> check_fields c path = None \<longleftrightarrow> well_formed c"
  by (cases c)
    (auto simp: first_error_None require_each_None requireAxis_def requireOp_def requirePct_def
      require_def is_axis_def is_op_def is_share_def)

lemma depth_max: "foldr max (map f cs) 0 \<le> (n :: nat) \<longleftrightarrow> (\<forall>c\<in>set cs. f c \<le> n)"
  by (induction cs) auto

section \<open>The decoders of the primitives\<close>

lemmas decoder_defs = dec_axis_time_def dec_axis_time_sum_def dec_axis_pct_def dec_top_share_def
  dec_distinct_count_def dec_punchcard_hour_def dec_punchcard_dow_def dec_streak_def
  dec_daily_avg_def dec_trend_def

lemma decoded_primitive:
  assumes "primitive k = Some dec" "dec kvs = Some c"
  shows "primitive_cond c \<and> representable c \<and> Kind c = k"
  using assms
  by (auto simp: primitive_def decoder_defs bind_eq_Some_conv get_int_fits get_ints_fit split: if_splits)

lemma not_composer: "primitive ''all'' = None" "primitive ''any'' = None" "primitive ''not'' = None"
  by (simp_all add: primitive_def)

lemma lower_names [simp]:
  "to_lower ''kind'' = ''kind''" "to_lower ''axis'' = ''axis''" "to_lower ''value'' = ''value''"
  "to_lower ''values'' = ''values''" "to_lower ''op'' = ''op''" "to_lower ''hours'' = ''hours''"
  "to_lower ''pct'' = ''pct''" "to_lower ''minHoursEach'' = ''minhourseach''" "to_lower ''n'' = ''n''"
  "to_lower ''hoursIn'' = ''hoursin''" "to_lower ''dowIn'' = ''dowin''" "to_lower ''which'' = ''which''"
  "to_lower ''days'' = ''days''" "to_lower ''window'' = ''window''" "to_lower ''ratio'' = ''ratio''"
  "to_lower ''of'' = ''of''"
  by code_simp+

lemma encoded_primitive:
  assumes "primitive_cond c" "representable c"
  shows "\<exists>dec. primitive (Kind c) = Some dec \<and> dec ((''kind'', JStr (Kind c)) # struct_fields c) = Some c"
  using assms
  by (cases c) (simp_all add: primitive_def decoder_defs get_defs vals_def)

lemma kind_of_primitive [simp]: "get_str ((''kind'', JStr k) # struct_fields c) ''kind'' = Some k"
  by (cases c) (simp_all add: get_str_def vals_def)

lemma kind_of_composer [simp]:
  "get_str [(''kind'', JStr k), (''of'', v)] ''kind'' = Some k"
  "get_raws [(''kind'', JStr k), (''of'', JArr vs)] ''of'' = Some vs"
  "get_raw [(''kind'', JStr k), (''of'', v)] ''of'' = Some v"
  by (simp_all add: get_defs vals_def)

lemma MarshalCondition_primitive:
  "primitive_cond c \<Longrightarrow> MarshalCondition c = Inr (JObj ((''kind'', JStr (Kind c)) # struct_fields c))"
  by (cases c) simp_all

lemma Kind_not_Nil: "primitive_cond c \<Longrightarrow> Kind c \<noteq> []"
  by (cases c) simp_all

lemma marshal_composer_Inr:
  assumes "\<And>c. c \<in> set cs \<Longrightarrow> \<exists>j. MarshalCondition c = Inr j"
  shows "\<exists>js. map MarshalCondition cs = map Inr js \<and>
    marshalComposer k (map MarshalCondition cs) = Inr (JObj [(''kind'', JStr k), (''of'', JArr js)])"
proof -
  from assms have "\<exists>js. map MarshalCondition cs = map Inr js"
  proof (induction cs)
    case (Cons c cs)
    then have "\<exists>j. MarshalCondition c = Inr j" "\<exists>js. map MarshalCondition cs = map Inr js"
      by simp_all
    then obtain j js where "MarshalCondition c = Inr j" "map MarshalCondition cs = map Inr js"
      by blast
    then show ?case by (intro exI [of _ "j # js"]) simp
  qed simp
  then obtain js where "map MarshalCondition cs = map Inr js" by blast
  moreover from this have "collect (InOf k) 0 (map MarshalCondition cs) = Inr js"
    by (simp add: collect_Inr_iff)
  ultimately show ?thesis by (auto simp: marshalComposer_def)
qed

section \<open>Round trip\<close>

lemma unmarshal_composer:
  assumes "k = ''all'' \<or> k = ''any''" "map (\<lambda>r. UnmarshalCondition (Some r)) js = map Inr cs"
  shows "UnmarshalCondition (Some (JObj [(''kind'', JStr k), (''of'', JArr js)])) =
    Inr (if k = ''all'' then AllCond cs else AnyCond cs)"
proof -
  have "collect (InOf k) 0 (map (\<lambda>r. UnmarshalCondition (Some r)) js) = Inr cs"
    using assms(2) by (simp add: collect_Inr_iff)
  then show ?thesis
    using assms(1) not_composer by (auto simp: UnmarshalCondition.simps)
qed

lemma marshal_unmarshal_primitive:
  assumes "primitive_cond c" "representable c"
  shows "\<exists>j. MarshalCondition c = Inr j \<and> UnmarshalCondition (Some j) = Inr c"
proof -
  obtain dec where "primitive (Kind c) = Some dec" "dec ((''kind'', JStr (Kind c)) # struct_fields c) = Some c"
    using encoded_primitive [OF assms] by blast
  then have "UnmarshalCondition (Some (JObj ((''kind'', JStr (Kind c)) # struct_fields c))) = Inr c"
    by (simp add: UnmarshalCondition.simps)
  then show ?thesis
    using MarshalCondition_primitive [OF assms(1)] by simp
qed

lemma unmarshal_parts:
  "(\<And>c. c \<in> set cs \<Longrightarrow> \<exists>j. MarshalCondition c = Inr j \<and> UnmarshalCondition (Some j) = Inr c) \<Longrightarrow>
   map MarshalCondition cs = map Inr js \<Longrightarrow> map (\<lambda>r. UnmarshalCondition (Some r)) js = map Inr cs"
proof (induction cs arbitrary: js)
  case (Cons c cs)
  then obtain z zs where js: "js = z # zs" "MarshalCondition c = Inr z" "map MarshalCondition cs = map Inr zs"
    by (cases js) auto
  have "UnmarshalCondition (Some z) = Inr c"
    using Cons.prems(1) [of c] js(2) by auto
  with Cons js show ?case by simp
qed simp

lemma marshal_unmarshal:
  "representable c \<Longrightarrow> \<exists>j. MarshalCondition c = Inr j \<and> UnmarshalCondition (Some j) = Inr c"
proof (induction c)
  case (AllCond cs)
  then have ih: "\<And>c. c \<in> set cs \<Longrightarrow> \<exists>j. MarshalCondition c = Inr j \<and> UnmarshalCondition (Some j) = Inr c"
    by (simp add: list_all_iff)
  then obtain js where js: "map MarshalCondition cs = map Inr js"
      "marshalComposer ''all'' (map MarshalCondition cs) = Inr (JObj [(''kind'', JStr ''all''), (''of'', JArr js)])"
    using marshal_composer_Inr [of cs] by blast
  have "map (\<lambda>r. UnmarshalCondition (Some r)) js = map Inr cs"
    using ih js(1) by (rule unmarshal_parts)
  with js(2) show ?case by (simp add: unmarshal_composer)
next
  case (AnyCond cs)
  then have ih: "\<And>c. c \<in> set cs \<Longrightarrow> \<exists>j. MarshalCondition c = Inr j \<and> UnmarshalCondition (Some j) = Inr c"
    by (simp add: list_all_iff)
  then obtain js where js: "map MarshalCondition cs = map Inr js"
      "marshalComposer ''any'' (map MarshalCondition cs) = Inr (JObj [(''kind'', JStr ''any''), (''of'', JArr js)])"
    using marshal_composer_Inr [of cs] by blast
  have "map (\<lambda>r. UnmarshalCondition (Some r)) js = map Inr cs"
    using ih js(1) by (rule unmarshal_parts)
  with js(2) show ?case by (simp add: unmarshal_composer)
next
  case (NotCond c)
  then show ?case by (auto simp: UnmarshalCondition.simps not_composer)
qed (simp, (rule marshal_unmarshal_primitive, simp, simp)+)

section \<open>One level of the recursive functions\<close>

text \<open>The equation of each case of the two switches, for an object with discriminator \<open>k\<close>.\<close>

lemma UnmarshalCondition_cases:
  assumes "obj_fields j = Some kvs" "get_str kvs ''kind'' = Some k"
  shows "primitive k = Some dec \<Longrightarrow>
      UnmarshalCondition (Some j) = (case dec kvs of None \<Rightarrow> Inl (Decode k) | Some c \<Rightarrow> Inr c)"
    and "k = ''all'' \<or> k = ''any'' \<Longrightarrow> get_raws kvs ''of'' = Some subs \<Longrightarrow>
      UnmarshalCondition (Some j) =
        rbind (collect (InOf k) 0 (map (\<lambda>r. UnmarshalCondition (Some r)) subs))
          (\<lambda>out. Inr (if k = ''all'' then AllCond out else AnyCond out))"
    and "k = ''not'' \<Longrightarrow> UnmarshalCondition (Some j) =
        (case UnmarshalCondition (get_raw kvs ''of'') of Inl e \<Rightarrow> Inl (InNot e) | Inr sub \<Rightarrow> Inr (NotCond sub))"
  using assms by (subst UnmarshalCondition.simps(2), auto simp: not_composer)+

lemma validateAt_cases:
  assumes "obj_fields j = Some kvs" "get_str kvs ''kind'' = Some k" "k \<noteq> []"
  shows "primitive k = Some dec \<Longrightarrow> validateAt (Some j) path depth =
        (case dec kvs of None \<Rightarrow> Some (path, CannotDecode k) | Some c \<Rightarrow> check_fields c path)"
    and "k = ''all'' \<or> k = ''any'' \<Longrightarrow> validateAt (Some j) path depth =
        (if depth + 1 > MaxConditionDepth then Some (path, TooDeep)
         else (case get_raws kvs ''of'' of None \<Rightarrow> Some (path, CannotDecode k) | Some subs \<Rightarrow>
           if subs = [] then Some (joinPath path [''of''], MustBeNonEmpty)
           else first_error (map (\<lambda>(i, sub).
             validateAt (Some sub) (joinPath path [''of'', itoa (int i)]) (depth + 1)) (enumerate 0 subs))))"
    and "k = ''not'' \<Longrightarrow> validateAt (Some j) path depth =
        (if depth + 1 > MaxConditionDepth then Some (path, TooDeep)
         else (case get_raw kvs ''of'' of None \<Rightarrow> Some (joinPath path [''of''], MustBeNonEmpty)
           | Some sub \<Rightarrow> validateAt (Some sub) (joinPath path [''of'']) (depth + 1)))"
    and "primitive k = None \<Longrightarrow> k \<notin> {''all'', ''any'', ''not''} \<Longrightarrow>
        validateAt (Some j) path depth = Some (joinPath path [''kind''], BadKind k)"
  using assms by (subst validateAt.simps(2), auto simp: not_composer)+

lemma validateAt_object:
  assumes "validateAt raw path depth = None"
  obtains j kvs k where "raw = Some j" "obj_fields j = Some kvs" "get_str kvs ''kind'' = Some k" "k \<noteq> []"
proof (cases raw)
  case (Some j)
  from assms have "validateAt (Some j) path depth = None" by (simp add: Some)
  then show ?thesis
    using that [OF Some] by (subst (asm) validateAt.simps(2)) (auto split: option.splits if_splits)
qed (use assms in \<open>simp add: validateAt.simps(1)\<close>)

section \<open>The validator accepts exactly the encodings of shallow well-formed conditions\<close>

lemma validate_subs:
  "first_error (map (\<lambda>(i, sub). validateAt (Some sub) (f i) d) (enumerate 0 subs)) = None \<longleftrightarrow>
   (\<forall>i < length subs. validateAt (Some (subs ! i)) (f i) d = None)"
  by (auto simp: first_error_None list_all_length nth_enumerate_eq)

lemma parts_exist:
  "(\<And>i. i < length subs \<Longrightarrow> \<exists>c. UnmarshalCondition (Some (subs ! i)) = Inr c \<and> P c) \<Longrightarrow>
   \<exists>cs. map (\<lambda>r. UnmarshalCondition (Some r)) subs = map Inr cs \<and> list_all P cs \<and> (cs = [] \<longleftrightarrow> subs = [])"
proof (induction subs)
  case (Cons s subs)
  obtain c where c: "UnmarshalCondition (Some s) = Inr c" "P c"
    using Cons.prems [of 0] by auto
  obtain cs where cs: "map (\<lambda>r. UnmarshalCondition (Some r)) subs = map Inr cs" "list_all P cs"
    using Cons.IH Cons.prems [of "Suc i" for i] by auto
  show ?case
    by (intro exI [of _ "c # cs"]) (simp add: c cs)
qed simp

lemma validate_sound:
  assumes "validateAt raw path depth = None" "depth \<le> MaxConditionDepth"
  shows "\<exists>c. UnmarshalCondition raw = Inr c \<and>
    well_formed c \<and> representable c \<and> depth + composer_depth c \<le> MaxConditionDepth"
  using assms
proof (induction raw arbitrary: path depth rule: measure_induct_rule [of raw_size])
  case (less raw)
  let ?good = "\<lambda>d c. well_formed c \<and> representable c \<and> d + composer_depth c \<le> MaxConditionDepth"
  obtain j kvs k where j: "raw = Some j" "obj_fields j = Some kvs" "get_str kvs ''kind'' = Some k" "k \<noteq> []"
    using validateAt_object [OF less.prems(1)] by blast
  note valid = validateAt_cases [OF j(2-4)] and decode = UnmarshalCondition_cases [OF j(2,3)]
  show ?case
  proof (cases "primitive k")
    case (Some dec)
    then obtain c where c: "dec kvs = Some c" "check_fields c path = None"
      using less.prems(1) j(1) by (auto simp: valid(1) split: option.splits)
    moreover have "primitive_cond c" "representable c"
      using decoded_primitive [OF Some c(1)] by auto
    moreover from this have "composer_depth c = 0" by (cases c) auto
    ultimately show ?thesis
      using Some j(1) less.prems(2) decode(1) by (auto simp: check_fields_iff)
  next
    case None
    have "k \<in> {''all'', ''any'', ''not''}"
      using less.prems(1) j(1) valid(4) [OF None, of path depth] by (metis option.distinct(1))
    then consider (comp) "k = ''all'' \<or> k = ''any''" | (neg) "k = ''not''"
      by auto
    then show ?thesis
    proof cases
      case comp
      then obtain subs where subs: "get_raws kvs ''of'' = Some subs" "subs \<noteq> []"
          "Suc depth \<le> MaxConditionDepth"
          "\<And>i. i < length subs \<Longrightarrow>
            validateAt (Some (subs ! i)) (joinPath path [''of'', itoa (int i)]) (Suc depth) = None"
        using less.prems(1) j(1) valid(2) [OF comp, of path depth]
        by (auto simp: validate_subs split: option.splits if_splits)
      have "\<exists>c. UnmarshalCondition (Some (subs ! i)) = Inr c \<and> ?good (Suc depth) c" if "i < length subs" for i
        using less.IH [OF _ subs(4) [OF that] subs(3)] raws_smaller [OF j(2) subs(1), of "subs ! i"] that j(1)
        by (simp add: raw_size_def)
      from parts_exist [OF this] obtain cs where cs:
          "map (\<lambda>r. UnmarshalCondition (Some r)) subs = map Inr cs" "list_all (?good (Suc depth)) cs" "cs \<noteq> []"
        using subs(2) by auto
      have "collect (InOf k) 0 (map (\<lambda>r. UnmarshalCondition (Some r)) subs) = Inr cs"
        using cs(1) by (simp add: collect_Inr_iff)
      then have "UnmarshalCondition raw = Inr (if k = ''all'' then AllCond cs else AnyCond cs)"
        using j(1) decode(2) [OF comp subs(1)] by simp
      moreover have "foldr max (map composer_depth cs) 0 \<le> MaxConditionDepth - Suc depth"
        using cs(2) by (auto simp: depth_max list_all_iff)
      ultimately show ?thesis
        using cs(2,3) subs(3) by (auto simp: list_all_iff)
    next
      case neg
      then obtain sub where sub: "get_raw kvs ''of'' = Some sub" "Suc depth \<le> MaxConditionDepth"
          "validateAt (Some sub) (joinPath path [''of'']) (Suc depth) = None"
        using less.prems(1) j(1) valid(3) [OF neg, of path depth] by (auto split: option.splits if_splits)
      have "raw_size (Some sub) < raw_size raw"
        using raw_smaller [OF j(2), of "''of''"] sub(1) j(1) by simp
      from less.IH [OF this sub(3,2)] show ?thesis
        using j(1) decode(3) [OF neg] sub(1) by auto
    qed
  qed
qed

lemma validate_composer:
  assumes "k = ''all'' \<or> k = ''any''" "js \<noteq> []" "Suc depth \<le> MaxConditionDepth"
    and "\<And>j p. j \<in> set js \<Longrightarrow> validateAt (Some j) p (Suc depth) = None"
  shows "validateAt (Some (JObj [(''kind'', JStr k), (''of'', JArr js)])) path depth = None"
proof -
  have "k \<noteq> []" using assms(1) by auto
  then show ?thesis
    using assms by (subst validateAt_cases(2) [of _ _ k]) (auto simp: validate_subs)
qed

lemma validate_parts:
  assumes "\<And>c j p d. c \<in> set cs \<Longrightarrow> well_formed c \<Longrightarrow> representable c \<Longrightarrow>
      d + composer_depth c \<le> MaxConditionDepth \<Longrightarrow> MarshalCondition c = Inr j \<Longrightarrow> validateAt (Some j) p d = None"
    and "list_all well_formed cs" "list_all representable cs"
    and "Suc depth + foldr max (map composer_depth cs) 0 \<le> MaxConditionDepth"
    and "map MarshalCondition cs = map Inr js" "j \<in> set js"
  shows "validateAt (Some j) p (Suc depth) = None"
proof -
  have "Inr j \<in> set (map MarshalCondition cs)"
    using assms(5,6) by simp
  then obtain c where c: "c \<in> set cs" "MarshalCondition c = Inr j"
    by auto
  moreover have "composer_depth c \<le> foldr max (map composer_depth cs) 0"
    using depth_max [of composer_depth cs "foldr max (map composer_depth cs) 0"] c(1) by simp
  ultimately show ?thesis
    using assms(1) [of c "Suc depth" j p] assms(2-4) by (simp add: list_all_iff)
qed

lemma validate_primitive:
  assumes "MarshalCondition c = Inr j" "primitive_cond c" "well_formed c" "representable c"
  shows "validateAt (Some j) path depth = None"
proof -
  obtain dec where "primitive (Kind c) = Some dec" "dec ((''kind'', JStr (Kind c)) # struct_fields c) = Some c"
    using encoded_primitive [OF assms(2,4)] by blast
  then show ?thesis
    using assms Kind_not_Nil [OF assms(2)] MarshalCondition_primitive [OF assms(2)]
    by (auto simp: validateAt_cases(1) check_fields_iff)
qed

lemma validate_encoded:
  "well_formed c \<Longrightarrow> representable c \<Longrightarrow> depth + composer_depth c \<le> MaxConditionDepth \<Longrightarrow>
   MarshalCondition c = Inr j \<Longrightarrow> validateAt (Some j) path depth = None"
proof (induction c arbitrary: j path depth)
  case (AllCond cs)
  then obtain js where js: "map MarshalCondition cs = map Inr js"
      "j = JObj [(''kind'', JStr ''all''), (''of'', JArr js)]"
    by (auto simp: marshalComposer_def rbind_Inr_iff collect_Inr_iff)
  have "validateAt (Some x) p (Suc depth) = None" if "x \<in> set js" for x p
    by (rule validate_parts [OF AllCond.IH]) (use AllCond.prems js(1) that in auto)
  moreover have "js \<noteq> []"
    using AllCond.prems(1) js(1) by auto
  ultimately show ?case
    unfolding js(2) using AllCond.prems(3) by (intro validate_composer) auto
next
  case (AnyCond cs)
  then obtain js where js: "map MarshalCondition cs = map Inr js"
      "j = JObj [(''kind'', JStr ''any''), (''of'', JArr js)]"
    by (auto simp: marshalComposer_def rbind_Inr_iff collect_Inr_iff)
  have "validateAt (Some x) p (Suc depth) = None" if "x \<in> set js" for x p
    by (rule validate_parts [OF AnyCond.IH]) (use AnyCond.prems js(1) that in auto)
  moreover have "js \<noteq> []"
    using AnyCond.prems(1) js(1) by auto
  ultimately show ?case
    unfolding js(2) using AnyCond.prems(3) by (intro validate_composer) auto
next
  case (NotCond c)
  then obtain sub where sub: "MarshalCondition c = Inr sub" "j = JObj [(''kind'', JStr ''not''), (''of'', sub)]"
    by (auto simp: rbind_Inr_iff)
  have "validateAt (Some sub) (joinPath path [''of'']) (Suc depth) = None"
    by (rule NotCond.IH) (use NotCond.prems sub(1) in auto)
  then show ?case
    using sub(2) NotCond.prems(3) by (simp add: validateAt_cases(3))
qed (simp, (erule validate_primitive; simp)+)

end
