(* ===== verification/LabelProps.thy ===== *)
theory LabelProps
  imports LabelEval LabelJson
begin

text \<open>
  The properties of the label rules: the validator accepts exactly what the decoder turns into a
  shallow well-formed condition, the JSON form loses nothing, and the award list is the sorted
  list of winners whatever order the map of tier winners is visited in.
\<close>

interpretation award_order: strict_weak award_before
  by unfold_locales (auto simp: award_before_def split: if_splits)

section \<open>The tier fold\<close>

text \<open>What the fold over the passing specs has established once it has seen \<open>seen\<close>.\<close>

definition dedupe_inv :: "label_spec list \<Rightarrow> (string \<times> label_spec) list \<times> label_spec list \<Rightarrow> bool" where
  "dedupe_inv seen st \<longleftrightarrow>
     distinct (map fst (fst st)) \<and> snd st = filter (\<lambda>s. \<not> is_tiered s) seen \<and>
     (\<forall>(k, w) \<in> set (fst st). w \<in> set seen \<and> is_tiered w \<and> ls_TierKey w = k) \<and>
     (\<forall>s \<in> set seen. is_tiered s \<longrightarrow>
        (\<exists>w. aget (fst st) (ls_TierKey s) = Some w \<and> tierStrength (ls_Tier s) \<le> tierStrength (ls_Tier w)))"

lemma set_aput: "distinct (map fst xs) \<Longrightarrow> set (aput xs k v) = insert (k, v) {p \<in> set xs. fst p \<noteq> k}"
  by (induction xs k v rule: aput.induct) force+

lemma dedupe_put:
  assumes "dedupe_inv seen (m, nt)" "is_tiered s"
    and "\<And>cur. aget m (ls_TierKey s) = Some cur \<Longrightarrow> tierStrength (ls_Tier cur) \<le> tierStrength (ls_Tier s)"
  shows "dedupe_inv (seen @ [s]) (aput m (ls_TierKey s) s, nt)"
proof -
  have "\<exists>w. aget (aput m (ls_TierKey s) s) (ls_TierKey x) = Some w \<and> tierStrength (ls_Tier x) \<le> tierStrength (ls_Tier w)"
    if "x \<in> set (seen @ [s])" "is_tiered x" for x
  proof (cases "x \<in> set seen")
    case True
    then obtain w where "aget m (ls_TierKey x) = Some w" "tierStrength (ls_Tier x) \<le> tierStrength (ls_Tier w)"
      using assms(1) \<open>is_tiered x\<close> by (auto simp: dedupe_inv_def)
    then show ?thesis
      using assms(3) [of w] by (auto simp: aget_aput intro: order_trans)
  qed (use that in \<open>simp add: aget_aput\<close>)
  then show ?thesis
    using assms(1,2) by (auto simp: dedupe_inv_def distinct_aput set_aput)
qed

lemma dedupe_step_inv:
  assumes "dedupe_inv seen st"
  shows "dedupe_inv (seen @ [s]) (dedupe_step st s)"
proof -
  obtain m nt where st: "st = (m, nt)" by (cases st)
  show ?thesis
  proof (cases "is_tiered s")
    case False
    then show ?thesis
      using assms by (auto simp: dedupe_inv_def dedupe_step_def st)
  next
    case tiered: True
    show ?thesis
    proof (cases "aget m (ls_TierKey s)")
      case None
      then show ?thesis
        using dedupe_put [of seen m nt s] assms tiered by (simp add: dedupe_step_def st)
    next
      case (Some cur)
      then show ?thesis
        using dedupe_put [of seen m nt s] assms tiered
        by (auto simp: dedupe_step_def st not_less dedupe_inv_def)
    qed
  qed
qed

lemma dedupe_fold: "dedupe_inv passing (foldl dedupe_step ([], []) passing)"
  by (induction passing rule: rev_induct) (simp add: dedupe_inv_def, simp add: dedupe_step_inv)

lemma one_per_key:
  "distinct (map fst m) \<Longrightarrow> (k, w) \<in> set m \<Longrightarrow> (\<And>k' v. (k', v) \<in> set m \<Longrightarrow> key v = k') \<Longrightarrow>
   filter (\<lambda>v. key v = k) (map snd m) = [w]"
proof (induction m)
  case (Cons p m)
  have "filter (\<lambda>v. key v = k) (map snd m) = []" if "k \<notin> fst ` set m"
    using that Cons.prems(3) by (force simp: filter_empty_conv)
  with Cons show ?case by (cases p) force
qed simp

definition passing_specs :: "payload option \<Rightarrow> label_spec list \<Rightarrow> label_spec list" where
  "passing_specs p catalog = filter (\<lambda>s. EvaluateCondition (ls_Condition s) p) catalog"

lemma award_winners_unfold:
  "\<exists>m nt. dedupe_inv (passing_specs p catalog) (m, nt) \<and>
    (\<forall>order. award_winners order p catalog = slice_stable award_before (order (map snd m) @ nt))"
proof -
  obtain m nt where "foldl dedupe_step ([], []) (passing_specs p catalog) = (m, nt)"
    by fastforce
  then show ?thesis
    using dedupe_fold [of "passing_specs p catalog"]
    by (auto simp: award_winners_def passing_specs_def intro!: exI [of _ m] exI [of _ nt])
qed

section \<open>Properties\<close>

text \<open>
  C14 \<open>EvaluateAll\<close> awards only specs whose condition holds, all of those without a tier, and for
  every tier key with a passing spec exactly one spec, at least as strong as any passing spec of
  that key; the list is sorted by rank, then by id.
\<close>

theorem EvaluateAll_spec:
  assumes "\<And>xs. mset (order xs) = mset xs"
  shows "EvaluateAll order p catalog = map award_of (award_winners order p catalog) \<and>
    set (award_winners order p catalog) \<subseteq> {s \<in> set catalog. EvaluateCondition (ls_Condition s) p} \<and>
    filter (\<lambda>s. \<not> is_tiered s) (award_winners order p catalog) =
      slice_stable award_before
        (filter (\<lambda>s. EvaluateCondition (ls_Condition s) p \<and> \<not> is_tiered s) catalog) \<and>
    (\<forall>s \<in> set catalog. EvaluateCondition (ls_Condition s) p \<and> is_tiered s \<longrightarrow>
       (\<exists>w. filter (\<lambda>v. is_tiered v \<and> ls_TierKey v = ls_TierKey s) (award_winners order p catalog) = [w] \<and>
            tierStrength (ls_Tier s) \<le> tierStrength (ls_Tier w))) \<and>
    sorted_wrt (\<lambda>a b. \<not> award_before b a) (award_winners order p catalog)"
proof -
  obtain m nt where inv: "dedupe_inv (passing_specs p catalog) (m, nt)"
    and win: "\<And>order. award_winners order p catalog = slice_stable award_before (order (map snd m) @ nt)"
    using award_winners_unfold [of p catalog] by blast
  have ord: "set (order (map snd m)) = snd ` set m"
    using mset_eq_setD [OF assms [of "map snd m"]] by simp
  have tiered: "\<forall>w \<in> set (order (map snd m)). is_tiered w"
    using inv by (auto simp: ord dedupe_inv_def)
  have nt: "nt = filter (\<lambda>s. EvaluateCondition (ls_Condition s) p \<and> \<not> is_tiered s) catalog"
    using inv by (simp add: dedupe_inv_def passing_specs_def conj_commute)
  have one: "\<exists>w. filter (\<lambda>v. is_tiered v \<and> ls_TierKey v = ls_TierKey s) (award_winners order p catalog) = [w] \<and>
      tierStrength (ls_Tier s) \<le> tierStrength (ls_Tier w)"
    if s: "s \<in> set (passing_specs p catalog)" "is_tiered s" for s
  proof -
    obtain w where w: "aget m (ls_TierKey s) = Some w" "tierStrength (ls_Tier s) \<le> tierStrength (ls_Tier w)"
      using inv s by (auto simp: dedupe_inv_def)
    have "filter (\<lambda>v. ls_TierKey v = ls_TierKey s) (map snd m) = [w]"
      by (rule one_per_key) (use inv aget_SomeD [OF w(1)] in \<open>auto simp: dedupe_inv_def\<close>)
    then have "mset (filter (\<lambda>v. ls_TierKey v = ls_TierKey s) (order (map snd m))) = {#w#}"
      using assms [of "map snd m"] by (metis mset_filter mset_single_iff)
    then have "filter (\<lambda>v. ls_TierKey v = ls_TierKey s) (order (map snd m)) = [w]"
      by (metis mset_single_iff_right)
    moreover have "filter (\<lambda>v. is_tiered v \<and> ls_TierKey v = ls_TierKey s) (order (map snd m)) =
        filter (\<lambda>v. ls_TierKey v = ls_TierKey s) (order (map snd m))"
      using tiered by (auto intro: filter_cong)
    moreover have "filter (\<lambda>v. is_tiered v \<and> ls_TierKey v = ls_TierKey s) nt = []"
      by (auto simp: nt filter_empty_conv)
    ultimately show ?thesis
      using w(2) by (simp add: win award_order.filter_slice_stable)
  qed
  have "set (award_winners order p catalog) \<subseteq> {s \<in> set catalog. EvaluateCondition (ls_Condition s) p}"
    using inv by (auto simp: win ord dedupe_inv_def passing_specs_def)
  moreover have "filter (\<lambda>s. \<not> is_tiered s) (order (map snd m) @ nt) = nt"
    using tiered by (auto simp: nt filter_empty_conv)
  ultimately show ?thesis
    using one by (auto simp: EvaluateAll_def win award_order.filter_slice_stable award_order.sorted
      passing_specs_def nt)
qed

definition demo_spec :: "string \<Rightarrow> int \<Rightarrow> string \<Rightarrow> string \<Rightarrow> condition \<Rightarrow> label_spec" where
  "demo_spec ident rank tier key c = \<lparr>ls_ID = ident, ls_Kind = (if key = [] then ''meme'' else KindTier), ls_Label = ident,
     ls_Glyph = [], ls_Description = [], ls_Rank = rank, ls_Tier = tier, ls_TierKey = key,
     ls_PeriodDefault = [], ls_Condition = c\<rparr>"

definition demo_catalog :: "label_spec list" where
  "demo_catalog =
     [demo_spec ''py-adept'' 20 ''adept'' ''languages:python'' (AxisTimeCond ''languages'' ''Python'' OpGE 50),
      demo_spec ''py-master'' 30 ''master'' ''languages:python'' (AxisTimeCond ''languages'' ''Python'' OpGE 100),
      demo_spec ''idle'' 40 [] [] (DailyAvgCond OpLE 1),
      demo_spec ''py-legend'' 50 ''legend'' ''languages:python'' (AxisTimeCond ''languages'' ''Python'' OpGE 1000)]"

definition demo_payload :: payload where
  "demo_payload = empty_payload\<lparr>Languages := [\<lparr>Name = ''python'', TotalSeconds = 400000\<rparr>]\<rparr>"

lemma demo_awards: "map la_ID (EvaluateAll rev (Some demo_payload) demo_catalog) = [''idle'', ''py-master'']"
  by code_simp

lemma EvaluateAll_spec_witness:
  "map la_ID (EvaluateAll rev (Some demo_payload) demo_catalog) = [''idle'', ''py-master''] \<and>
   sorted_wrt (\<lambda>a b. \<not> award_before b a) (award_winners rev (Some demo_payload) demo_catalog)"
  using EvaluateAll_spec [of rev "Some demo_payload" demo_catalog] demo_awards by simp

text \<open>
  When the ids of the catalog are distinct, as the primary key of the table makes them, the
  award list does not depend on the order in which Go happens to visit the map of tier winners.
\<close>

lemma EvaluateAll_deterministic:
  assumes "\<And>xs. mset (order xs) = mset xs" "\<And>xs. mset (order' xs) = mset xs"
    and "distinct (map ls_ID catalog)"
  shows "EvaluateAll order p catalog = EvaluateAll order' p catalog"
proof -
  obtain m nt where inv: "dedupe_inv (passing_specs p catalog) (m, nt)"
    and win: "\<And>order. award_winners order p catalog = slice_stable award_before (order (map snd m) @ nt)"
    using award_winners_unfold [of p catalog] by blast
  have "set (order (map snd m) @ nt) \<subseteq> set catalog"
    using inv mset_eq_setD [OF assms(1) [of "map snd m"]] by (auto simp: dedupe_inv_def passing_specs_def)
  then have "a = b" if "a \<in> set (order (map snd m) @ nt)" "b \<in> set (order (map snd m) @ nt)"
      "\<not> award_before a b" "\<not> award_before b a" for a b
    using that assms(3) by (auto simp: award_before_def distinct_map inj_on_def split: if_splits)
  then have "award_winners order p catalog = award_winners order' p catalog"
    unfolding win by (intro award_order.slice_stable_order_independent) (use assms(1,2) in auto)
  then show ?thesis by (simp add: EvaluateAll_def)
qed

lemma EvaluateAll_deterministic_witness:
  "EvaluateAll rev (Some demo_payload) demo_catalog = EvaluateAll id (Some demo_payload) demo_catalog \<and>
   distinct (map ls_ID demo_catalog)"
proof -
  have "distinct (map ls_ID demo_catalog)" by code_simp
  then show ?thesis
    using EvaluateAll_deterministic [of rev id demo_catalog "Some demo_payload"] by simp
qed

text \<open>
  C15 Encoding a condition and decoding the result gives the condition back: nothing of it, nested
  composers included, is lost in the database. A condition is encodable when no part of it is nil
  and its integers fit an \<open>int\<close>.
\<close>

theorem condition_roundtrip:
  "representable c \<Longrightarrow> \<exists>j. MarshalCondition c = Inr j \<and> UnmarshalCondition (Some j) = Inr c"
  by (rule marshal_unmarshal)

definition demo_condition :: condition where
  "demo_condition = AllCond [AxisTimeSumCond ''editors'' [''vim'', ''emacs''] OpGE (5 / 2),
     NotCond (PunchcardHourPctCond [22, 23] OpGE (1 / 4)), AnyCond [StreakCond ''current'' OpGE 7]]"

lemma condition_roundtrip_witness:
  "\<exists>j. MarshalCondition demo_condition = Inr j \<and> UnmarshalCondition (Some j) = Inr demo_condition"
  by (rule condition_roundtrip) (simp add: demo_condition_def int_fits_def)

text \<open>
  C16 Whatever JSON the validator accepts decodes into a condition that obeys the schema and nests
  at most five composers, and a catalog all of whose rows were validated loads completely.
\<close>

theorem validated_decodes:
  "ValidateCondition raw = None \<Longrightarrow>
   \<exists>c. UnmarshalCondition raw = Inr c \<and> well_formed c \<and> composer_depth c \<le> MaxConditionDepth \<and>
     (\<forall>r. r_Condition r = raw \<longrightarrow> (\<exists>s. SpecFromDBRow r = Inr s \<and> ls_Condition s = c))"
  using validate_sound [of raw "[]" 0] by (auto simp: ValidateCondition_def SpecFromDBRow_def)

lemma demo_encodes: "\<exists>j. MarshalCondition demo_condition = Inr j \<and> ValidateCondition (Some j) = None"
proof -
  have c: "representable demo_condition" "well_formed demo_condition" "composer_depth demo_condition \<le> MaxConditionDepth"
    by (simp_all add: demo_condition_def int_fits_def is_axis_def is_op_def is_share_def MaxConditionDepth_def)
  then show ?thesis
    using marshal_unmarshal [OF c(1)] validate_encoded [OF c(2,1), of 0] by (auto simp: ValidateCondition_def)
qed

lemma validated_decodes_witness: "\<exists>raw c. ValidateCondition raw = None \<and> UnmarshalCondition raw = Inr c"
  using demo_encodes validated_decodes by blast

text \<open>
  The validator accepts the encoding of every condition that obeys the schema and nests at most
  five composers: together with the previous property it decides the schema exactly.
\<close>

lemma encoded_validates:
  "well_formed c \<Longrightarrow> representable c \<Longrightarrow> composer_depth c \<le> MaxConditionDepth \<Longrightarrow>
   \<exists>j. MarshalCondition c = Inr j \<and> ValidateCondition (Some j) = None \<and> UnmarshalCondition (Some j) = Inr c"
  using marshal_unmarshal [of c] validate_encoded [of c 0] by (auto simp: ValidateCondition_def)

lemma encoded_validates_witness:
  "\<exists>j. MarshalCondition demo_condition = Inr j \<and> ValidateCondition (Some j) = None"
  using encoded_validates [of demo_condition]
  by (auto simp: demo_condition_def int_fits_def is_axis_def is_op_def is_share_def MaxConditionDepth_def)

text \<open>
  The longest streak is the greatest length of a run of consecutive active days, and the current
  streak the greatest length of such a run that ends on the last day.
\<close>

lemma streaks_are_longest_runs:
  "(\<exists>xs run ys. daily = xs @ run @ ys \<and> list_all (\<lambda>v. v > 0) run \<and>
      longestStreakInRange daily = int (length run)) \<and>
   (\<nexists>xs run ys. daily = xs @ run @ ys \<and> list_all (\<lambda>v. v > 0) run \<and>
      longestStreakInRange daily < int (length run)) \<and>
   (\<exists>xs run. daily = xs @ run \<and> list_all (\<lambda>v. v > 0) run \<and> currentStreak daily = int (length run)) \<and>
   (\<nexists>xs run. daily = xs @ run \<and> list_all (\<lambda>v. v > 0) run \<and> currentStreak daily < int (length run))"
proof (intro conjI notI)
  assume "\<exists>xs run ys. daily = xs @ run @ ys \<and> list_all (\<lambda>v. v > 0) run \<and>
    longestStreakInRange daily < int (length run)"
  then show False
    using active_run_le_longest not_less by blast
next
  assume "\<exists>xs run. daily = xs @ run \<and> list_all (\<lambda>v. v > 0) run \<and> currentStreak daily < int (length run)"
  then show False
    using active_run_le_current not_less by blast
qed (use longest_is_run current_is_run in auto)

end
