(* ===== verification/GoalModel.thy ===== *)
theory GoalModel
  imports GoJson GoTime
begin

text \<open>
  The goal specs of \<open>internal/boomtime/goals/eval.go\<close>: the predicate tree as the struct it is, its
  decoding from JSON and the validator every write goes through.
\<close>

datatype goal_pred =
  GoalPred (gp_kind: string) (gp_source: string) (gp_axis: string) (gp_value: "string option")
    (gp_op: string) (gp_target: int) (gp_window: string) (gp_condition: "goal_pred option")
    (gp_minDays: int) (gp_n: int) (gp_of: "goal_pred list")

definition GoalCacheTTL :: duration where
  "GoalCacheTTL = seconds 60"

definition MaxPredicateDepth :: nat where
  "MaxPredicateDepth = 5"

definition MaxStreakDays :: int where
  "MaxStreakDays = 365"

definition validHeartbeatAxes :: "(string \<times> string) list" where
  "validHeartbeatAxes =
     [(''language'', ''language''), (''project'', ''project''), (''editor'', ''editor''),
      (''category'', ''category''), (''branch'', ''branch''), (''plugin'', ''plugin''),
      (''machine'', ''machine''), (''platform'', ''platform'')]"

definition validTimeWindows :: "string list" where
  "validTimeWindows = [''day'', ''week'', ''month'', ''year'', ''lifetime'']"

definition validActiveDaysWindows :: "string list" where
  "validActiveDaysWindows = [''week'', ''month'', ''year'']"

definition validOps :: "string list" where
  "validOps = [''>='', ''<='', ''=='']"

definition validTimeSources :: "string list" where
  "validTimeSources = [[], ''coding'', ''reading'']"

definition validReadingAxes :: "string list" where
  "validReadingAxes = [''genre'', ''series'', ''status'']"

datatype goal_error =
    EmptySpec | NotJson | DepthExceeded nat | UnknownSource string | UnknownAxis string
  | ValueWithoutAxis | UnknownReadingAxis string | AxisWithoutValue string | UnknownWindow string
  | UnknownGoalOp string | NegativeTarget | NegativeMinDays | TooManyDays int | MissingCondition
  | NegativeN | NoOf string | NotOneChild nat | UnknownGoalKind string

section \<open>Decoding\<close>

definition get_ptr :: "(json \<Rightarrow> 'a option) \<Rightarrow> json option \<Rightarrow> 'a option option" where
  "get_ptr dec r = (case r of None \<Rightarrow> Some None | Some v \<Rightarrow> if v = JNull then Some None else map_option Some (dec v))"

lemma get_ptr_cong [fundef_cong]:
  "r = r' \<Longrightarrow> (\<And>v. r' = Some v \<Longrightarrow> d v = d' v) \<Longrightarrow> get_ptr d r = get_ptr d' r'"
  by (auto simp: get_ptr_def split: option.splits)

function decode_pred :: "json \<Rightarrow> goal_pred option" where
  "decode_pred j =
     (case obj_fields j of None \<Rightarrow> None | Some kvs \<Rightarrow> do {
        k \<leftarrow> get_str kvs ''kind''; src \<leftarrow> get_str kvs ''source''; ax \<leftarrow> get_str kvs ''axis'';
        v \<leftarrow> get_strp kvs ''value''; op \<leftarrow> get_str kvs ''op''; tgt \<leftarrow> get_int kvs ''target_seconds'';
        w \<leftarrow> get_str kvs ''window''; c \<leftarrow> get_ptr decode_pred (get_raw kvs ''condition'');
        md \<leftarrow> get_int kvs ''min_days''; n \<leftarrow> get_int kvs ''n''; rs \<leftarrow> get_raws kvs ''of'';
        ps \<leftarrow> opt_all (map decode_pred rs);
        Some (GoalPred k src ax v op tgt w c md n ps) })"
  by pat_completeness auto

termination decode_pred
  by (relation "measure size") (auto simp: raw_value_smaller raws_smaller)

declare decode_pred.simps [simp del]

section \<open>Validation\<close>

definition check :: "bool \<Rightarrow> goal_error \<Rightarrow> goal_error option" where
  "check ok e = (if ok then None else Some e)"

definition check_time :: "goal_pred \<Rightarrow> goal_error option" where
  "check_time p = first_error
     [check (gp_source p \<in> set validTimeSources) (UnknownSource (gp_source p)),
      (if gp_source p = ''reading''
       then (if gp_axis p = [] then check (gp_value p = None) ValueWithoutAxis
             else if gp_axis p \<notin> set validReadingAxes then Some (UnknownReadingAxis (gp_axis p))
             else check (case gp_value p of None \<Rightarrow> False | Some v \<Rightarrow> trim_space v \<noteq> []) (AxisWithoutValue (gp_axis p)))
       else check (aget validHeartbeatAxes (gp_axis p) \<noteq> None) (UnknownAxis (gp_axis p))),
      check (gp_window p \<in> set validTimeWindows) (UnknownWindow (gp_window p)),
      check (gp_op p \<in> set validOps) (UnknownGoalOp (gp_op p)),
      check (gp_target p \<ge> 0) NegativeTarget]"

fun validateNode :: "goal_pred \<Rightarrow> nat \<Rightarrow> goal_error option" where
  "validateNode (GoalPred k src ax v op tgt w c md n ps) depth =
     (if depth > MaxPredicateDepth then Some (DepthExceeded depth)
      else if k = ''time'' then check_time (GoalPred k src ax v op tgt w c md n ps)
      else if k = ''streak'' then
        (if md < 0 then Some NegativeMinDays
         else if md > MaxStreakDays then Some (TooManyDays md)
         else (case c of None \<Rightarrow> Some MissingCondition | Some q \<Rightarrow> validateNode q (depth + 1)))
      else if k = ''active_days'' then first_error
        [check (w \<in> set validActiveDaysWindows) (UnknownWindow w), check (op \<in> set validOps) (UnknownGoalOp op),
         check (n \<ge> 0) NegativeN]
      else if k = ''all'' \<or> k = ''any'' then
        (if ps = [] then Some (NoOf k) else first_error (map (\<lambda>q. validateNode q (depth + 1)) ps))
      else if k = ''not'' then
        (case ps of [q] \<Rightarrow> validateNode q (depth + 1) | _ \<Rightarrow> Some (NotOneChild (length ps)))
      else Some (UnknownGoalKind k))"

definition ValidateSpec :: "json option \<Rightarrow> goal_error + goal_pred" where
  "ValidateSpec raw =
     (case raw of None \<Rightarrow> Inl EmptySpec
      | Some j \<Rightarrow> (case decode_pred j of None \<Rightarrow> Inl NotJson
          | Some p \<Rightarrow> (case validateNode p 1 of Some e \<Rightarrow> Inl e | None \<Rightarrow> Inr p)))"

end
