(* ===== verification/GoalEval.thy ===== *)
theory GoalEval
  imports GoalModel QueryRun
begin

text \<open>
  The evaluator of \<open>internal/boomtime/goals/eval.go\<close> and the rename rules it reads
  (\<open>internal/shared/db/remap.go\<close>). What an evaluation does besides answering is recorded: the
  sub-conditions it appends and the statements it sends to the database, in order. The database
  is a parameter; \<open>sum_rollup\<close> and \<open>active_days\<close> are the two statements of the evaluator written out
  over the rollup table. The cache of the rename map is not visible here, because the map is a
  function of the owner within one evaluation.
\<close>

section \<open>Tables and rename rules\<close>

record rollup_row =
  ru_sender :: string
  ru_day :: gotime
  ru_col :: "string \<Rightarrow> string option"
  ru_seconds :: int

record rename_rule =
  rr_sender :: string
  rr_axis :: string
  rr_action :: string
  rr_match_type :: string
  rr_match :: string
  rr_new_value :: "string option"
  rr_enabled :: bool
  rr_at_ingest :: bool

record axisRenames =
  ren_exact :: "(string \<times> string) list"
  ren_regex :: "(string \<times> string) list"
  ren_template :: "(string \<times> string) list"

type_synonym rename_sets = "string \<Rightarrow> axisRenames"

definition no_renames :: axisRenames where
  "no_renames = \<lparr>ren_exact = [], ren_regex = [], ren_template = []\<rparr>"

definition add_rename :: "rename_sets \<Rightarrow> rename_rule \<Rightarrow> rename_sets" where
  "add_rename rs r =
     (let a = rs (rr_axis r); new = (case rr_new_value r of None \<Rightarrow> [] | Some v \<Rightarrow> v) in
      rs(rr_axis r :=
        (if rr_match_type r = ''regex'' then a\<lparr>ren_regex := ren_regex a @ [(rr_match r, new)]\<rparr>
         else if rr_match_type r = ''template'' then a\<lparr>ren_template := ren_template a @ [(rr_match r, new)]\<rparr>
         else a\<lparr>ren_exact := aput (ren_exact a) (to_lower (rr_match r)) new\<rparr>)))"

text \<open>The rows in the order of their ids.\<close>

definition LoadRenameSets :: "rename_rule list \<Rightarrow> string \<Rightarrow> rename_sets" where
  "LoadRenameSets rules sender =
     foldl add_rename (\<lambda>_. no_renames)
       (filter (\<lambda>r. rr_sender r = sender \<and> rr_action r = ''rename'' \<and> rr_enabled r \<and>
                    rr_new_value r \<noteq> None \<and> \<not> rr_at_ingest r) rules)"

definition ExactSourcesFor :: "rename_sets \<Rightarrow> string \<Rightarrow> string \<Rightarrow> string list" where
  "ExactSourcesFor rs axis target = map fst (filter (\<lambda>(raw, mapped). mapped = target) (ren_exact (rs axis)))"

definition sourcesFor :: "rename_sets \<Rightarrow> string \<Rightarrow> string \<Rightarrow> string list" where
  "sourcesFor rs axis v =
     to_lower v # filter (\<lambda>low. low \<noteq> to_lower v) (map to_lower (ExactSourcesFor rs axis v))"

text \<open>The filter of a statement: a column and the lower-case values it is compared with.\<close>

type_synonym axis_filter = "(string \<times> string list) option"

definition axis_matches :: "axis_filter \<Rightarrow> rollup_row \<Rightarrow> bool" where
  "axis_matches flt r =
     (case flt of None \<Rightarrow> True
      | Some (col, vs) \<Rightarrow> (case ru_col r col of None \<Rightarrow> False | Some x \<Rightarrow> to_lower x \<in> set vs))"

definition in_window :: "string \<Rightarrow> gotime \<Rightarrow> gotime \<Rightarrow> rollup_row \<Rightarrow> bool" where
  "in_window owner s e r \<longleftrightarrow> ru_sender r = owner \<and> s \<le> ru_day r \<and> ru_day r \<le> e"

definition sum_rollup :: "rollup_row list \<Rightarrow> string \<Rightarrow> axis_filter \<Rightarrow> gotime \<Rightarrow> gotime \<Rightarrow> int" where
  "sum_rollup rows owner flt s e =
     (\<Sum>r\<leftarrow>filter (\<lambda>r. in_window owner s e r \<and> axis_matches flt r) rows. ru_seconds r)"

definition active_days :: "rollup_row list \<Rightarrow> string \<Rightarrow> gotime \<Rightarrow> gotime \<Rightarrow> int" where
  "active_days rows owner s e = int (card (ru_day ` set (filter (in_window owner s e) rows)))"

text \<open>What the evaluator asks of the database; each statement may fail.\<close>

record 'r goal_db =
  gd_sum :: "string \<Rightarrow> axis_filter \<Rightarrow> gotime \<Rightarrow> gotime \<Rightarrow> string + int"
  gd_days :: "string \<Rightarrow> gotime \<Rightarrow> gotime \<Rightarrow> string + int"
  gd_renames :: "string \<Rightarrow> string + rename_sets"
  gd_query :: "'r querier"

datatype goal_stmt = SumStmt axis_filter gotime gotime | DaysStmt gotime gotime | ReadingStmt query

record sub_condition =
  sc_kind :: string
  sc_source :: string
  sc_axis :: string
  sc_value :: "string option"
  sc_op :: string
  sc_window :: string
  sc_current :: int
  sc_target :: int
  sc_progress :: float64
  sc_hit :: bool

datatype eval_error =
    EmptyOwnerErr | UnknownEvalKind string | UnknownEvalAxis string | DbErr string | ReadingErr run_error
  | NilCondition | NotArityErr nat | StreakDay nat eval_error | NilValueDeref

section \<open>Windows and comparisons\<close>

definition windowRange :: "gotime \<Rightarrow> string \<Rightarrow> gotime \<times> gotime" where
  "windowRange now window =
     (let e = Date (year_of now) (month_of now) (day_of now) in
      if window = ''day'' then (e, e)
      else if window = ''week'' then (AddDate e 0 0 (- 6), e)
      else if window = ''month'' then (AddDate e 0 0 (- 29), e)
      else if window = ''year'' then (AddDate e 0 0 (- 364), e)
      else if window = ''lifetime'' then (Date 1970 1 1, e)
      else (e, e))"

definition clamp01 :: "float64 \<Rightarrow> float64" where
  "clamp01 v = (if v < 0 then 0 else if v > 1 then 1 else v)"

definition boolAsFloat :: "bool \<Rightarrow> float64" where
  "boolAsFloat b = (if b then 1 else 0)"

definition max64 :: "int \<Rightarrow> int \<Rightarrow> int" where
  "max64 a b = (if a > b then a else b)"

definition compareOp :: "string \<Rightarrow> int \<Rightarrow> int \<Rightarrow> bool \<times> float64" where
  "compareOp op current target =
     (if op = ''>='' then
        (if target \<le> 0 then (True, 1) else (current \<ge> target, clamp01 (of_int current / of_int target)))
      else if op = ''<='' then
        (if target \<le> 0 then (current = 0, boolAsFloat (current = 0))
         else if current \<le> target then (True, clamp01 (1 - of_int current / of_int target))
         else (False, 0))
      else if op = ''=='' then
        (if current = target then (True, 1)
         else (False, clamp01 (1 - of_int \<bar>current - target\<bar> / of_int (max64 target 1))))
      else (False, 0))"

section \<open>Evaluation\<close>

type_synonym 'a ev = "(eval_error + 'a) \<times> sub_condition list \<times> goal_stmt list"

definition ev_fail :: "eval_error \<Rightarrow> goal_stmt list \<Rightarrow> 'a ev" where
  "ev_fail e tr = (Inl e, [], tr)"

definition leaf_result :: "sub_condition \<Rightarrow> goal_stmt list \<Rightarrow> (bool \<times> float64) ev" where
  "leaf_result sub tr = (Inr (sc_hit sub, sc_progress sub), [sub], tr)"

definition compared :: "goal_pred \<Rightarrow> string \<Rightarrow> string \<Rightarrow> string \<Rightarrow> string option \<Rightarrow> int \<Rightarrow> int \<Rightarrow> sub_condition" where
  "compared p kind source axis val current target =
     (case compareOp (gp_op p) current target of (hit, prog) \<Rightarrow>
        \<lparr>sc_kind = kind, sc_source = source, sc_axis = axis, sc_value = val, sc_op = gp_op p,
         sc_window = gp_window p, sc_current = current, sc_target = target, sc_progress = prog, sc_hit = hit\<rparr>)"

definition result_scalar :: "'r result \<Rightarrow> float64" where
  "result_scalar r = (case r of ResultScalar v \<Rightarrow> v | _ \<Rightarrow> 0)"

definition truncate_scalar :: "float64 \<Rightarrow> int" where
  "truncate_scalar r = (if r \<ge> 0 then \<lfloor>r\<rfloor> else \<lceil>r\<rceil>)"

text \<open>The two reading queries; the second one dereferences the value.\<close>

definition reading_query :: "gotime \<Rightarrow> goal_pred \<Rightarrow> query" where
  "reading_query now p =
     (let (s, e) = windowRange now (gp_window p);
          base = (if gp_axis p = [] then Measure (Q ''reading'') ''seconds''
                  else Where (Measure (Q ''reading'') ''runtime'')
                         (Some (Leaf (gp_axis p) ''eq'' [the (gp_value p)])))
      in At_time (Over base ''none'' (Between s e)) now)"

definition evalTimeReading ::
    "'r goal_db \<Rightarrow> domains \<Rightarrow> gotime \<Rightarrow> string \<Rightarrow> gotime \<Rightarrow> goal_pred \<Rightarrow> (bool \<times> float64) ev" where
  "evalTimeReading db reg clock owner now p =
     (if gp_axis p \<noteq> [] \<and> gp_value p = None then ev_fail NilValueDeref []
      else (let q = reading_query now p in
        case Run (gd_query db) reg clock owner q of
          Inl e \<Rightarrow> ev_fail (ReadingErr e) [ReadingStmt q]
        | Inr res \<Rightarrow>
            (let current = (if gp_axis p = [] then truncate_scalar (result_scalar res)
                            else truncate_scalar (result_scalar res) * 60)
             in leaf_result
                  (compared p ''time'' ''reading'' (gp_axis p) (if gp_axis p = [] then None else gp_value p)
                     current (gp_target p))
                  [ReadingStmt q])))"

definition evalTime ::
    "'r goal_db \<Rightarrow> domains \<Rightarrow> gotime \<Rightarrow> string \<Rightarrow> gotime \<Rightarrow> goal_pred \<Rightarrow> (bool \<times> float64) ev" where
  "evalTime db reg clock owner now p =
     (if gp_source p = ''reading'' then evalTimeReading db reg clock owner now p
      else (case aget validHeartbeatAxes (gp_axis p) of
          None \<Rightarrow> ev_fail (UnknownEvalAxis (gp_axis p)) []
        | Some col \<Rightarrow>
            (let (s, e) = windowRange now (gp_window p);
                 flt = (case gp_value p of None \<Rightarrow> Inr None
                        | Some v \<Rightarrow> (case gd_renames db owner of Inl err \<Rightarrow> Inl err
                            | Inr rs \<Rightarrow> Inr (Some (col, sourcesFor rs (gp_axis p) v))))
             in case flt of Inl err \<Rightarrow> ev_fail (DbErr err) []
                | Inr f \<Rightarrow>
                    (case gd_sum db owner f s e of
                       Inl err \<Rightarrow> ev_fail (DbErr err) [SumStmt f s e]
                     | Inr current \<Rightarrow> leaf_result
                         (compared p ''time'' [] (gp_axis p) (gp_value p) current (gp_target p)) [SumStmt f s e]))))"

definition evalActiveDays :: "'r goal_db \<Rightarrow> string \<Rightarrow> gotime \<Rightarrow> goal_pred \<Rightarrow> (bool \<times> float64) ev" where
  "evalActiveDays db owner now p =
     (let (s, e) = windowRange now (gp_window p) in
      case gd_days db owner s e of
        Inl err \<Rightarrow> ev_fail (DbErr err) [DaysStmt s e]
      | Inr current \<Rightarrow> leaf_result (compared p ''active_days'' [] [] None current (gp_n p)) [DaysStmt s e])"

fun rewriteWindowToDay :: "goal_pred \<Rightarrow> goal_pred" where
  "rewriteWindowToDay (GoalPred k src ax v op tgt w c md n ps) =
     (if k = ''time'' then GoalPred k src ax v op tgt ''day'' c md n ps
      else if k = ''active_days'' then GoalPred k src ax v op tgt ''week'' c md n ps
      else if k = ''all'' \<or> k = ''any'' then GoalPred k src ax v op tgt w c md n (map rewriteWindowToDay ps)
      else if k = ''not'' then
        (case ps of [q] \<Rightarrow> GoalPred k src ax v op tgt w c md n [rewriteWindowToDay q]
         | _ \<Rightarrow> GoalPred k src ax v op tgt w c md n ps)
      else GoalPred k src ax v op tgt w c md n ps)"

text \<open>
  The loop of evalStreak, with the days still to try, the index of the day and the hits so far. A
  nested evaluator collects the sub-conditions of a day, and they are dropped.
\<close>

fun streak_days ::
    "(nat \<Rightarrow> (bool \<times> float64) ev) \<Rightarrow> nat \<Rightarrow> nat \<Rightarrow> int \<Rightarrow> (eval_error + int) \<times> goal_stmt list" where
  "streak_days day 0 i hits = (Inr hits, [])"
| "streak_days day (Suc m) i hits =
     (case day i of
        (Inl e, _, tr) \<Rightarrow> (Inl (StreakDay i e), tr)
      | (Inr (hit, _), _, tr) \<Rightarrow>
          if \<not> hit then (Inr hits, tr)
          else (case streak_days day m (Suc i) (hits + 1) of (r, tr') \<Rightarrow> (r, tr @ tr')))"

definition streak_sub :: "int \<Rightarrow> int \<Rightarrow> float64 \<Rightarrow> bool \<Rightarrow> sub_condition" where
  "streak_sub current target prog hit =
     \<lparr>sc_kind = ''streak'', sc_source = [], sc_axis = [], sc_value = None, sc_op = [], sc_window = [],
      sc_current = current, sc_target = target, sc_progress = prog, sc_hit = hit\<rparr>"

definition evalStreak :: "(nat \<Rightarrow> (bool \<times> float64) ev) \<Rightarrow> int \<Rightarrow> (bool \<times> float64) ev" where
  "evalStreak day minDays =
     (if minDays \<le> 0 then leaf_result (streak_sub 0 0 1 True) []
      else (case streak_days day (nat minDays) 0 0 of
          (Inl e, tr) \<Rightarrow> ev_fail e tr
        | (Inr daysHit, tr) \<Rightarrow>
            (case compareOp ''>='' daysHit minDays of
               (hit, prog) \<Rightarrow> leaf_result (streak_sub daysHit minDays prog hit) tr)))"

text \<open>The loops of evalAll and evalAny over the children, with the accumulated hit and progress.\<close>

fun all_loop :: "(goal_pred \<Rightarrow> (bool \<times> float64) ev) \<Rightarrow> goal_pred list \<Rightarrow> bool \<Rightarrow> float64 \<Rightarrow> (bool \<times> float64) ev" where
  "all_loop f [] hit prog = (Inr (hit, prog), [], [])"
| "all_loop f (p # ps) hit prog =
     (case f p of
        (Inl e, subs, tr) \<Rightarrow> (Inl e, subs, tr)
      | (Inr (h, pr), subs, tr) \<Rightarrow>
          (case all_loop f ps (hit \<and> h) (if pr < prog then pr else prog) of
             (r, subs', tr') \<Rightarrow> (r, subs @ subs', tr @ tr')))"

fun any_loop :: "(goal_pred \<Rightarrow> (bool \<times> float64) ev) \<Rightarrow> goal_pred list \<Rightarrow> bool \<Rightarrow> float64 \<Rightarrow> (bool \<times> float64) ev" where
  "any_loop f [] hit prog = (Inr (hit, prog), [], [])"
| "any_loop f (p # ps) hit prog =
     (case f p of
        (Inl e, subs, tr) \<Rightarrow> (Inl e, subs, tr)
      | (Inr (h, pr), subs, tr) \<Rightarrow>
          (case any_loop f ps (hit \<or> h) (if pr > prog then pr else prog) of
             (r, subs', tr') \<Rightarrow> (r, subs @ subs', tr @ tr')))"

definition evalNot :: "(goal_pred \<Rightarrow> (bool \<times> float64) ev) \<Rightarrow> goal_pred list \<Rightarrow> (bool \<times> float64) ev" where
  "evalNot f ps =
     (case ps of
        [p] \<Rightarrow> (case f p of
            (Inl e, subs, tr) \<Rightarrow> (Inl e, subs, tr)
          | (Inr (h, pr), subs, tr) \<Rightarrow> (Inr (\<not> h, clamp01 (1 - pr)), subs, tr))
      | _ \<Rightarrow> ev_fail (NotArityErr (length ps)) [])"

lemma all_loop_cong [fundef_cong]:
  "ps = ps' \<Longrightarrow> (\<And>p. p \<in> set ps' \<Longrightarrow> f p = g p) \<Longrightarrow> all_loop f ps h pr = all_loop g ps' h pr"
  by (induction ps' arbitrary: ps h pr) (auto split: prod.split sum.split)

lemma any_loop_cong [fundef_cong]:
  "ps = ps' \<Longrightarrow> (\<And>p. p \<in> set ps' \<Longrightarrow> f p = g p) \<Longrightarrow> any_loop f ps h pr = any_loop g ps' h pr"
  by (induction ps' arbitrary: ps h pr) (auto split: prod.split sum.split)

lemma evalNot_cong [fundef_cong]:
  "ps = ps' \<Longrightarrow> (\<And>p. p \<in> set ps' \<Longrightarrow> f p = g p) \<Longrightarrow> evalNot f ps = evalNot g ps'"
  by (auto simp: evalNot_def split: list.split)

fun nesting :: "goal_pred \<Rightarrow> nat" where
  "nesting (GoalPred k src ax v op tgt w c md n ps) =
     Suc (max (case c of None \<Rightarrow> 0 | Some q \<Rightarrow> nesting q) (foldr max (map nesting ps) 0))"

lemma foldr_max_ge: "x \<in> set xs \<Longrightarrow> (x :: nat) \<le> foldr max xs 0"
  by (induction xs) auto

lemma nesting_child: "q \<in> set (gp_of p) \<Longrightarrow> nesting q < nesting p"
  using foldr_max_ge [of "nesting q" "map nesting (gp_of p)"] by (cases p) auto

lemma nesting_condition: "gp_condition p = Some c \<Longrightarrow> nesting c < nesting p"
  by (cases p) auto

lemma nesting_rewrite [simp]: "nesting (rewriteWindowToDay p) = nesting p"
proof (induction p rule: rewriteWindowToDay.induct)
  case (1 k src ax v op tgt w c md n ps)
  have group: "foldr max (map (nesting \<circ> rewriteWindowToDay) ps) 0 = foldr max (map nesting ps) 0"
    if "k = ''all'' \<or> k = ''any''"
    using 1 that by (intro arg_cong [of _ _ "\<lambda>xs. foldr max xs 0"] map_cong) auto
  have one: "nesting (rewriteWindowToDay q) = nesting q" if "k = ''not''" "ps = [q]" for q
    using 1 that by simp
  consider "k = ''all'' \<or> k = ''any''" | q where "k = ''not''" "ps = [q]"
    | "k \<notin> {''all'', ''any''}" "k = ''not'' \<longrightarrow> (\<forall>q. ps \<noteq> [q])"
    by auto
  then show ?case
    by cases (use group one in \<open>auto split: list.split\<close>)
qed

function walk ::
    "'r goal_db \<Rightarrow> domains \<Rightarrow> gotime \<Rightarrow> string \<Rightarrow> gotime \<Rightarrow> goal_pred \<Rightarrow> (bool \<times> float64) ev" where
  "walk db reg clock owner now p =
     (if gp_kind p = ''time'' then evalTime db reg clock owner now p
      else if gp_kind p = ''active_days'' then evalActiveDays db owner now p
      else if gp_kind p = ''streak'' then
        (case gp_condition p of
           None \<Rightarrow> ev_fail NilCondition []
         | Some c \<Rightarrow> evalStreak
             (\<lambda>i. walk db reg clock owner (AddDate now 0 0 (- int i)) (rewriteWindowToDay c)) (gp_minDays p))
      else if gp_kind p = ''all'' then all_loop (walk db reg clock owner now) (gp_of p) True 1
      else if gp_kind p = ''any'' then any_loop (walk db reg clock owner now) (gp_of p) False 0
      else if gp_kind p = ''not'' then evalNot (walk db reg clock owner now) (gp_of p)
      else ev_fail (UnknownEvalKind (gp_kind p)) [])"
  by pat_completeness auto

termination walk
  by (relation "measure (\<lambda>(_, _, _, _, _, p). nesting p)") (auto simp: nesting_child nesting_condition)

declare walk.simps [simp del]

record progress =
  pg_hit :: bool
  pg_progress :: float64
  pg_subs :: "sub_condition list"

definition Evaluate ::
    "'r goal_db \<Rightarrow> domains \<Rightarrow> gotime \<Rightarrow> string \<Rightarrow> goal_pred \<Rightarrow> gotime \<Rightarrow> eval_error + progress" where
  "Evaluate db reg clock owner p now =
     (if owner = [] then Inl EmptyOwnerErr
      else (case walk db reg clock owner now p of
          (Inl e, _, _) \<Rightarrow> Inl e
        | (Inr (hit, prog), subs, _) \<Rightarrow> Inr \<lparr>pg_hit = hit, pg_progress = prog, pg_subs = subs\<rparr>))"

end
