(* ===== verification/GoalStore.thy ===== *)
theory GoalStore
  imports GoalEval
begin

text \<open>
  The goals table (\<open>internal/boomtime/goals/db.go\<close>) and the handlers over it (\<open>handler.go\<close>), once the
  caller is known and the body is bound. A row's cached progress is \<open>Some None\<close> when its bytes do
  not decode. The id of a new row is generated by the database and new, so only the unique pair of
  owner and name can be violated. Statements the handlers send do not fail here; the evaluator's do.
\<close>

record goal =
  g_id :: string
  g_owner :: string
  g_name :: string
  g_description :: "string option"
  g_spec :: json
  g_enabled :: bool
  g_public :: bool
  g_created :: gotime
  g_updated :: gotime
  g_evaluated :: "gotime option"
  g_progress :: "progress option option"

record goal_patch =
  gpt_name :: "string option"
  gpt_description :: "string option"
  gpt_spec :: "json option"
  gpt_enabled :: "bool option"
  gpt_public :: "bool option"

section \<open>The table\<close>

definition newer :: "goal \<Rightarrow> goal \<Rightarrow> bool" where
  "newer a b \<longleftrightarrow> (if g_created a \<noteq> g_created b then g_created a > g_created b else g_id a < g_id b)"

definition ListGoals :: "goal list \<Rightarrow> string \<Rightarrow> goal list" where
  "ListGoals rows owner = slice_stable newer (filter (\<lambda>g. g_owner g = owner) rows)"

definition ListPublicGoals :: "goal list \<Rightarrow> string \<Rightarrow> goal list" where
  "ListPublicGoals rows owner =
     slice_stable newer (filter (\<lambda>g. g_owner g = owner \<and> g_enabled g \<and> g_public g) rows)"

definition owned :: "string \<Rightarrow> string \<Rightarrow> goal \<Rightarrow> bool" where
  "owned owner i g \<longleftrightarrow> g_id g = i \<and> g_owner g = owner"

definition GetGoal :: "goal list \<Rightarrow> string \<Rightarrow> string \<Rightarrow> goal option" where
  "GetGoal rows owner i = find (owned owner i) rows"

definition CreateGoal ::
    "goal list \<Rightarrow> string \<Rightarrow> gotime \<Rightarrow> string \<Rightarrow> string \<Rightarrow> string option \<Rightarrow> json \<Rightarrow> bool \<Rightarrow> (goal list \<times> goal) option" where
  "CreateGoal rows new_id now owner name descr spc pub =
     (if list_ex (\<lambda>g. g_owner g = owner \<and> g_name g = name) rows then None
      else (let g = \<lparr>g_id = new_id, g_owner = owner, g_name = name, g_description = descr, g_spec = spc,
                     g_enabled = True, g_public = pub, g_created = now, g_updated = now,
                     g_evaluated = None, g_progress = None\<rparr>
            in Some (rows @ [g], g)))"

definition or_else :: "'a option \<Rightarrow> 'a \<Rightarrow> 'a" where
  "or_else x d = (case x of None \<Rightarrow> d | Some v \<Rightarrow> v)"

definition patch_row :: "gotime \<Rightarrow> goal_patch \<Rightarrow> goal \<Rightarrow> goal" where
  "patch_row now p g =
     (let g1 = g\<lparr>g_name := or_else (gpt_name p) (g_name g),
                 g_description := (case gpt_description p of None \<Rightarrow> g_description g | Some d \<Rightarrow> Some d),
                 g_enabled := or_else (gpt_enabled p) (g_enabled g),
                 g_public := or_else (gpt_public p) (g_public g), g_updated := now\<rparr>
      in case gpt_spec p of None \<Rightarrow> g1
         | Some s \<Rightarrow> g1\<lparr>g_spec := s, g_progress := None, g_evaluated := None\<rparr>)"

definition empty_patch :: "goal_patch \<Rightarrow> bool" where
  "empty_patch p \<longleftrightarrow> gpt_name p = None \<and> gpt_description p = None \<and> gpt_spec p = None \<and>
     gpt_enabled p = None \<and> gpt_public p = None"

definition update_where :: "(goal \<Rightarrow> bool) \<Rightarrow> (goal \<Rightarrow> goal) \<Rightarrow> goal list \<Rightarrow> goal list" where
  "update_where P f rows = map (\<lambda>g. if P g then f g else g) rows"

text \<open>
  \<open>None\<close> is the unique violation of a rename to a name another goal of the owner has.
\<close>

definition UpdateGoal ::
    "goal list \<Rightarrow> gotime \<Rightarrow> string \<Rightarrow> string \<Rightarrow> goal_patch \<Rightarrow> (goal list \<times> goal option) option" where
  "UpdateGoal rows now owner i p =
     (if empty_patch p then Some (rows, GetGoal rows owner i)
      else if (case gpt_name p of None \<Rightarrow> False
               | Some nm \<Rightarrow> list_ex (owned owner i) rows \<and>
                   list_ex (\<lambda>g. g_owner g = owner \<and> g_id g \<noteq> i \<and> g_name g = nm) rows)
      then None
      else Some (update_where (owned owner i) (patch_row now p) rows,
                 map_option (patch_row now p) (GetGoal rows owner i)))"

definition DeleteGoal :: "goal list \<Rightarrow> string \<Rightarrow> string \<Rightarrow> goal list \<times> bool" where
  "DeleteGoal rows owner i = (filter (\<lambda>g. \<not> owned owner i g) rows, list_ex (owned owner i) rows)"

definition ToggleGoal :: "goal list \<Rightarrow> gotime \<Rightarrow> string \<Rightarrow> string \<Rightarrow> bool option \<Rightarrow> goal list \<times> bool option" where
  "ToggleGoal rows now owner i desired =
     (case GetGoal rows owner i of
        None \<Rightarrow> (rows, None)
      | Some g \<Rightarrow>
          (let b = or_else desired (\<not> g_enabled g)
           in (update_where (owned owner i)
                 (\<lambda>r. r\<lparr>g_enabled := or_else desired (\<not> g_enabled r), g_updated := now\<rparr>) rows,
               Some b)))"

definition UpdateGoalProgress ::
    "goal list \<Rightarrow> gotime \<Rightarrow> string \<Rightarrow> string \<Rightarrow> progress option \<Rightarrow> goal list" where
  "UpdateGoalProgress rows now owner i prog =
     update_where (owned owner i)
       (\<lambda>r. case prog of None \<Rightarrow> r\<lparr>g_progress := None, g_evaluated := None\<rparr>
                       | Some p \<Rightarrow> r\<lparr>g_progress := Some (Some p), g_evaluated := Some now\<rparr>) rows"

definition InvalidateGoalsForOwner :: "goal list \<Rightarrow> string \<Rightarrow> goal list" where
  "InvalidateGoalsForOwner rows owner =
     update_where (\<lambda>g. g_owner g = owner \<and> g_progress g \<noteq> None)
       (\<lambda>r. r\<lparr>g_progress := None, g_evaluated := None\<rparr>) rows"

section \<open>The handlers\<close>

datatype goal_refusal = BadSpecErr goal_error | EvalErr eval_error

text \<open>
  \<open>ev\<close> evaluates a decoded spec for an owner at an instant. The row was read earlier; the write goes
  to the table as it is by then.
\<close>

definition cache_fresh :: "gotime \<Rightarrow> goal \<Rightarrow> bool" where
  "cache_fresh now g \<longleftrightarrow> (case g_evaluated g of None \<Rightarrow> False | Some t \<Rightarrow> now - t < GoalCacheTTL)"

definition evalGoal ::
    "(string \<Rightarrow> goal_pred \<Rightarrow> gotime \<Rightarrow> eval_error + progress) \<Rightarrow> gotime \<Rightarrow> goal list \<Rightarrow> goal \<Rightarrow>
     goal list \<times> (goal_refusal + progress)" where
  "evalGoal ev now rows g =
     (case (g_progress g, cache_fresh now g) of
        (Some (Some cached), True) \<Rightarrow> (rows, Inr cached)
      | _ \<Rightarrow>
          (case ValidateSpec (Some (g_spec g)) of
             Inl e \<Rightarrow> (rows, Inl (BadSpecErr e))
           | Inr p \<Rightarrow>
               (case ev (g_owner g) p now of
                  Inl e \<Rightarrow> (rows, Inl (EvalErr e))
                | Inr prog \<Rightarrow> (UpdateGoalProgress rows now (g_owner g) (g_id g) (Some prog), Inr prog))))"

datatype goal_op =
    OpList
  | OpGet string
  | OpCreate string "string" "json option" bool
  | OpUpdate string goal_patch
  | OpDelete string
  | OpToggle string "bool option"
  | OpProgress string
  | OpAllProgress

datatype goal_response =
    RGoals "goal list" | RGoal goal | REnabled bool | RProgress progress
  | RAll "(string \<times> progress) list" | RNoContent | RNotFound | RConflict | RBadRequest
  | RBadSpec goal_refusal

fun eval_all ::
    "(string \<Rightarrow> goal_pred \<Rightarrow> gotime \<Rightarrow> eval_error + progress) \<Rightarrow> gotime \<Rightarrow> goal list \<Rightarrow> goal list \<Rightarrow>
     goal list \<times> (string \<times> progress) list" where
  "eval_all ev now rows [] = (rows, [])"
| "eval_all ev now rows (g # gs) =
     (if \<not> g_enabled g then eval_all ev now rows gs
      else (case evalGoal ev now rows g of
          (rows', Inl e) \<Rightarrow> eval_all ev now rows' gs
        | (rows', Inr p) \<Rightarrow> (case eval_all ev now rows' gs of (rows'', out) \<Rightarrow> (rows'', (g_id g, p) # out))))"

definition blank :: "string \<Rightarrow> bool" where
  "blank s \<longleftrightarrow> trim_space s = []"

definition handle_create ::
    "string \<Rightarrow> gotime \<Rightarrow> goal list \<Rightarrow> string \<Rightarrow> string \<Rightarrow> string \<Rightarrow> json option \<Rightarrow> bool \<Rightarrow> goal list \<times> goal_response" where
  "handle_create new_id now rows owner name descr raw pub =
     (if blank name then (rows, RBadRequest)
      else (case raw of None \<Rightarrow> (rows, RBadRequest)
        | Some spc \<Rightarrow>
            (case ValidateSpec raw of
               Inl e \<Rightarrow> (rows, RBadSpec (BadSpecErr e))
             | Inr _ \<Rightarrow>
                 (case CreateGoal rows new_id now owner name (if descr = [] then None else Some descr) spc pub of
                    None \<Rightarrow> (rows, RConflict)
                  | Some (rows', g) \<Rightarrow> (rows', RGoal g)))))"

definition handle_update ::
    "gotime \<Rightarrow> goal list \<Rightarrow> string \<Rightarrow> string \<Rightarrow> goal_patch \<Rightarrow> goal list \<times> goal_response" where
  "handle_update now rows owner i p =
     (case (case gpt_spec p of None \<Rightarrow> None
            | Some s \<Rightarrow> (case ValidateSpec (Some s) of Inl e \<Rightarrow> Some e | Inr _ \<Rightarrow> None)) of
        Some e \<Rightarrow> (rows, RBadSpec (BadSpecErr e))
      | None \<Rightarrow>
          if (case gpt_name p of None \<Rightarrow> False | Some nm \<Rightarrow> blank nm) then (rows, RBadRequest)
          else (case UpdateGoal rows now owner i p of
              None \<Rightarrow> (rows, RConflict)
            | Some (rows', None) \<Rightarrow> (rows', RNotFound)
            | Some (rows', Some g) \<Rightarrow> (rows', RGoal g)))"

fun handle ::
    "(string \<Rightarrow> goal_pred \<Rightarrow> gotime \<Rightarrow> eval_error + progress) \<Rightarrow> string \<Rightarrow> gotime \<Rightarrow> goal list \<Rightarrow> string \<Rightarrow> goal_op \<Rightarrow>
     goal list \<times> goal_response" where
  "handle ev new_id now rows owner OpList = (rows, RGoals (ListGoals rows owner))"
| "handle ev new_id now rows owner (OpGet i) =
     (rows, case GetGoal rows owner i of None \<Rightarrow> RNotFound | Some g \<Rightarrow> RGoal g)"
| "handle ev new_id now rows owner (OpCreate name descr raw pub) =
     handle_create new_id now rows owner name descr raw pub"
| "handle ev new_id now rows owner (OpUpdate i p) = handle_update now rows owner i p"
| "handle ev new_id now rows owner (OpDelete i) =
     (case DeleteGoal rows owner i of (rows', ok) \<Rightarrow> (rows', if ok then RNoContent else RNotFound))"
| "handle ev new_id now rows owner (OpToggle i desired) =
     (case ToggleGoal rows now owner i desired of
        (rows', None) \<Rightarrow> (rows', RNotFound) | (rows', Some b) \<Rightarrow> (rows', REnabled b))"
| "handle ev new_id now rows owner (OpProgress i) =
     (case GetGoal rows owner i of
        None \<Rightarrow> (rows, RNotFound)
      | Some g \<Rightarrow> (case evalGoal ev now rows g of
            (rows', Inl e) \<Rightarrow> (rows', RBadSpec e) | (rows', Inr p) \<Rightarrow> (rows', RProgress p)))"
| "handle ev new_id now rows owner OpAllProgress =
     (case eval_all ev now rows (ListGoals rows owner) of (rows', out) \<Rightarrow> (rows', RAll out))"

end
