(* ===== verification/GoalIsolation.thy ===== *)
theory GoalIsolation
  imports GoalStore
begin

text \<open>
  The goal endpoints of one account against the rows of another, and what a read of the progress
  answers: the cached value while it is fresh, the value of the current spec otherwise.
\<close>

definition mine :: "string \<Rightarrow> goal list \<Rightarrow> goal list" where
  "mine a rows = filter (\<lambda>g. g_owner g = a) rows"

definition others :: "string \<Rightarrow> goal list \<Rightarrow> goal list" where
  "others a rows = filter (\<lambda>g. g_owner g \<noteq> a) rows"

section \<open>Every statement is scoped to the owner\<close>

lemma find_mine: "find (owned a i) (mine a rows) = find (owned a i) rows"
  by (induction rows) (auto simp: mine_def owned_def)

lemma GetGoal_mine [simp]: "GetGoal (mine a rows) a i = GetGoal rows a i"
  by (simp add: GetGoal_def find_mine)

lemma GetGoal_owned: "GetGoal rows a i = Some g \<Longrightarrow> g \<in> set rows \<and> g_owner g = a \<and> g_id g = i"
  by (auto simp: GetGoal_def find_Some_iff owned_def)

lemma ListGoals_mine [simp]: "ListGoals (mine a rows) a = ListGoals rows a"
  by (simp add: ListGoals_def mine_def)

lemma list_ex_mine:
  "(\<And>g. P g \<Longrightarrow> g_owner g = a) \<Longrightarrow> list_ex P (mine a rows) = list_ex P rows"
  by (auto simp: list_ex_iff mine_def)

lemma mine_update_where:
  assumes "\<And>g. P g \<Longrightarrow> g_owner g = a" "\<And>g. g_owner (f g) = g_owner g"
  shows "mine a (update_where P f rows) = update_where P f (mine a rows)"
    and "others a (update_where P f rows) = others a rows"
  using assms by (induction rows) (auto simp: mine_def others_def update_where_def)

lemma patch_owner [simp]: "g_owner (patch_row now p g) = g_owner g"
  by (auto simp: patch_row_def Let_def split: option.splits)

lemma owned_owner: "owned a i g \<Longrightarrow> g_owner g = a"
  by (simp add: owned_def)

lemma UpdateGoalProgress_scoped:
  "mine a (UpdateGoalProgress rows now a i prog) = UpdateGoalProgress (mine a rows) now a i prog"
  "others a (UpdateGoalProgress rows now a i prog) = others a rows"
  unfolding UpdateGoalProgress_def
  by (rule mine_update_where; auto simp: owned_def split: option.split)+

lemma name_taken_mine:
  "list_ex (\<lambda>g. g_owner g = a \<and> R g) (mine a rows) = list_ex (\<lambda>g. g_owner g = a \<and> R g) rows"
  "list_ex (owned a i) (mine a rows) = list_ex (owned a i) rows"
  by (rule list_ex_mine; simp add: owned_def)+

lemma CreateGoal_scoped:
  "CreateGoal (mine a rows) new_id now a name descr spc pub =
     map_option (\<lambda>(rows', g). (mine a rows', g)) (CreateGoal rows new_id now a name descr spc pub)"
  "CreateGoal rows new_id now a name descr spc pub = Some (rows', g) \<Longrightarrow> others a rows' = others a rows"
  unfolding CreateGoal_def name_taken_mine
  by (auto simp: Let_def mine_def others_def split: if_splits)

lemma UpdateGoal_scoped:
  "UpdateGoal (mine a rows) now a i p =
     map_option (\<lambda>(rows', g). (mine a rows', g)) (UpdateGoal rows now a i p)"
  "UpdateGoal rows now a i p = Some (rows', g) \<Longrightarrow> others a rows' = others a rows"
proof -
  have "mine a (update_where (owned a i) (patch_row now p) rows) =
      update_where (owned a i) (patch_row now p) (mine a rows)"
    "others a (update_where (owned a i) (patch_row now p) rows) = others a rows"
    by (rule mine_update_where; simp add: owned_def)+
  then show "UpdateGoal (mine a rows) now a i p =
      map_option (\<lambda>(rows', g). (mine a rows', g)) (UpdateGoal rows now a i p)"
    "UpdateGoal rows now a i p = Some (rows', g) \<Longrightarrow> others a rows' = others a rows"
    unfolding UpdateGoal_def name_taken_mine
    by (auto split: option.splits if_splits)
qed

lemma DeleteGoal_scoped:
  "mine a (fst (DeleteGoal rows a i)) = fst (DeleteGoal (mine a rows) a i)"
  "others a (fst (DeleteGoal rows a i)) = others a rows"
  "snd (DeleteGoal (mine a rows) a i) = snd (DeleteGoal rows a i)"
  by (auto simp: DeleteGoal_def mine_def others_def owned_def list_ex_iff intro: filter_cong)

lemma ToggleGoal_scoped:
  "mine a (fst (ToggleGoal rows now a i d)) = fst (ToggleGoal (mine a rows) now a i d)"
  "others a (fst (ToggleGoal rows now a i d)) = others a rows"
  "snd (ToggleGoal (mine a rows) now a i d) = snd (ToggleGoal rows now a i d)"
  by (auto simp: ToggleGoal_def Let_def mine_update_where owned_owner split: option.split)

lemma evalGoal_scoped:
  assumes "g_owner g = a"
  shows "mine a (fst (evalGoal ev now rows g)) = fst (evalGoal ev now (mine a rows) g)"
    and "others a (fst (evalGoal ev now rows g)) = others a rows"
    and "snd (evalGoal ev now (mine a rows) g) = snd (evalGoal ev now rows g)"
  using assms by (auto simp: evalGoal_def UpdateGoalProgress_scoped split: option.split bool.split sum.split)

lemma eval_all_scoped:
  assumes "\<And>g. g \<in> set gs \<Longrightarrow> g_owner g = a"
  shows "mine a (fst (eval_all ev now rows gs)) = fst (eval_all ev now (mine a rows) gs) \<and>
    others a (fst (eval_all ev now rows gs)) = others a rows \<and>
    snd (eval_all ev now (mine a rows) gs) = snd (eval_all ev now rows gs)"
  using assms
proof (induction ev now rows gs rule: eval_all.induct)
  case (2 ev now rows g gs)
  obtain rows' r where e: "evalGoal ev now rows g = (rows', r)" by fastforce
  then have e': "evalGoal ev now (mine a rows) g = (mine a rows', r)" "others a rows' = others a rows"
    using evalGoal_scoped [where g = g and a = a and ev = ev and now = now and rows = rows] 2(4) by (auto simp: prod_eq_iff)
  then show ?case
    using 2 e by (auto split: sum.splits prod.splits)
qed simp

lemma handle_create_scoped:
  "handle_create new_id now (mine a rows) a name descr raw pub =
     map_prod (mine a) id (handle_create new_id now rows a name descr raw pub)"
  "others a (fst (handle_create new_id now rows a name descr raw pub)) = others a rows"
  by (auto simp: handle_create_def CreateGoal_scoped split: option.split sum.split)

lemma handle_update_scoped:
  "handle_update now (mine a rows) a i p = map_prod (mine a) id (handle_update now rows a i p)"
  "others a (fst (handle_update now rows a i p)) = others a rows"
  by (auto simp: handle_update_def UpdateGoal_scoped split: option.split sum.split)

text \<open>
  C19 Accounts are isolated: a goal request of one account leaves every row of the others as it was,
  and both its answer and its effect on the account's own rows are what they would be if no other
  account had any goal. So the id of another account's goal answers exactly as an unknown one.
\<close>

theorem goal_owner_isolation:
  assumes "handle ev new_id now rows a op = (rows', resp)"
  shows "others a rows' = others a rows \<and> handle ev new_id now (mine a rows) a op = (mine a rows', resp)"
proof (cases op)
  case (OpCreate name descr raw pub)
  then show ?thesis using assms handle_create_scoped [where new_id = new_id and now = now and a = a and rows = rows and name = name and descr = descr and raw = raw and pub = pub] by simp
next
  case (OpUpdate i p)
  then show ?thesis using assms handle_update_scoped [where now = now and a = a and rows = rows and i = i and p = p] by simp
next
  case (OpDelete i)
  then show ?thesis
    using assms DeleteGoal_scoped [where a = a and rows = rows and i = i]
    by (cases "DeleteGoal rows a i"; cases "DeleteGoal (mine a rows) a i") auto
next
  case (OpToggle i d)
  then show ?thesis
    using assms ToggleGoal_scoped [where a = a and rows = rows and now = now and i = i and d = d]
    by (cases "ToggleGoal rows now a i d"; cases "ToggleGoal (mine a rows) now a i d")
      (auto split: option.splits)
next
  case (OpProgress i)
  show ?thesis
  proof (cases "GetGoal rows a i")
    case (Some g)
    then have "g_owner g = a" using GetGoal_owned by blast
    then show ?thesis
      using assms OpProgress Some evalGoal_scoped [where g = g and a = a and ev = ev and now = now and rows = rows]
      by (cases "evalGoal ev now rows g"; cases "evalGoal ev now (mine a rows) g") (auto split: sum.splits)
  qed (use assms OpProgress in simp)
next
  case OpAllProgress
  have "\<forall>g\<in>set (ListGoals rows a). g_owner g = a"
    by (simp add: ListGoals_def)
  then show ?thesis
    using assms OpAllProgress eval_all_scoped [of "ListGoals rows a" a ev now rows]
    by (cases "eval_all ev now rows (ListGoals rows a)"; cases "eval_all ev now (mine a rows) (ListGoals rows a)") auto
qed (use assms in \<open>auto\<close>)

definition demo_goal :: "string \<Rightarrow> string \<Rightarrow> goal" where
  "demo_goal i owner = \<lparr>g_id = i, g_owner = owner, g_name = ''g'', g_description = None,
     g_spec = JObj [(''kind'', JStr ''streak''), (''min_days'', JInt 0),
        (''condition'', JObj [(''kind'', JStr ''active_days''), (''window'', JStr ''week''), (''op'', JStr ''>='')])],
     g_enabled = True, g_public = False, g_created = 0, g_updated = 0, g_evaluated = None, g_progress = None\<rparr>"

definition demo_goals :: "goal list" where
  "demo_goals = [demo_goal ''1'' ''ann'', demo_goal ''2'' ''bob'']"

theorem goal_owner_isolation_witness:
  "others ''ann'' [demo_goal ''2'' ''bob''] = others ''ann'' demo_goals \<and>
   handle (\<lambda>_ _ _. Inl EmptyOwnerErr) ''9'' 5 (mine ''ann'' demo_goals) ''ann'' (OpDelete ''1'') =
     (mine ''ann'' [demo_goal ''2'' ''bob''], RNoContent)"
proof -
  have "handle (\<lambda>_ _ _. Inl EmptyOwnerErr) ''9'' 5 demo_goals ''ann'' (OpDelete ''1'') =
      ([demo_goal ''2'' ''bob''], RNoContent)"
    by (simp add: demo_goals_def demo_goal_def DeleteGoal_def owned_def)
  from goal_owner_isolation [OF this] show ?thesis by simp
qed

section \<open>The progress cache\<close>

lemma GetGoal_update:
  assumes "GetGoal rows a i = Some g" "\<And>x. g_id (f x) = g_id x \<and> g_owner (f x) = g_owner x"
  shows "GetGoal (update_where (owned a i) f rows) a i = Some (f g)"
  using assms by (induction rows) (auto simp: GetGoal_def update_where_def owned_def split: if_splits)

lemma GetGoal_progress:
  "GetGoal rows a i = Some g \<Longrightarrow> GetGoal (UpdateGoalProgress rows now a i (Some pg)) a i =
     Some (g\<lparr>g_progress := Some (Some pg), g_evaluated := Some now\<rparr>)"
  unfolding UpdateGoalProgress_def by (subst GetGoal_update [of rows a i g]) auto

lemma patched_row:
  assumes "UpdateGoal rows now a i p = Some (rows1, Some g1)" "gpt_spec p = Some s"
  shows "GetGoal rows1 a i = Some g1 \<and> g_spec g1 = s \<and> g_progress g1 = None \<and> g_evaluated g1 = None"
proof -
  obtain g where g: "GetGoal rows a i = Some g" "g1 = patch_row now p g"
      "rows1 = update_where (owned a i) (patch_row now p) rows"
    using assms by (auto simp: UpdateGoal_def empty_patch_def split: if_splits option.splits)
  have "GetGoal rows1 a i = Some g1"
    unfolding g by (rule GetGoal_update [OF g(1)]) (simp add: patch_row_def Let_def split: option.splits)
  then show ?thesis
    using assms(2) g(2) by (simp add: patch_row_def Let_def)
qed

text \<open>
  A progress read answers with a stored value only while that is younger than the cache's
  lifetime; otherwise it evaluates the stored spec at this instant and stores the result. After a
  patch of the spec the next read evaluates the new spec.
\<close>

lemma goal_progress_cache:
  assumes "handle ev new_id now rows a (OpProgress i) = (rows', RProgress pg)"
  shows "(\<exists>g. GetGoal rows a i = Some g \<and>
      (if g_progress g = Some (Some pg) \<and> rows' = rows
       then (\<exists>t. g_evaluated g = Some t \<and> now - t < GoalCacheTTL) \<or>
            (\<exists>p. ValidateSpec (Some (g_spec g)) = Inr p \<and> ev a p now = Inr pg)
       else \<exists>p. ValidateSpec (Some (g_spec g)) = Inr p \<and> ev a p now = Inr pg \<and>
              GetGoal rows' a i = Some (g\<lparr>g_progress := Some (Some pg), g_evaluated := Some now\<rparr>))) \<and>
    (\<forall>rows0 t patch s g1. UpdateGoal rows0 t a i patch = Some (rows, Some g1) \<and> gpt_spec patch = Some s \<longrightarrow>
       (\<exists>p. ValidateSpec (Some s) = Inr p \<and> ev a p now = Inr pg))"
proof -
  obtain g where g: "GetGoal rows a i = Some g" "evalGoal ev now rows g = (rows', Inr pg)"
    using assms by (auto split: option.splits prod.splits sum.splits)
  have own: "g_owner g = a" "g_id g = i"
    using GetGoal_owned [OF g(1)] by auto
  have cases: "(g_progress g = Some (Some pg) \<and> cache_fresh now g \<and> rows' = rows) \<or>
      (\<exists>p. ValidateSpec (Some (g_spec g)) = Inr p \<and> ev a p now = Inr pg \<and>
        rows' = UpdateGoalProgress rows now a i (Some pg))"
    using g(2) own by (auto simp: evalGoal_def split: option.splits bool.splits sum.splits)
  have first: "if g_progress g = Some (Some pg) \<and> rows' = rows
       then (\<exists>t. g_evaluated g = Some t \<and> now - t < GoalCacheTTL) \<or>
            (\<exists>p. ValidateSpec (Some (g_spec g)) = Inr p \<and> ev a p now = Inr pg)
       else \<exists>p. ValidateSpec (Some (g_spec g)) = Inr p \<and> ev a p now = Inr pg \<and>
              GetGoal rows' a i = Some (g\<lparr>g_progress := Some (Some pg), g_evaluated := Some now\<rparr>)"
    using cases GetGoal_progress [OF g(1)] by (auto simp: cache_fresh_def split: option.splits)
  have "\<exists>p. ValidateSpec (Some s) = Inr p \<and> ev a p now = Inr pg"
    if "UpdateGoal rows0 t a i patch = Some (rows, Some g1)" "gpt_spec patch = Some s" for rows0 t patch s g1
    using patched_row [OF that] g(1) cases by auto
  with g(1) first show ?thesis by blast
qed

lemma goal_progress_cache_witness:
  "\<exists>g p. GetGoal demo_goals ''ann'' ''1'' = Some g \<and> ValidateSpec (Some (g_spec g)) = Inr p"
proof -
  let ?pg = "\<lparr>pg_hit = True, pg_progress = 1, pg_subs = []\<rparr>"
  have "is_ok (ValidateSpec (Some (g_spec (demo_goal ''1'' ''ann''))))"
    by code_simp
  then have v: "\<exists>p. ValidateSpec (Some (g_spec (demo_goal ''1'' ''ann''))) = Inr p"
    by (simp add: is_ok_iff)
  have "\<exists>rows'. handle (\<lambda>_ _ _. Inr ?pg) ''9'' 5 demo_goals ''ann'' (OpProgress ''1'') = (rows', RProgress ?pg)"
    using v by (auto simp: demo_goals_def GetGoal_def owned_def evalGoal_def demo_goal_def)
  then obtain rows' where "handle (\<lambda>_ _ _. Inr ?pg) ''9'' 5 demo_goals ''ann'' (OpProgress ''1'') = (rows', RProgress ?pg)"
    by blast
  from goal_progress_cache [OF this] show ?thesis
    by (auto simp: demo_goals_def GetGoal_def owned_def demo_goal_def)
qed

text \<open>
  The guarantee is for requests one after the other. A read that had loaded the row before a patch
  writes the progress of the old spec into the patched row, and reads keep answering with it until
  it has aged out.
\<close>

lemma stale_progress_after_patch:
  assumes "GetGoal rows a i = Some g" "\<not> cache_fresh t0 g" "ValidateSpec (Some (g_spec g)) = Inr p_old"
    and "ev a p_old t0 = Inr pg_old"
    and "UpdateGoal rows t1 a i patch = Some (rows1, Some g1)" "gpt_spec patch = Some s"
    and "evalGoal ev t0 rows1 g = (rows2, res)" "t2 - t0 < GoalCacheTTL"
  shows "handle ev new_id t2 rows2 a (OpProgress i) = (rows2, RProgress pg_old)"
proof -
  have own: "g_owner g = a" "g_id g = i"
    using GetGoal_owned [OF assms(1)] by auto
  have "rows2 = UpdateGoalProgress rows1 t0 a i (Some pg_old)"
    using assms(2,3,4,7) own by (auto simp: evalGoal_def split: option.splits bool.splits)
  then have "GetGoal rows2 a i = Some (g1\<lparr>g_progress := Some (Some pg_old), g_evaluated := Some t0\<rparr>)"
    using GetGoal_progress patched_row [OF assms(5,6)] by blast
  then show ?thesis
    using assms(8) by (simp add: evalGoal_def cache_fresh_def)
qed

end
