(* ===== verification/GoalProgress.thy ===== *)
theory GoalProgress
  imports GoalEval
begin

text \<open>
  What the evaluator reports: every progress is a fraction, and on goals that only ask to reach a
  target the bar is full exactly when the goal is hit.
\<close>

text \<open>The unfolding of \<open>walk\<close>, one kind at a time.\<close>

lemma walk_kind:
  "gp_kind p = ''time'' \<Longrightarrow> walk db reg clock owner now p = evalTime db reg clock owner now p"
  "gp_kind p = ''active_days'' \<Longrightarrow> walk db reg clock owner now p = evalActiveDays db owner now p"
  "gp_kind p = ''streak'' \<Longrightarrow> walk db reg clock owner now p =
     (case gp_condition p of
        None \<Rightarrow> ev_fail NilCondition []
      | Some c \<Rightarrow> evalStreak
          (\<lambda>i. walk db reg clock owner (AddDate now 0 0 (- int i)) (rewriteWindowToDay c)) (gp_minDays p))"
  "gp_kind p = ''all'' \<Longrightarrow> walk db reg clock owner now p = all_loop (walk db reg clock owner now) (gp_of p) True 1"
  "gp_kind p = ''any'' \<Longrightarrow> walk db reg clock owner now p = any_loop (walk db reg clock owner now) (gp_of p) False 0"
  "gp_kind p = ''not'' \<Longrightarrow> walk db reg clock owner now p = evalNot (walk db reg clock owner now) (gp_of p)"
  "gp_kind p \<notin> {''time'', ''active_days'', ''streak'', ''all'', ''any'', ''not''} \<Longrightarrow>
     walk db reg clock owner now p = ev_fail (UnknownEvalKind (gp_kind p)) []"
  by (subst walk.simps; simp)+

lemma kind_cases:
  obtains "gp_kind p = ''time''" | "gp_kind p = ''active_days''" | "gp_kind p = ''streak''" | "gp_kind p = ''all''"
    | "gp_kind p = ''any''" | "gp_kind p = ''not''"
    | "gp_kind p \<notin> {''time'', ''active_days'', ''streak'', ''all'', ''any'', ''not''}"
  by blast

section \<open>The comparison\<close>

lemma clamp01_bounds: "0 \<le> clamp01 v \<and> clamp01 v \<le> 1"
  by (simp add: clamp01_def)

lemma clamp01_one: "clamp01 v = 1 \<longleftrightarrow> 1 \<le> v"
  by (auto simp: clamp01_def)

lemma compareOp_bounds: "compareOp op cur tgt = (hit, prog) \<Longrightarrow> 0 \<le> prog \<and> prog \<le> 1"
  using clamp01_bounds by (auto simp: compareOp_def boolAsFloat_def split: if_splits)

lemma compareOp_full:
  assumes "compareOp op cur tgt = (hit, prog)" "op \<noteq> ''<=''"
  shows "hit \<longleftrightarrow> prog = 1"
proof -
  have "clamp01 (of_int cur / of_int tgt) = 1 \<longleftrightarrow> tgt \<le> cur" if "0 < tgt"
    using that by (simp add: clamp01_one)
  moreover have "clamp01 (1 - of_int \<bar>cur - tgt\<bar> / of_int (max64 tgt 1)) \<noteq> 1" if "cur \<noteq> tgt"
  proof -
    have "0 < (of_int \<bar>cur - tgt\<bar> / of_int (max64 tgt 1) :: rat)"
      using that by (simp add: max64_def del: of_int_abs of_int_diff)
    then show ?thesis by (simp add: clamp01_one del: of_int_abs of_int_diff)
  qed
  ultimately show ?thesis
    using assms by (auto simp: compareOp_def split: if_splits)
qed

section \<open>The tree\<close>

definition fraction :: "float64 \<Rightarrow> bool" where
  "fraction x \<longleftrightarrow> 0 \<le> x \<and> x \<le> 1"

definition fractions :: "(bool \<times> float64) ev \<Rightarrow> bool" where
  "fractions r \<longleftrightarrow> (\<forall>h pr. fst r = Inr (h, pr) \<longrightarrow> fraction pr) \<and>
     (\<forall>s\<in>set (fst (snd r)). fraction (sc_progress s))"

definition full_when_hit :: "(bool \<times> float64) ev \<Rightarrow> bool" where
  "full_when_hit r \<longleftrightarrow> (\<forall>h pr. fst r = Inr (h, pr) \<longrightarrow> (h \<longleftrightarrow> pr = 1))"

text \<open>Goals without a ceiling: no leaf outside a streak compares with \<open><=\<close> and nothing is negated.\<close>

fun rising :: "goal_pred \<Rightarrow> bool" where
  "rising (GoalPred k src ax v op tgt w c md n ps) \<longleftrightarrow>
     (if k = ''time'' \<or> k = ''active_days'' then op \<noteq> ''<=''
      else if k = ''all'' \<or> k = ''any'' then list_all rising ps
      else k \<noteq> ''not'')"

lemma fractions_fail [simp]: "fractions (ev_fail e tr)" "full_when_hit (ev_fail e tr)"
  by (simp_all add: fractions_def full_when_hit_def ev_fail_def)

lemma fractions_compared:
  "fractions (leaf_result (compared p k src ax v cur tgt) tr)"
  "gp_op p \<noteq> ''<='' \<Longrightarrow> full_when_hit (leaf_result (compared p k src ax v cur tgt) tr)"
  using compareOp_bounds [of "gp_op p" cur tgt] compareOp_full [of "gp_op p" cur tgt]
  by (auto simp: fractions_def full_when_hit_def leaf_result_def compared_def fraction_def split: prod.split)

lemma fractions_time:
  "fractions (evalTime db reg clock owner now p)"
  "gp_op p \<noteq> ''<='' \<Longrightarrow> full_when_hit (evalTime db reg clock owner now p)"
  by (auto simp: evalTime_def evalTimeReading_def Let_def fractions_compared split: option.split sum.split prod.split)

lemma fractions_days:
  "fractions (evalActiveDays db owner now p)"
  "gp_op p \<noteq> ''<='' \<Longrightarrow> full_when_hit (evalActiveDays db owner now p)"
  by (auto simp: evalActiveDays_def fractions_compared split: sum.split prod.split)

lemma fractions_streak: "fractions (evalStreak day md) \<and> full_when_hit (evalStreak day md)"
proof -
  have "fraction prog \<and> (hit \<longleftrightarrow> prog = 1)" if "compareOp ''>='' d md = (hit, prog)" for d hit prog
    using compareOp_bounds [OF that] compareOp_full [OF that] by (simp add: fraction_def)
  then show ?thesis
    by (auto simp: evalStreak_def fractions_def full_when_hit_def leaf_result_def streak_sub_def ev_fail_def fraction_def
        split: prod.splits sum.splits)
qed

lemma fractions_all:
  "(\<And>p. p \<in> set ps \<Longrightarrow> fractions (f p)) \<Longrightarrow> fraction prog \<Longrightarrow> fractions (all_loop f ps hit prog)"
proof (induction ps arbitrary: hit prog)
  case (Cons p ps)
  obtain r subs tr where fp: "f p = (r, subs, tr)" by (cases "f p") auto
  have p: "fractions (r, subs, tr)" using Cons.prems(1) [of p] fp by simp
  show ?case
  proof (cases r)
    case (Inr x)
    obtain h pr where x: "x = (h, pr)" by fastforce
    have "fraction pr" using p Inr x by (simp add: fractions_def)
    then have "fractions (all_loop f ps (hit \<and> h) (if pr < prog then pr else prog))"
      using Cons by auto
    then show ?thesis using p fp Inr x by (auto simp: fractions_def split: prod.split)
  qed (use p fp in \<open>simp add: fractions_def\<close>)
qed (simp add: fractions_def)

lemma fractions_any:
  "(\<And>p. p \<in> set ps \<Longrightarrow> fractions (f p)) \<Longrightarrow> fraction prog \<Longrightarrow> fractions (any_loop f ps hit prog)"
proof (induction ps arbitrary: hit prog)
  case (Cons p ps)
  obtain r subs tr where fp: "f p = (r, subs, tr)" by (cases "f p") auto
  have p: "fractions (r, subs, tr)" using Cons.prems(1) [of p] fp by simp
  show ?case
  proof (cases r)
    case (Inr x)
    obtain h pr where x: "x = (h, pr)" by fastforce
    have "fraction pr" using p Inr x by (simp add: fractions_def)
    then have "fractions (any_loop f ps (hit \<or> h) (if pr > prog then pr else prog))"
      using Cons by auto
    then show ?thesis using p fp Inr x by (auto simp: fractions_def split: prod.split)
  qed (use p fp in \<open>simp add: fractions_def\<close>)
qed (simp add: fractions_def)

lemma full_all:
  "(\<And>p. p \<in> set ps \<Longrightarrow> fractions (f p) \<and> full_when_hit (f p)) \<Longrightarrow> hit = (prog = 1) \<Longrightarrow> fraction prog \<Longrightarrow>
   full_when_hit (all_loop f ps hit prog)"
proof (induction ps arbitrary: hit prog)
  case (Cons p ps)
  obtain r subs tr where fp: "f p = (r, subs, tr)" by (cases "f p") auto
  have p: "fractions (r, subs, tr)" "full_when_hit (r, subs, tr)" using Cons.prems(1) [of p] fp by simp_all
  show ?case
  proof (cases r)
    case (Inr x)
    obtain h pr where x: "x = (h, pr)" by fastforce
    have "fraction pr" "h = (pr = 1)" using p Inr x by (simp_all add: fractions_def full_when_hit_def)
    then have "full_when_hit (all_loop f ps (hit \<and> h) (if pr < prog then pr else prog))"
      using Cons.prems by (intro Cons.IH) (auto simp: fraction_def)
    then show ?thesis using fp Inr x by (auto simp: full_when_hit_def split: prod.split)
  qed (use fp in \<open>simp add: full_when_hit_def\<close>)
qed (simp add: full_when_hit_def)

lemma full_any:
  "(\<And>p. p \<in> set ps \<Longrightarrow> fractions (f p) \<and> full_when_hit (f p)) \<Longrightarrow> hit = (prog = 1) \<Longrightarrow> fraction prog \<Longrightarrow>
   full_when_hit (any_loop f ps hit prog)"
proof (induction ps arbitrary: hit prog)
  case (Cons p ps)
  obtain r subs tr where fp: "f p = (r, subs, tr)" by (cases "f p") auto
  have p: "fractions (r, subs, tr)" "full_when_hit (r, subs, tr)" using Cons.prems(1) [of p] fp by simp_all
  show ?case
  proof (cases r)
    case (Inr x)
    obtain h pr where x: "x = (h, pr)" by fastforce
    have "fraction pr" "h = (pr = 1)" using p Inr x by (simp_all add: fractions_def full_when_hit_def)
    then have "full_when_hit (any_loop f ps (hit \<or> h) (if pr > prog then pr else prog))"
      using Cons.prems by (intro Cons.IH) (auto simp: fraction_def)
    then show ?thesis using fp Inr x by (auto simp: full_when_hit_def split: prod.split)
  qed (use fp in \<open>simp add: full_when_hit_def\<close>)
qed (simp add: full_when_hit_def)

lemma fractions_not: "(\<And>p. p \<in> set ps \<Longrightarrow> fractions (f p)) \<Longrightarrow> fractions (evalNot f ps)"
  using clamp01_bounds
  by (auto simp: evalNot_def fractions_def fraction_def ev_fail_def split: list.split prod.splits sum.splits)

lemma walk_fractions: "fractions (walk db reg clock owner now p)"
proof (induction db reg clock owner now p rule: walk.induct)
  case (1 db reg clock owner now p)
  have child: "fractions (walk db reg clock owner now q)"
    if "gp_kind p = ''all'' \<or> gp_kind p = ''any'' \<or> gp_kind p = ''not''" "q \<in> set (gp_of p)" for q
    using 1(2-4) that by (elim disjE) simp_all
  have f01: "fraction 1" "fraction 0" by (simp_all add: fraction_def)
  show ?case
  proof (cases rule: kind_cases [of p])
    case 3
    then show ?thesis
      by (cases "gp_condition p") (simp_all add: walk_kind fractions_streak)
  next
    case 4
    show ?thesis unfolding walk_kind(4) [OF 4] by (rule fractions_all) (use 4 child f01 in simp_all)
  next
    case 5
    show ?thesis unfolding walk_kind(5) [OF 5] by (rule fractions_any) (use 5 child f01 in simp_all)
  next
    case 6
    show ?thesis unfolding walk_kind(6) [OF 6] by (rule fractions_not) (use 6 child in simp_all)
  qed (simp_all add: walk_kind fractions_time fractions_days)
qed

lemma rising_op: "rising p \<Longrightarrow> gp_kind p = ''time'' \<or> gp_kind p = ''active_days'' \<Longrightarrow> gp_op p \<noteq> ''<=''"
  by (cases p) auto

lemma rising_children: "rising p \<Longrightarrow> gp_kind p = ''all'' \<or> gp_kind p = ''any'' \<Longrightarrow> q \<in> set (gp_of p) \<Longrightarrow> rising q"
  by (cases p) (auto simp: list_all_iff)

lemma walk_full: "rising p \<Longrightarrow> full_when_hit (walk db reg clock owner now p)"
proof (induction db reg clock owner now p rule: walk.induct)
  case (1 db reg clock owner now p)
  have child: "fractions (walk db reg clock owner now q) \<and> full_when_hit (walk db reg clock owner now q)"
    if "gp_kind p = ''all'' \<or> gp_kind p = ''any''" "q \<in> set (gp_of p)" for q
    using 1(2,3) that rising_children [OF 1(5)] walk_fractions by (elim disjE) simp_all
  have f01: "fraction 1" "fraction 0" by (simp_all add: fraction_def)
  show ?case
  proof (cases rule: kind_cases [of p])
    case 3
    then show ?thesis
      by (cases "gp_condition p") (simp_all add: walk_kind fractions_streak)
  next
    case 4
    show ?thesis unfolding walk_kind(4) [OF 4] by (rule full_all) (use 4 child f01 in simp_all)
  next
    case 5
    show ?thesis unfolding walk_kind(5) [OF 5] by (rule full_any) (use 5 child f01 in simp_all)
  next
    case 6
    with 1(5) show ?thesis by (cases p) simp
  qed (use rising_op [OF 1(5)] in \<open>simp_all add: walk_kind fractions_time fractions_days\<close>)
qed

text \<open>
  C18 The progress of a goal and of each of its conditions is a fraction, whatever the stored spec
  and the database; and on a goal without a ceiling and without negation it is 1 exactly when the
  goal is hit.
\<close>

theorem goal_progress_fraction:
  assumes "Evaluate db reg clock owner p now = Inr pg"
  shows "0 \<le> pg_progress pg \<and> pg_progress pg \<le> 1 \<and>
    (\<forall>s\<in>set (pg_subs pg). 0 \<le> sc_progress s \<and> sc_progress s \<le> 1) \<and>
    (rising p \<longrightarrow> (pg_hit pg \<longleftrightarrow> pg_progress pg = 1))"
proof -
  obtain hit prog subs tr where w: "walk db reg clock owner now p = (Inr (hit, prog), subs, tr)"
      "pg = \<lparr>pg_hit = hit, pg_progress = prog, pg_subs = subs\<rparr>"
    using assms by (auto simp: Evaluate_def split: if_splits prod.splits sum.splits)
  then show ?thesis
    using walk_fractions [of db reg clock owner now p] walk_full [of p db reg clock owner now]
    by (auto simp: fractions_def full_when_hit_def fraction_def)
qed

text \<open>A day on which a third of the target is reached.\<close>

definition demo_db :: "unit goal_db" where
  "demo_db = \<lparr>gd_sum = \<lambda>_ _ _ _. Inr 20, gd_days = \<lambda>_ _ _. Inr 1, gd_renames = \<lambda>_. Inr (\<lambda>_. no_renames),
     gd_query = \<lparr>db_groups = \<lambda>_ _. Inr [], db_series = \<lambda>_ _. Inr [], db_scalar = \<lambda>_ _. Inr 0,
                 db_rows = \<lambda>_ _. Inr [], db_count = \<lambda>_ _. Inr 0\<rparr>\<rparr>"

definition hour_a_day :: goal_pred where
  "hour_a_day = GoalPred ''time'' [] ''language'' None ''>='' 60 ''day'' None 0 0 []"

theorem goal_progress_fraction_witness:
  "(0 :: float64) \<le> 1 / 3 \<and> (1 :: float64) / 3 \<le> 1 \<and> (False \<longleftrightarrow> (1 :: float64) / 3 = 1)"
proof -
  let ?s = "\<lparr>sc_kind = ''time'', sc_source = [], sc_axis = ''language'', sc_value = None, sc_op = ''>='',
     sc_window = ''day'', sc_current = 20, sc_target = 60, sc_progress = 1 / 3, sc_hit = False\<rparr>"
  have "walk demo_db [] 0 ''ann'' 0 hour_a_day =
      (Inr (False, 1 / 3), [?s], [SumStmt None (fst (windowRange 0 ''day'')) (snd (windowRange 0 ''day''))])"
    by (subst walk_kind) (simp_all add: hour_a_day_def evalTime_def validHeartbeatAxes_def demo_db_def compared_def
        compareOp_def clamp01_def leaf_result_def split: prod.split)
  then have "Evaluate demo_db [] 0 ''ann'' hour_a_day 0 = Inr \<lparr>pg_hit = False, pg_progress = 1 / 3, pg_subs = [?s]\<rparr>"
    by (simp add: Evaluate_def)
  from goal_progress_fraction [OF this] show ?thesis
    by (simp add: hour_a_day_def)
qed

end
