(* ===== verification/GoalCost.thy ===== *)
theory GoalCost
  imports GoalProgress
begin

text \<open>
  How many statements an evaluation sends, besides the one that loads the rename rules: a bound by
  the shape of the spec, and the specs that reach it. The validator bounds each streak, so nested
  streaks multiply.
\<close>

definition statements :: "(bool \<times> float64) ev \<Rightarrow> nat" where
  "statements r = length (snd (snd r))"

fun cost_bound :: "goal_pred \<Rightarrow> nat" where
  "cost_bound (GoalPred k src ax v op tgt w c md n ps) =
     (if k = ''time'' \<or> k = ''active_days'' then 1
      else if k = ''streak'' then (case c of None \<Rightarrow> 0 | Some q \<Rightarrow> nat md * cost_bound q)
      else sum_list (map cost_bound ps))"

lemma cost_rewrite [simp]: "cost_bound (rewriteWindowToDay p) = cost_bound p"
proof (induction p rule: rewriteWindowToDay.induct)
  case (1 k src ax v op tgt w c md n ps)
  have group: "sum_list (map (cost_bound \<circ> rewriteWindowToDay) ps) = sum_list (map cost_bound ps)"
    if "k = ''all'' \<or> k = ''any''"
    using 1 that by (intro arg_cong [of _ _ sum_list] map_cong) auto
  have one: "cost_bound (rewriteWindowToDay q) = cost_bound q" if "k = ''not''" "ps = [q]" for q
    using 1 that by simp
  consider "k = ''all'' \<or> k = ''any''" | q where "k = ''not''" "ps = [q]"
    | "k \<notin> {''all'', ''any''}" "k = ''not'' \<longrightarrow> (\<forall>q. ps \<noteq> [q])"
    by auto
  then show ?case
    by cases (use group one in \<open>auto split: list.split\<close>)
qed

lemma statements_leaves:
  "statements (evalTime db reg clock owner now p) \<le> 1" "statements (evalActiveDays db owner now p) \<le> 1"
  by (auto simp: statements_def evalTime_def evalTimeReading_def evalActiveDays_def ev_fail_def leaf_result_def Let_def
      split: option.split sum.split prod.split)

lemma statements_all:
  "(\<And>q. q \<in> set ps \<Longrightarrow> statements (f q) \<le> g q) \<Longrightarrow> statements (all_loop f ps hit prog) \<le> sum_list (map g ps)"
proof (induction ps arbitrary: hit prog)
  case (Cons p ps)
  obtain r subs tr where fp: "f p = (r, subs, tr)" by (cases "f p") auto
  then have p: "length tr \<le> g p" using Cons.prems [of p] by (simp add: statements_def)
  show ?case
  proof (cases r)
    case (Inr x)
    obtain h pr where x: "x = (h, pr)" by fastforce
    have "statements (all_loop f ps (hit \<and> h) (if pr < prog then pr else prog)) \<le> sum_list (map g ps)"
      using Cons by simp
    with p fp Inr x show ?thesis by (auto simp: statements_def case_prod_unfold split: if_splits)
  qed (use p fp in \<open>simp add: statements_def\<close>)
qed (simp add: statements_def)

lemma statements_any:
  "(\<And>q. q \<in> set ps \<Longrightarrow> statements (f q) \<le> g q) \<Longrightarrow> statements (any_loop f ps hit prog) \<le> sum_list (map g ps)"
proof (induction ps arbitrary: hit prog)
  case (Cons p ps)
  obtain r subs tr where fp: "f p = (r, subs, tr)" by (cases "f p") auto
  then have p: "length tr \<le> g p" using Cons.prems [of p] by (simp add: statements_def)
  show ?case
  proof (cases r)
    case (Inr x)
    obtain h pr where x: "x = (h, pr)" by fastforce
    have "statements (any_loop f ps (hit \<or> h) (if pr > prog then pr else prog)) \<le> sum_list (map g ps)"
      using Cons by simp
    with p fp Inr x show ?thesis by (auto simp: statements_def case_prod_unfold split: if_splits)
  qed (use p fp in \<open>simp add: statements_def\<close>)
qed (simp add: statements_def)

lemma statements_not: "(\<And>q. q \<in> set ps \<Longrightarrow> statements (f q) \<le> g q) \<Longrightarrow> statements (evalNot f ps) \<le> sum_list (map g ps)"
  by (auto simp: evalNot_def statements_def ev_fail_def split: list.split prod.split sum.split)

lemma streak_days_cost:
  "(\<And>i. statements (day i) \<le> n) \<Longrightarrow> length (snd (streak_days day m i hits)) \<le> m * n"
proof (induction m arbitrary: i hits)
  case (Suc m)
  obtain r subs tr where d: "day i = (r, subs, tr)" by (cases "day i") auto
  then have p: "length tr \<le> n" using Suc.prems [of i] by (simp add: statements_def)
  show ?case
  proof (cases r)
    case (Inr x)
    obtain h pr where x: "x = (h, pr)" by fastforce
    have "length (snd (streak_days day m (Suc i) (hits + 1))) \<le> m * n" using Suc by simp
    with p d Inr x show ?thesis by (auto split: prod.split)
  qed (use p d in simp)
qed simp

lemma statements_streak: "(\<And>i. statements (day i) \<le> n) \<Longrightarrow> statements (evalStreak day md) \<le> nat md * n"
  using streak_days_cost [of day n "nat md" 0 0]
  by (auto simp: evalStreak_def statements_def ev_fail_def leaf_result_def split: prod.split sum.split)

lemma cost_parts:
  "gp_kind p = ''time'' \<or> gp_kind p = ''active_days'' \<Longrightarrow> cost_bound p = 1"
  "gp_kind p = ''streak'' \<Longrightarrow> gp_condition p = Some c \<Longrightarrow> cost_bound p = nat (gp_minDays p) * cost_bound c"
  "gp_kind p \<notin> {''time'', ''active_days'', ''streak''} \<Longrightarrow> cost_bound p = sum_list (map cost_bound (gp_of p))"
  by (cases p; simp)+

lemma statements_fail: "statements (ev_fail e tr) = length tr"
  by (simp add: statements_def ev_fail_def)

lemma walk_cost: "statements (walk db reg clock owner now p) \<le> cost_bound p"
proof (induction db reg clock owner now p rule: walk.induct)
  case (1 db reg clock owner now p)
  have child: "statements (walk db reg clock owner now q) \<le> cost_bound q"
    if "gp_kind p = ''all'' \<or> gp_kind p = ''any'' \<or> gp_kind p = ''not''" "q \<in> set (gp_of p)" for q
    using 1(2-4) that by (elim disjE) simp_all
  show ?case
  proof (cases rule: kind_cases [of p])
    case k: 3
    show ?thesis
    proof (cases "gp_condition p")
      case (Some c)
      have "statements (walk db reg clock owner (AddDate now 0 0 (- int i)) (rewriteWindowToDay c)) \<le> cost_bound c" for i
        using 1(1) k Some by fastforce
      from statements_streak [OF this] show ?thesis
        by (simp add: walk_kind(3) [OF k] Some cost_parts(2) [OF k Some])
    qed (simp add: walk_kind(3) [OF k] statements_def ev_fail_def)
  next
    case k: 4
    show ?thesis
      unfolding walk_kind(4) [OF k] by (subst cost_parts) (use k child in \<open>auto intro: statements_all\<close>)
  next
    case k: 5
    show ?thesis
      unfolding walk_kind(5) [OF k] by (subst cost_parts) (use k child in \<open>auto intro: statements_any\<close>)
  next
    case k: 6
    show ?thesis
      unfolding walk_kind(6) [OF k] by (subst cost_parts) (use k child in \<open>auto intro: statements_not\<close>)
  qed (simp_all add: walk_kind statements_leaves [simplified] cost_parts statements_fail)
qed

section \<open>Nested streaks\<close>

text \<open>A streak of a streak and so on, over a leaf that no day misses.\<close>

definition always_hit :: "string \<Rightarrow> goal_pred" where
  "always_hit w = GoalPred ''time'' [] ''language'' None ''>='' 0 w None 0 0 []"

definition streak_of :: "nat \<Rightarrow> goal_pred \<Rightarrow> goal_pred" where
  "streak_of m c = GoalPred ''streak'' [] [] None [] 0 [] (Some c) (int m) 0 []"

definition nested_streak :: "nat list \<Rightarrow> goal_pred" where
  "nested_streak ms = foldr streak_of ms (always_hit ''day'')"

lemma nested_simps [simp]:
  "nested_streak [] = always_hit ''day''" "nested_streak (m # ms) = streak_of m (nested_streak ms)"
  by (simp_all add: nested_streak_def)

lemma rewrite_nested [simp]: "rewriteWindowToDay (nested_streak ms) = nested_streak ms"
  by (cases ms) (simp_all add: always_hit_def streak_of_def)

lemma nested_valid:
  "d + length ms \<le> MaxPredicateDepth \<Longrightarrow> \<forall>m\<in>set ms. m \<le> 365 \<Longrightarrow> validateNode (nested_streak ms) d = None"
proof (induction ms arbitrary: d)
  case Nil
  then show ?case
    by (simp add: always_hit_def check_time_def check_def first_error_None validTimeSources_def validHeartbeatAxes_def
        validTimeWindows_def validOps_def)
next
  case (Cons m ms)
  then show ?case by (simp add: streak_of_def MaxStreakDays_def)
qed

definition runs_hit :: "nat \<Rightarrow> (bool \<times> float64) ev \<Rightarrow> bool" where
  "runs_hit n r \<longleftrightarrow> (\<exists>pr. fst r = Inr (True, pr)) \<and> statements r = n"

lemma streak_days_all:
  "(\<And>i. runs_hit n (day i)) \<Longrightarrow>
   \<exists>tr. streak_days day m i hits = (Inr (hits + int m), tr) \<and> length tr = m * n"
proof (induction m arbitrary: i hits)
  case (Suc m)
  obtain pr subs tr where d: "day i = (Inr (True, pr), subs, tr)" "length tr = n"
    using Suc.prems [of i] by (cases "day i") (auto simp: runs_hit_def statements_def)
  obtain tr' where "streak_days day m (Suc i) (hits + 1) = (Inr (hits + 1 + int m), tr')" "length tr' = m * n"
    using Suc by blast
  then show ?case using d by simp
qed simp

lemma nested_runs:
  assumes "\<And>f s e. \<exists>v. gd_sum db owner f s e = Inr v"
  shows "\<forall>m\<in>set ms. 1 \<le> m \<Longrightarrow> runs_hit (prod_list ms) (walk db reg clock owner now (nested_streak ms))"
proof (induction ms arbitrary: now)
  case Nil
  obtain s e where w: "windowRange now ''day'' = (s, e)" by fastforce
  obtain v where "gd_sum db owner None s e = Inr v"
    using assms by blast
  then show ?case
    by (simp add: runs_hit_def statements_def walk_kind(1) always_hit_def evalTime_def validHeartbeatAxes_def w
        compared_def compareOp_def leaf_result_def)
next
  case (Cons m ms)
  have "runs_hit (prod_list ms) (walk db reg clock owner (AddDate now 0 0 (- int i)) (nested_streak ms))" for i
    using Cons by simp
  from streak_days_all [of "prod_list ms" "\<lambda>i. walk db reg clock owner (AddDate now 0 0 (- int i)) (nested_streak ms)",
      OF this, of m 0 0]
  obtain tr where "streak_days (\<lambda>i. walk db reg clock owner (AddDate now 0 0 (- int i)) (nested_streak ms)) m 0 0 =
      (Inr (int m), tr)" "length tr = m * prod_list ms" by auto
  moreover have "1 \<le> m" using Cons.prems by simp
  ultimately show ?case
    by (simp add: walk_kind(3) streak_of_def evalStreak_def runs_hit_def statements_def leaf_result_def compareOp_def
        streak_sub_def)
qed

text \<open>
  An evaluation sends at most the statements its shape allows: one per leaf, \<open>min_days\<close> times as
  many for a streak. The bound is reached: up to four streaks may be nested around a leaf, the
  validator accepts each of them up to 365 days, and the evaluator then sends their product.
\<close>

lemma goal_statement_bound:
  "length (snd (snd (walk db reg clock owner now p))) \<le> cost_bound p \<and>
   (length ms \<le> 4 \<and> list_all (\<lambda>m. 1 \<le> m \<and> m \<le> 365) ms \<and> (\<forall>f s e. is_ok (gd_sum db owner f s e)) \<longrightarrow>
      validateNode (nested_streak ms) 1 = None \<and>
      length (snd (snd (walk db reg clock owner now (nested_streak ms)))) = prod_list ms)"
proof -
  have "validateNode (nested_streak ms) 1 = None"
    if "length ms \<le> 4" "list_all (\<lambda>m. 1 \<le> m \<and> m \<le> 365) ms"
    using that by (intro nested_valid) (auto simp: MaxPredicateDepth_def list_all_iff)
  moreover have "length (snd (snd (walk db reg clock owner now (nested_streak ms)))) = prod_list ms"
    if "list_all (\<lambda>m. 1 \<le> m \<and> m \<le> 365) ms" "\<forall>f s e. is_ok (gd_sum db owner f s e)"
    using nested_runs [of db owner ms reg clock now] that by (auto simp: is_ok_iff list_all_iff runs_hit_def statements_def)
  ultimately show ?thesis
    using walk_cost [of db reg clock owner now p] by (auto simp: statements_def)
qed

text \<open>The largest one: more than seventeen thousand million statements for one read of its progress.\<close>

lemma goal_statement_bound_witness:
  "validateNode (nested_streak [365, 365, 365, 365]) 1 = None \<and>
   length (snd (snd (walk demo_db [] 0 ''ann'' 0 (nested_streak [365, 365, 365, 365])))) = 17748900625"
  using goal_statement_bound [of demo_db "[]" 0 "''ann''" 0 hour_a_day "[365, 365, 365, 365]"]
  by (simp add: demo_db_def)

end
