(* ===== verification/GoalMeaning.thy ===== *)
theory GoalMeaning
  imports GoalProgress QueryProps
begin

text \<open>
  What a goal asks for, stated over the tables without the evaluator's loops and filters, and the
  refinement: on a validated spec the evaluator always answers, and its answer is that.
\<close>

section \<open>The meaning of a spec\<close>

record 'r goal_tables =
  gt_rollup :: "rollup_row list"
  gt_rules :: "rename_rule list"
  gt_query :: "'r querier"

definition db_of :: "'r goal_tables \<Rightarrow> 'r goal_db" where
  "db_of t = \<lparr>gd_sum = \<lambda>o' f s e. Inr (sum_rollup (gt_rollup t) o' f s e),
     gd_days = \<lambda>o' s e. Inr (active_days (gt_rollup t) o' s e),
     gd_renames = \<lambda>o'. Inr (LoadRenameSets (gt_rules t) o'), gd_query = gt_query t\<rparr>"

definition op_holds :: "string \<Rightarrow> int \<Rightarrow> int \<Rightarrow> bool" where
  "op_holds op cur tgt = (if op = ''>='' then cur \<ge> tgt else if op = ''<='' then cur \<le> tgt else cur = tgt)"

definition window_days :: "string \<Rightarrow> int" where
  "window_days w = (if w = ''day'' then 1 else if w = ''week'' then 7 else if w = ''month'' then 30 else 365)"

definition first_day :: "gotime \<Rightarrow> string \<Rightarrow> gotime" where
  "first_day now w = (if w = ''lifetime'' then 0 else midnight now - (window_days w - 1) * day_ns)"

text \<open>The exact rule that is in force for a raw value: the one with the largest id.\<close>

definition in_force :: "string \<Rightarrow> string \<Rightarrow> string \<Rightarrow> rename_rule \<Rightarrow> bool" where
  "in_force owner axis low r \<longleftrightarrow> rr_sender r = owner \<and> rr_action r = ''rename'' \<and> rr_enabled r \<and>
     rr_new_value r \<noteq> None \<and> \<not> rr_at_ingest r \<and> rr_axis r = axis \<and>
     rr_match_type r \<noteq> ''regex'' \<and> rr_match_type r \<noteq> ''template'' \<and> to_lower (rr_match r) = low"

definition renamed_to :: "rename_rule list \<Rightarrow> string \<Rightarrow> string \<Rightarrow> string \<Rightarrow> string option" where
  "renamed_to rules owner axis raw =
     (case find (in_force owner axis (to_lower raw)) (rev rules) of None \<Rightarrow> None | Some r \<Rightarrow> rr_new_value r)"

definition counts_for :: "rename_rule list \<Rightarrow> string \<Rightarrow> string \<Rightarrow> string \<Rightarrow> string \<Rightarrow> bool" where
  "counts_for rules owner axis v raw \<longleftrightarrow> to_lower raw = to_lower v \<or> renamed_to rules owner axis raw = Some v"

definition row_counts :: "rename_rule list \<Rightarrow> string \<Rightarrow> string \<Rightarrow> string option \<Rightarrow> rollup_row \<Rightarrow> bool" where
  "row_counts rules owner axis value r =
     (case value of None \<Rightarrow> True
      | Some v \<Rightarrow> (case ru_col r axis of None \<Rightarrow> False | Some raw \<Rightarrow> counts_for rules owner axis v raw))"

definition coding_time :: "'r goal_tables \<Rightarrow> string \<Rightarrow> gotime \<Rightarrow> goal_pred \<Rightarrow> int" where
  "coding_time t owner now p =
     (\<Sum>r\<leftarrow>filter (\<lambda>r. in_window owner (first_day now (gp_window p)) (midnight now) r \<and>
                      row_counts (gt_rules t) owner (gp_axis p) (gp_value p) r) (gt_rollup t). ru_seconds r)"

text \<open>
  The two reading statements: the listened seconds of a window, and the run time, in minutes, of
  the books of a genre, series or status finished in it.
\<close>

definition reading_column :: "string \<Rightarrow> string" where
  "reading_column axis =
     (if axis = ''genre'' then ''genres->>0'' else if axis = ''series'' then ''series''
      else ''COALESCE(status_override, status)'')"

definition window_conj :: "string \<Rightarrow> tok list" where
  "window_conj col = [TReg col, TTxt '' >= '', THole 2, TAnd, TReg col, TTxt '' < '', THole 3]"

definition reading_text :: "string \<Rightarrow> tok list" where
  "reading_text axis =
     (let owner_conj = [TReg ''owner'', TTxt '' = '', THole 1];
          value_of = (\<lambda>e. coalesced e @ [TTxt '' AS value'']) in
      if axis = []
      then assemble [value_of ''sum(listening_seconds)''] ''reading_activity'' [owner_conj, window_conj ''bucket_date'']
      else assemble [value_of ''sum(runtime_min)''] ''reading_items''
             [owner_conj, window_conj ''finished_at'',
              lower_col \<lparr>d_name = axis, d_table = ''reading_items'', d_expr = reading_column axis\<rparr> @
                [TTxt '' = ''] @ lower_hole 4])"

definition reading_args :: "string \<Rightarrow> gotime \<Rightarrow> goal_pred \<Rightarrow> sql_arg list" where
  "reading_args owner now p =
     [AStr owner, ATime (first_day now (gp_window p)), ATime (midnight now + day_ns)] @
     (if gp_axis p = [] then [] else [AStr (the (gp_value p))])"

definition reading_time :: "'r goal_tables \<Rightarrow> string \<Rightarrow> gotime \<Rightarrow> goal_pred \<Rightarrow> int" where
  "reading_time t owner now p =
     \<lfloor>projr (db_scalar (gt_query t) (render (reading_text (gp_axis p))) (reading_args owner now p))\<rfloor> *
     (if gp_axis p = [] then 1 else 60)"

definition time_spent :: "'r goal_tables \<Rightarrow> string \<Rightarrow> gotime \<Rightarrow> goal_pred \<Rightarrow> int" where
  "time_spent t owner now p = (if gp_source p = ''reading'' then reading_time t owner now p else coding_time t owner now p)"

definition days_active :: "'r goal_tables \<Rightarrow> string \<Rightarrow> gotime \<Rightarrow> goal_pred \<Rightarrow> int" where
  "days_active t owner now p =
     int (card {d. first_day now (gp_window p) \<le> d \<and> d \<le> midnight now \<and>
                 (\<exists>r\<in>set (gt_rollup t). ru_sender r = owner \<and> ru_day r = d)})"

text \<open>
  A streak holds when its condition, with the windows narrowed to the day, holds on each of the
  last \<open>min_days\<close> days.
\<close>

function sat :: "'r goal_tables \<Rightarrow> string \<Rightarrow> gotime \<Rightarrow> goal_pred \<Rightarrow> bool" where
  "sat t owner now p \<longleftrightarrow>
     (if gp_kind p = ''time'' then op_holds (gp_op p) (time_spent t owner now p) (gp_target p)
      else if gp_kind p = ''active_days'' then op_holds (gp_op p) (days_active t owner now p) (gp_n p)
      else if gp_kind p = ''streak'' then
        (\<forall>i<nat (gp_minDays p).
           (case gp_condition p of None \<Rightarrow> False
            | Some c \<Rightarrow> sat t owner (now - int i * day_ns) (rewriteWindowToDay c)))
      else if gp_kind p = ''all'' then \<forall>q\<in>set (gp_of p). sat t owner now q
      else if gp_kind p = ''any'' then \<exists>q\<in>set (gp_of p). sat t owner now q
      else \<forall>q\<in>set (gp_of p). \<not> sat t owner now q)"
  by pat_completeness auto

termination sat
  by (relation "measure (\<lambda>(_, _, _, p). nesting p)") (auto simp: nesting_child nesting_condition)

declare sat.simps [simp del]

lemma sat_streak:
  "gp_kind p = ''streak'' \<Longrightarrow> gp_condition p = Some c \<Longrightarrow>
     sat t owner now p \<longleftrightarrow> (\<forall>i<nat (gp_minDays p). sat t owner (now - int i * day_ns) (rewriteWindowToDay c))"
  by (subst sat.simps) simp

lemma sat_time:
  "gp_kind p = ''time'' \<Longrightarrow> sat t owner now p = op_holds (gp_op p) (time_spent t owner now p) (gp_target p)"
  by (subst sat.simps) simp

lemma sat_days:
  "gp_kind p = ''active_days'' \<Longrightarrow> sat t owner now p = op_holds (gp_op p) (days_active t owner now p) (gp_n p)"
  by (subst sat.simps) simp

lemma sat_all: "gp_kind p = ''all'' \<Longrightarrow> sat t owner now p \<longleftrightarrow> (\<forall>q\<in>set (gp_of p). sat t owner now q)"
  by (subst sat.simps) simp

lemma sat_any: "gp_kind p = ''any'' \<Longrightarrow> sat t owner now p \<longleftrightarrow> (\<exists>q\<in>set (gp_of p). sat t owner now q)"
  by (subst sat.simps) simp

lemma sat_not: "gp_kind p = ''not'' \<Longrightarrow> sat t owner now p \<longleftrightarrow> (\<forall>q\<in>set (gp_of p). \<not> sat t owner now q)"
  by (subst sat.simps) simp

section \<open>Windows and filters\<close>

lemma epoch: "Date 1970 1 1 = 0"
  by code_simp

lemma windowRange_days:
  assumes "w \<in> set validTimeWindows"
  shows "windowRange now w = (first_day now w, midnight now)"
proof -
  consider "w = ''day''" | "w = ''week''" | "w = ''month''" | "w = ''year''" | "w = ''lifetime''"
    using assms by (auto simp: validTimeWindows_def)
  then show ?thesis
    by cases (simp_all add: windowRange_def first_day_def window_days_def date_midnight AddDate_days epoch Let_def)
qed

lemma exact_of_rules:
  "aget (ren_exact (LoadRenameSets rules owner axis)) low =
     (case find (in_force owner axis low) (rev rules) of None \<Rightarrow> None | Some r \<Rightarrow> rr_new_value r)"
proof (induction rules rule: rev_induct)
  case (snoc r rules)
  then show ?case
    by (auto simp: LoadRenameSets_def add_rename_def in_force_def Let_def aget_aput split: option.splits)
qed (simp add: LoadRenameSets_def no_renames_def)

lemma exact_distinct: "distinct (map fst (ren_exact (LoadRenameSets rules owner axis)))"
  by (induction rules rule: rev_induct)
    (auto simp: LoadRenameSets_def no_renames_def add_rename_def Let_def distinct_aput)

lemma exact_lower:
  "low \<in> fst ` set (ren_exact (LoadRenameSets rules owner axis)) \<Longrightarrow> to_lower low = low"
  by (induction rules rule: rev_induct)
    (auto simp: LoadRenameSets_def no_renames_def add_rename_def Let_def keys_aput split: if_splits)

lemma sourcesFor_counts:
  "to_lower raw \<in> set (sourcesFor (LoadRenameSets rules owner) axis v) \<longleftrightarrow> counts_for rules owner axis v raw"
proof -
  let ?ex = "ren_exact (LoadRenameSets rules owner axis)"
  have "to_lower raw \<in> to_lower ` fst ` {p \<in> set ?ex. snd p = v} \<longleftrightarrow> aget ?ex (to_lower raw) = Some v"
  proof
    assume "to_lower raw \<in> to_lower ` fst ` {p \<in> set ?ex. snd p = v}"
    then obtain low where "(low, v) \<in> set ?ex" "to_lower raw = to_lower low" by auto
    moreover from this have "to_lower low = low"
      using exact_lower [of low rules owner axis] by (force simp: image_iff)
    ultimately show "aget ?ex (to_lower raw) = Some v"
      using aget_mem [OF exact_distinct] by simp
  next
    assume "aget ?ex (to_lower raw) = Some v"
    then have "(to_lower raw, v) \<in> set ?ex" by (rule aget_SomeD)
    then show "to_lower raw \<in> to_lower ` fst ` {p \<in> set ?ex. snd p = v}"
      by (force simp: image_iff)
  qed
  then show ?thesis
    unfolding counts_for_def renamed_to_def exact_of_rules [symmetric] sourcesFor_def ExactSourcesFor_def
    by (auto simp: case_prod_unfold)
qed

lemma valid_axis: "aget validHeartbeatAxes a = Some c \<Longrightarrow> c = a"
  by (auto simp: validHeartbeatAxes_def split: if_splits)

lemma sum_rollup_time:
  assumes "gp_window p \<in> set validTimeWindows"
    and "flt = (case gp_value p of None \<Rightarrow> None
           | Some v \<Rightarrow> Some (gp_axis p, sourcesFor (LoadRenameSets (gt_rules t) owner) (gp_axis p) v))"
  shows "sum_rollup (gt_rollup t) owner flt (first_day now (gp_window p)) (midnight now) = coding_time t owner now p"
proof -
  have "axis_matches flt r = row_counts (gt_rules t) owner (gp_axis p) (gp_value p) r" for r
    unfolding assms(2)
    by (auto simp: axis_matches_def row_counts_def sourcesFor_counts split: option.split)
  then show ?thesis
    by (simp add: sum_rollup_def coding_time_def)
qed

lemma active_days_card:
  assumes "gp_window p \<in> set validActiveDaysWindows"
  shows "active_days (gt_rollup t) owner (first_day now (gp_window p)) (midnight now) = days_active t owner now p"
  unfolding active_days_def days_active_def by (auto simp: in_window_def intro: arg_cong [of _ _ card])

text \<open>The reading statements compile, with the window and the value as arguments.\<close>

definition in_calendar :: "gotime \<Rightarrow> bool" where
  "in_calendar now \<longleftrightarrow> - 2000 * day_ns \<le> now"

lemma midnight_mono: "s \<le> t \<Longrightarrow> midnight s \<le> midnight t"
  by (simp add: midnight_def day_no_def zdiv_mono1 mult_right_mono)

lemma window_start:
  assumes "in_calendar now" "0 \<le> now \<or> w = ''day''" "w \<in> set validTimeWindows"
  shows "first_day now w \<le> midnight now \<and> zero_time < first_day now w \<and> zero_time < midnight now"
proof -
  have "midnight (- 2000 * day_ns) = - 2000 * day_ns"
    unfolding midnight_def day_no_mult ..
  then have m: "- 2000 * day_ns \<le> midnight now"
    using midnight_mono [of "- 2000 * day_ns" now] assms(1) unfolding in_calendar_def by simp
  have p: "0 \<le> midnight now" if "0 \<le> now"
    using midnight_mono [OF that] by (simp add: midnight_def day_no_def)
  have z: "zero_time < - 3000 * day_ns" "zero_time < 0" by (simp_all add: zero_time_def day_ns_def)
  consider "w = ''day''" | "w = ''week''" | "w = ''month''" | "w = ''year''" | "w = ''lifetime''"
    using assms(3) by (auto simp: validTimeWindows_def)
  then show ?thesis
  proof cases
  qed (use m p z assms(2) day_ns_pos in \<open>simp_all add: first_day_def window_days_def, linarith+\<close>)
qed

lemma endExclusive_midnight: "endExclusive (midnight t) = midnight t + day_ns"
  by (simp add: endExclusive_def AddDate_days date_midnight)

lemma reading_query_base:
  "gp_window p \<in> set validTimeWindows \<Longrightarrow> reading_query now p =
     At_time (Over (if gp_axis p = [] then Measure (Q ''reading'') ''seconds''
       else Where (Measure (Q ''reading'') ''runtime'') (Some (Leaf (gp_axis p) ''eq'' [the (gp_value p)])))
       ''none'' (Between (first_day now (gp_window p)) (midnight now))) now"
  by (simp add: reading_query_def windowRange_days Let_def)

lemma compile_base:
  assumes "lookupDomain reg ''reading'' = Some registerReading" "owner \<noteq> []"
    and "s \<noteq> zero_time" "e \<noteq> zero_time" "s \<le> e" "a = [] \<or> a = ''genre'' \<or> a = ''series'' \<or> a = ''status''"
  shows "Compile reg clock owner
      (At_time (Over (if a = [] then Measure (Q ''reading'') ''seconds''
         else Where (Measure (Q ''reading'') ''runtime'') (Some (Leaf a ''eq'' [v]))) ''none'' (Between s e)) now) =
    Inr (reading_text a, [AStr owner, ATime s, ATime (endExclusive e)] @ (if a = [] then [] else [AStr v]))"
  using assms(6)
  apply (elim disjE; hypsubst)
  apply (simp_all only: if_True if_False list.distinct simp_thms append_Nil2)
  apply (simp_all add: assms(1-5) Compile_def builder_defs Q_def Between_def zero_range_def range_validate_def
      time_is_zero_def compileAggregate_def registerReading_def)
  apply (simp_all add: assms(1-5) not_less select_axis_def select_rollups_def where_clause_def where_pred_def
      range_isZero_def resolveRange_def having_clause_def orderBy_def time_is_zero_def Let_def Leaf_def
      buildPredicate.simps buildLeaf_def supportsDim_def statement_def reading_text_def reading_column_def window_conj_def)
  done

lemma compile_reading:
  assumes "lookupDomain reg ''reading'' = Some registerReading" "owner \<noteq> []"
    and "gp_axis p \<in> insert [] (set validReadingAxes)" "gp_window p \<in> set validTimeWindows"
    and "in_calendar now" "0 \<le> now \<or> gp_window p = ''day''"
  shows "Compile reg clock owner (reading_query now p) = Inr (reading_text (gp_axis p), reading_args owner now p)"
  unfolding reading_query_base [OF assms(4)] reading_args_def
  using window_start [OF assms(5,6,4)] assms(1-3)
  by (subst compile_base) (auto simp: validReadingAxes_def endExclusive_midnight)

section \<open>Leaves\<close>

text \<open>What the development assumes of the stored data: no negative duration, and an answer to every reading statement.\<close>

definition sane :: "'r goal_tables \<Rightarrow> bool" where
  "sane t \<longleftrightarrow> (\<forall>r\<in>set (gt_rollup t). 0 \<le> ru_seconds r) \<and>
     (\<forall>sql args. \<exists>v\<ge>0. db_scalar (gt_query t) sql args = Inr v)"

definition answers :: "(bool \<times> float64) ev \<Rightarrow> bool \<Rightarrow> bool" where
  "answers r b \<longleftrightarrow> (\<exists>pr. fst r = Inr (b, pr))"

lemma compareOp_holds:
  "op \<in> set validOps \<Longrightarrow> 0 \<le> cur \<Longrightarrow> 0 \<le> tgt \<Longrightarrow> fst (compareOp op cur tgt) = op_holds op cur tgt"
  by (auto simp: compareOp_def op_holds_def validOps_def)

lemma answers_compared:
  assumes "gp_op p \<in> set validOps" "0 \<le> cur" "0 \<le> tgt"
  shows "answers (leaf_result (compared p k src ax v cur tgt) tr) (op_holds (gp_op p) cur tgt)"
  using compareOp_holds [OF assms] by (auto simp: answers_def leaf_result_def compared_def split: prod.split)

lemma coding_time_nonneg: "sane t \<Longrightarrow> 0 \<le> coding_time t owner now p"
  unfolding coding_time_def by (rule sum_list_nonneg_int) (simp add: sane_def)

lemma answers_coding:
  assumes "sane t" "check_time p = None" "gp_source p \<noteq> ''reading''"
  shows "answers (evalTime (db_of t) reg clock owner now p) (op_holds (gp_op p) (coding_time t owner now p) (gp_target p))"
proof -
  have v: "gp_window p \<in> set validTimeWindows" "gp_op p \<in> set validOps" "0 \<le> gp_target p"
      "aget validHeartbeatAxes (gp_axis p) = Some (gp_axis p)"
    using assms(2,3) by (auto simp: check_time_def check_def first_error_None split: if_splits dest: valid_axis)
  note c = answers_compared [OF v(2) coding_time_nonneg [OF assms(1)] v(3)]
  have s: "gp_value p = None \<Longrightarrow>
      sum_rollup (gt_rollup t) owner None (first_day now (gp_window p)) (midnight now) = coding_time t owner now p"
    "gp_value p = Some a \<Longrightarrow>
      sum_rollup (gt_rollup t) owner (Some (gp_axis p, sourcesFor (LoadRenameSets (gt_rules t) owner) (gp_axis p) a))
        (first_day now (gp_window p)) (midnight now) = coding_time t owner now p" for a
    by (rule sum_rollup_time [OF v(1)]; simp)+
  show ?thesis
    using c assms(3) v(4)
    by (cases "gp_value p") (simp_all add: evalTime_def windowRange_days [OF v(1)] db_of_def s Let_def)
qed

lemma answers_reading:
  assumes "sane t" "check_time p = None" "gp_source p = ''reading''" "owner \<noteq> []"
    and "lookupDomain reg ''reading'' = Some registerReading" "in_calendar now" "0 \<le> now \<or> gp_window p = ''day''"
  shows "answers (evalTime (db_of t) reg clock owner now p) (op_holds (gp_op p) (reading_time t owner now p) (gp_target p))"
proof -
  have v: "gp_window p \<in> set validTimeWindows" "gp_op p \<in> set validOps" "0 \<le> gp_target p"
      "gp_axis p \<in> insert [] (set validReadingAxes)" "\<not> (gp_axis p \<noteq> [] \<and> gp_value p = None)"
    using assms(2,3) by (auto simp: check_time_def check_def first_error_None split: if_splits option.splits)
  obtain x where x: "0 \<le> x" "db_scalar (gt_query t) (render (reading_text (gp_axis p))) (reading_args owner now p) = Inr x"
    using assms(1) unfolding sane_def by blast
  have q: "\<not> q_rowsMode (reading_query now p)" "q_group (reading_query now p) = []" "q_gran (reading_query now p) = ''none''"
    by (simp_all add: reading_query_def builder_defs Q_def split: prod.split)
  have run: "Run (gt_query t) reg clock owner (reading_query now p) = Inr (ResultScalar x)"
    unfolding Run_def using compile_reading [OF assms(5,4) v(4,1) assms(6,7)] x q by simp
  have "0 \<le> reading_time t owner now p"
    using x by (simp add: reading_time_def)
  from answers_compared [OF v(2) this v(3)] show ?thesis
    using run x v(5) assms(3)
    by (auto simp: evalTime_def evalTimeReading_def Let_def db_of_def result_scalar_def truncate_scalar_def reading_time_def)
qed

section \<open>Groups and streaks\<close>

lemma answers_all:
  "(\<And>q. q \<in> set ps \<Longrightarrow> answers (f q) (g q)) \<Longrightarrow> answers (all_loop f ps hit prog) (hit \<and> (\<forall>q\<in>set ps. g q))"
proof (induction ps arbitrary: hit prog)
  case (Cons p ps)
  obtain pr subs tr where fp: "f p = (Inr (g p, pr), subs, tr)"
    using Cons.prems [of p] by (cases "f p") (auto simp: answers_def)
  show ?case
    using Cons.IH [of "hit \<and> g p" "if pr < prog then pr else prog"] Cons.prems fp
    by (auto simp: answers_def split: prod.split)
qed (simp add: answers_def)

lemma answers_any:
  "(\<And>q. q \<in> set ps \<Longrightarrow> answers (f q) (g q)) \<Longrightarrow> answers (any_loop f ps hit prog) (hit \<or> (\<exists>q\<in>set ps. g q))"
proof (induction ps arbitrary: hit prog)
  case (Cons p ps)
  obtain pr subs tr where fp: "f p = (Inr (g p, pr), subs, tr)"
    using Cons.prems [of p] by (cases "f p") (auto simp: answers_def)
  show ?case
    using Cons.IH [of "hit \<or> g p" "if pr > prog then pr else prog"] Cons.prems fp
    by (auto simp: answers_def split: prod.split)
qed (simp add: answers_def)

lemma answers_not: "answers (f q) (g q) \<Longrightarrow> answers (evalNot f [q]) (\<not> g q)"
  by (cases "f q") (auto simp: answers_def evalNot_def)

lemma streak_days_run:
  "(\<And>j. j < m \<Longrightarrow> answers (day (i + j)) (g (i + j))) \<Longrightarrow>
   \<exists>k tr. streak_days day m i hits = (Inr (hits + int k), tr) \<and> k \<le> m \<and> (\<forall>j<k. g (i + j)) \<and> (k < m \<longrightarrow> \<not> g (i + k))"
proof (induction m arbitrary: i hits)
  case (Suc m)
  obtain pr subs tr where d: "day i = (Inr (g i, pr), subs, tr)"
    using Suc.prems [of 0] by (cases "day i") (auto simp: answers_def)
  show ?case
  proof (cases "g i")
    case True
    have "answers (day (Suc i + j)) (g (Suc i + j))" if "j < m" for j
      using Suc.prems [of "Suc j"] that by simp
    from Suc.IH [of "Suc i" "hits + 1", OF this] obtain k tr' where
      k: "streak_days day m (Suc i) (hits + 1) = (Inr (hits + 1 + int k), tr')" "k \<le> m" "\<forall>j<k. g (Suc i + j)"
        "k < m \<longrightarrow> \<not> g (Suc i + k)"
      by blast
    have "\<forall>j<Suc k. g (i + j)"
      using k(3) True by (auto simp: less_Suc_eq_0_disj)
    then show ?thesis
      using d k True by (intro exI [of _ "Suc k"]) auto
  qed (use d in \<open>simp add: exI [of _ 0]\<close>)
qed simp

lemma answers_streak:
  assumes "\<And>i. i < nat md \<Longrightarrow> answers (day i) (g i)"
  shows "answers (evalStreak day md) (\<forall>i<nat md. g i)"
proof (cases "md \<le> 0")
  case False
  obtain k tr where k: "streak_days day (nat md) 0 0 = (Inr (int k), tr)" "k \<le> nat md" "\<forall>j<k. g j" "k < nat md \<longrightarrow> \<not> g k"
    using streak_days_run [of "nat md" day 0 g 0] assms by auto
  have "int k \<ge> md \<longleftrightarrow> (\<forall>i<nat md. g i)"
    using k(2-4) False by (cases "k < nat md") auto
  then show ?thesis
    using False k(1) by (simp add: evalStreak_def answers_def leaf_result_def streak_sub_def compareOp_def)
qed (simp add: evalStreak_def answers_def leaf_result_def streak_sub_def)

section \<open>Valid specs\<close>

lemma goal_parts:
  assumes "validateNode p d = None"
  shows "d \<le> MaxPredicateDepth"
    and "gp_kind p = ''time'' \<Longrightarrow> check_time p = None"
    and "gp_kind p = ''active_days'' \<Longrightarrow> gp_window p \<in> set validActiveDaysWindows \<and> gp_op p \<in> set validOps \<and> 0 \<le> gp_n p"
    and "gp_kind p = ''streak'' \<Longrightarrow> 0 \<le> gp_minDays p \<and> gp_minDays p \<le> MaxStreakDays \<and>
       (\<exists>c. gp_condition p = Some c \<and> validateNode c (d + 1) = None)"
    and "gp_kind p = ''all'' \<or> gp_kind p = ''any'' \<Longrightarrow> q \<in> set (gp_of p) \<Longrightarrow> validateNode q (d + 1) = None"
    and "gp_kind p = ''not'' \<Longrightarrow> \<exists>q. gp_of p = [q] \<and> validateNode q (d + 1) = None"
    and "gp_kind p \<in> {''time'', ''active_days'', ''streak'', ''all'', ''any'', ''not''}"
proof -
  obtain k src ax v op tgt w c md n ps where p: "p = GoalPred k src ax v op tgt w c md n ps" by (cases p)
  note v = assms [unfolded p, simplified]
  show "d \<le> MaxPredicateDepth" using v by (simp split: if_splits)
  show "gp_kind p = ''time'' \<Longrightarrow> check_time p = None" using v by (simp add: p split: if_splits)
  show "gp_kind p = ''active_days'' \<Longrightarrow> gp_window p \<in> set validActiveDaysWindows \<and> gp_op p \<in> set validOps \<and> 0 \<le> gp_n p"
    using v by (simp add: p first_error_None check_def split: if_splits)
  show "gp_kind p = ''streak'' \<Longrightarrow> 0 \<le> gp_minDays p \<and> gp_minDays p \<le> MaxStreakDays \<and>
       (\<exists>c. gp_condition p = Some c \<and> validateNode c (d + 1) = None)"
    using v by (simp add: p split: if_splits option.splits)
  show "gp_kind p = ''all'' \<or> gp_kind p = ''any'' \<Longrightarrow> q \<in> set (gp_of p) \<Longrightarrow> validateNode q (d + 1) = None"
    using v by (auto simp: p first_error_None list_all_iff split: if_splits)
  show "gp_kind p = ''not'' \<Longrightarrow> \<exists>q. gp_of p = [q] \<and> validateNode q (d + 1) = None"
    using v by (simp add: p split: if_splits list.splits)
  show "gp_kind p \<in> {''time'', ''active_days'', ''streak'', ''all'', ''any'', ''not''}"
    using v by (auto simp: p split: if_splits)
qed

lemma check_time_day:
  "check_time (GoalPred k src ax v op tgt w c md n ps) = None \<Longrightarrow>
   check_time (GoalPred k src ax v op tgt ''day'' c md n ps) = None"
  unfolding check_time_def first_error_None list.pred_inject goal_pred.sel
  by (elim conjE) (intro conjI; (assumption | simp add: check_def validTimeWindows_def))

lemma validate_rewrite: "validateNode p d = None \<Longrightarrow> validateNode (rewriteWindowToDay p) d = None"
proof (induction p d rule: validateNode.induct)
  case (1 k src ax v op tgt w c md n ps depth)
  let ?p = "GoalPred k src ax v op tgt w c md n ps"
  note parts = goal_parts [OF 1(4)]
  have d: "\<not> depth > MaxPredicateDepth" using parts(1) by simp
  show ?case
  proof (cases rule: kind_cases [of ?p])
    case a: 1
    have "check_time (GoalPred k src ax v op tgt ''day'' c md n ps) = None"
      using parts(2) a by (intro check_time_day) simp
    then show ?thesis using a d by simp
  next
    case a: 2
    then show ?thesis
      using parts(3) d by (simp add: first_error_None check_def validActiveDaysWindows_def)
  next
    case a: 3
    then show ?thesis using 1(4) by simp
  next
    case a: 4
    then have "validateNode (rewriteWindowToDay q) (depth + 1) = None" if "q \<in> set ps" for q
      using 1(2) d that parts(5) [of q] by force
    moreover have "ps \<noteq> []" using a d 1(4) by auto
    ultimately show ?thesis using a d by (simp add: first_error_None list_all_iff)
  next
    case a: 5
    then have "validateNode (rewriteWindowToDay q) (depth + 1) = None" if "q \<in> set ps" for q
      using 1(2) d that parts(5) [of q] by force
    moreover have "ps \<noteq> []" using a d 1(4) by auto
    ultimately show ?thesis using a d by (simp add: first_error_None list_all_iff)
  next
    case a: 6
    then obtain q where q: "ps = [q]" "validateNode q (depth + 1) = None"
      using parts(6) by auto
    then have "validateNode (rewriteWindowToDay q) (depth + 1) = None"
      using 1(3) a d by simp
    then show ?thesis using a d q by simp
  next
    case 7
    with parts(7) show ?thesis by blast
  qed
qed

fun daily :: "goal_pred \<Rightarrow> bool" where
  "daily (GoalPred k src ax v op tgt w c md n ps) \<longleftrightarrow>
     (if k = ''time'' then w = ''day'' else if k = ''all'' \<or> k = ''any'' \<or> k = ''not'' then list_all daily ps else True)"

lemma daily_parts:
  "daily p \<Longrightarrow> gp_kind p = ''time'' \<Longrightarrow> gp_window p = ''day''"
  "daily p \<Longrightarrow> gp_kind p \<in> {''all'', ''any'', ''not''} \<Longrightarrow> q \<in> set (gp_of p) \<Longrightarrow> daily q"
  by (cases p; auto simp: list_all_iff)+

lemma daily_rewrite: "validateNode p d = None \<Longrightarrow> daily (rewriteWindowToDay p)"
proof (induction p d rule: validateNode.induct)
  case (1 k src ax v op tgt w c md n ps depth)
  let ?p = "GoalPred k src ax v op tgt w c md n ps"
  note parts = goal_parts [OF 1(4)]
  have d: "\<not> depth > MaxPredicateDepth" using parts(1) by simp
  show ?case
  proof (cases rule: kind_cases [of ?p])
    case a: 4
    then have "daily (rewriteWindowToDay q)" if "q \<in> set ps" for q
      using 1(2) d that parts(5) [of q] by force
    then show ?thesis using a by (simp add: list_all_iff)
  next
    case a: 5
    then have "daily (rewriteWindowToDay q)" if "q \<in> set ps" for q
      using 1(2) d that parts(5) [of q] by force
    then show ?thesis using a by (simp add: list_all_iff)
  next
    case a: 6
    then obtain q where q: "ps = [q]" "validateNode q (depth + 1) = None"
      using parts(6) by auto
    then have "daily (rewriteWindowToDay q)" using 1(3) a d by simp
    then show ?thesis using a q by simp
  next
    case 7
    with parts(7) show ?thesis by blast
  qed simp_all
qed

section \<open>The refinement\<close>

text \<open>
  The clock of a node at a depth: a streak goes back at most 364 days per level, and before 1970
  every window outside a streak is a day.
\<close>

definition look_back :: "nat \<Rightarrow> duration" where
  "look_back d = int (364 * d) * day_ns"

definition clock_ok :: "nat \<Rightarrow> gotime \<Rightarrow> goal_pred \<Rightarrow> bool" where
  "clock_ok d now p \<longleftrightarrow> 0 \<le> now + look_back d \<and> (0 \<le> now \<or> daily p)"

lemma back_Suc: "look_back (d + 1) = look_back d + 364 * day_ns"
  by (simp add: look_back_def algebra_simps)

lemma back_bound: "d \<le> MaxPredicateDepth \<Longrightarrow> look_back d \<le> 2000 * day_ns"
  unfolding look_back_def by (intro mult_right_mono) (simp_all add: MaxPredicateDepth_def less_imp_le)

lemma clock_in_calendar: "clock_ok d now p \<Longrightarrow> d \<le> MaxPredicateDepth \<Longrightarrow> in_calendar now"
  using back_bound [of d] by (simp add: in_calendar_def clock_ok_def)

lemma clock_child:
  assumes "clock_ok d now p" "gp_kind p \<in> {''all'', ''any'', ''not''}" "q \<in> set (gp_of p)"
  shows "clock_ok (d + 1) now q"
proof -
  have "look_back d \<le> look_back (d + 1)" using less_imp_le [OF day_ns_pos] unfolding back_Suc by simp
  then show ?thesis
    using assms(1) daily_parts(2) [OF _ assms(2,3)] unfolding clock_ok_def by linarith
qed

lemma clock_streak:
  assumes "clock_ok d now p" "i < 365" "validateNode c e = None"
  shows "clock_ok (d + 1) (AddDate now 0 0 (- int i)) (rewriteWindowToDay c)"
proof -
  have "int i * day_ns \<le> 364 * day_ns"
    using assms(2) by (intro mult_right_mono) (simp_all add: less_imp_le)
  then have "0 \<le> now + - int i * day_ns + look_back (d + 1)"
    using assms(1) unfolding clock_ok_def back_Suc by linarith
  then show ?thesis
    using daily_rewrite [OF assms(3)] by (simp add: clock_ok_def AddDate_days)
qed

lemma walk_sat:
  "db = db_of t \<Longrightarrow> sane t \<Longrightarrow> owner \<noteq> [] \<Longrightarrow> lookupDomain reg ''reading'' = Some registerReading \<Longrightarrow>
   validateNode p d = None \<Longrightarrow> clock_ok d now p \<Longrightarrow>
   answers (walk db reg clock owner now p) (sat t owner now p)"
proof (induction db reg clock owner now p arbitrary: d rule: walk.induct)
  case (1 db reg clock owner now p)
  note ctx = 1(5-8) and parts = goal_parts [OF 1(9)]
  have cal: "in_calendar now"
    using clock_in_calendar [OF 1(10) parts(1)] .
  have child: "answers (walk db reg clock owner now q) (sat t owner now q)"
    if k: "gp_kind p = ''all'' \<or> gp_kind p = ''any'' \<or> gp_kind p = ''not''"
      and q: "q \<in> set (gp_of p)" "validateNode q (d + 1) = None" for q
  proof -
    have "clock_ok (d + 1) now q"
      using clock_child [OF 1(10) _ q(1)] k by auto
    then show ?thesis using 1(2-4) ctx k q by (elim disjE) auto
  qed
  show ?case
  proof (cases rule: kind_cases [of p])
    case k: 1
    have "0 \<le> now \<or> gp_window p = ''day''"
      using 1(10) daily_parts(1) k by (auto simp: clock_ok_def)
    then show ?thesis
      using answers_coding [OF ctx(2) parts(2) [OF k]] answers_reading [OF ctx(2) parts(2) [OF k] _ ctx(3,4) cal]
      by (simp add: walk_kind(1) [OF k] sat_time [OF k] time_spent_def ctx(1))
  next
    case k: 2
    have "gp_window p \<in> set validTimeWindows"
      using parts(3) [OF k] by (auto simp: validActiveDaysWindows_def validTimeWindows_def)
    then show ?thesis
      using parts(3) [OF k]
      by (simp add: walk_kind(2) [OF k] sat_days [OF k] ctx(1) evalActiveDays_def windowRange_days db_of_def
          active_days_card answers_compared days_active_def)
  next
    case k: 3
    obtain c where c: "gp_condition p = Some c" "validateNode c (d + 1) = None" "gp_minDays p \<le> 365"
      using parts(4) [OF k] by (auto simp: MaxStreakDays_def)
    have "answers (walk db reg clock owner (AddDate now 0 0 (- int i)) (rewriteWindowToDay c))
        (sat t owner (AddDate now 0 0 (- int i)) (rewriteWindowToDay c))" if "i < nat (gp_minDays p)" for i
    proof -
      have "i < 365" using c(3) that by linarith
      from clock_streak [OF 1(10) this c(2)] validate_rewrite [OF c(2)] show ?thesis
        using 1(1) k c(1) ctx by auto
    qed
    from answers_streak [OF this] show ?thesis
      by (simp add: walk_kind(3) [OF k] c(1) sat_streak [OF k c(1)] AddDate_days)
  next
    case k: 4
    have "answers (all_loop (walk db reg clock owner now) (gp_of p) True 1) (True \<and> (\<forall>q\<in>set (gp_of p). sat t owner now q))"
      by (rule answers_all) (use child parts(5) k in blast)
    then show ?thesis by (simp add: walk_kind(4) [OF k] sat_all [OF k])
  next
    case k: 5
    have "answers (any_loop (walk db reg clock owner now) (gp_of p) False 0) (False \<or> (\<exists>q\<in>set (gp_of p). sat t owner now q))"
      by (rule answers_any) (use child parts(5) k in blast)
    then show ?thesis by (simp add: walk_kind(5) [OF k] sat_any [OF k])
  next
    case k: 6
    obtain q where q: "gp_of p = [q]" "validateNode q (d + 1) = None"
      using parts(6) [OF k] by blast
    then show ?thesis
      using answers_not [of "walk db reg clock owner now" q "sat t owner now"] child [of q] k
      by (simp add: walk_kind(6) [OF k] sat_not [OF k])
  next
    case 7
    with parts(7) show ?thesis by blast
  qed
qed

text \<open>
  C17 Evaluating a spec the validator accepted never fails on a database that answers, and the hit it
  reports is what the spec asks for: every leaf compares the total over exactly the days of its
  window and the rows that show the value, renames applied; a streak holds when its condition holds
  on each of the last \<open>min_days\<close> days; and the groups are conjunction, disjunction and negation.
\<close>

theorem goal_hit_is_meaning:
  assumes "ValidateSpec raw = Inr p" "sane t" "owner \<noteq> []" "0 \<le> now"
    and "lookupDomain reg ''reading'' = Some registerReading"
  shows "\<exists>pg. Evaluate (db_of t) reg clock owner p now = Inr pg \<and> (pg_hit pg \<longleftrightarrow> sat t owner now p)"
proof -
  have "validateNode p 1 = None"
    using assms(1) by (auto simp: ValidateSpec_def split: option.splits)
  moreover have "clock_ok 1 now p"
    using assms(4) less_imp_le [OF day_ns_pos] by (simp add: clock_ok_def look_back_def)
  ultimately have "answers (walk (db_of t) reg clock owner now p) (sat t owner now p)"
    using walk_sat [OF refl assms(2,3,5)] by blast
  then show ?thesis
    using assms(3) by (auto simp: answers_def Evaluate_def split: prod.split)
qed

text \<open>A two-day streak of half an hour on a project that a rule renames.\<close>

definition demo_spec :: json where
  "demo_spec = JObj [(''kind'', JStr ''streak''), (''min_days'', JInt 2),
     (''condition'', JObj [(''kind'', JStr ''time''), (''axis'', JStr ''project''), (''value'', JStr ''boom''),
        (''op'', JStr ''>=''), (''target_seconds'', JInt 1800), (''window'', JStr ''week'')])]"

definition demo_row :: "int \<Rightarrow> string \<Rightarrow> rollup_row" where
  "demo_row d project = \<lparr>ru_sender = ''ann'', ru_day = d * day_ns, ru_col = \<lambda>c. if c = ''project'' then Some project else None,
     ru_seconds = 1800\<rparr>"

definition demo_tables :: "unit goal_tables" where
  "demo_tables = \<lparr>gt_rollup = [demo_row 9 ''Boom'', demo_row 10 ''boom-v2''],
     gt_rules = [\<lparr>rr_sender = ''ann'', rr_axis = ''project'', rr_action = ''rename'', rr_match_type = ''exact'',
        rr_match = ''Boom-V2'', rr_new_value = Some ''boom'', rr_enabled = True, rr_at_ingest = False\<rparr>],
     gt_query = gd_query demo_db\<rparr>"

definition demo_pred :: goal_pred where
  "demo_pred = GoalPred ''streak'' [] [] None [] 0 []
     (Some (GoalPred ''time'' [] ''project'' (Some ''boom'') ''>='' 1800 ''week'' None 0 0 [])) 2 0 []"

lemma demo_spec_valid: "ValidateSpec (Some demo_spec) = Inr demo_pred"
  by code_simp

lemma demo_sane: "sane demo_tables"
  by (simp add: sane_def demo_tables_def demo_row_def demo_db_def)

lemma demo_sat: "sat demo_tables ''ann'' (10 * day_ns) demo_pred"
proof -
  have m: "midnight (k * day_ns) = k * day_ns" for k
    unfolding midnight_def day_no_mult ..
  have two: "(\<forall>i<2. P i) \<longleftrightarrow> P 0 \<and> P 1" for P :: "nat \<Rightarrow> bool"
    by (metis One_nat_def less_2_cases pos2 lessI numeral_2_eq_2)
  have lower: "to_lower ''Boom'' = ''boom''" "to_lower ''boom'' = ''boom''" "to_lower ''boom-v2'' = ''boom-v2''"
      "to_lower ''Boom-V2'' = ''boom-v2''"
    by code_simp+
  have "sat demo_tables ''ann'' (k * day_ns) (rewriteWindowToDay (the (gp_condition demo_pred)))" if "k = 9 \<or> k = 10" for k
    using that day_ns_pos m [of k] lower
    by (auto simp: demo_pred_def sat_time op_holds_def time_spent_def coding_time_def demo_tables_def
        demo_row_def in_window_def first_day_def window_days_def row_counts_def counts_for_def renamed_to_def in_force_def)
  from this [of 10] this [of 9] show ?thesis
    using sat_streak [of demo_pred "the (gp_condition demo_pred)" demo_tables "''ann''" "10 * day_ns"]
    by (simp add: demo_pred_def two del: rewriteWindowToDay.simps)
qed

theorem goal_hit_is_meaning_witness:
  "\<exists>pg. Evaluate (db_of demo_tables) [(''reading'', registerReading)] 0 ''ann'' demo_pred (10 * day_ns) = Inr pg \<and> pg_hit pg"
proof -
  have "lookupDomain [(''reading'', registerReading)] ''reading'' = Some registerReading"
    by (simp add: lookupDomain_def)
  from goal_hit_is_meaning [OF demo_spec_valid demo_sane _ _ this, of "''ann''" "10 * day_ns" 0] show ?thesis
    using demo_sat less_imp_le [OF day_ns_pos] by auto
qed

text \<open>
  The values of a goal are folded on the raw side only: a goal on \<open>boom\<close> counts the rows renamed to
  \<open>boom\<close>, one on \<open>Boom\<close> does not, although it counts the same raw rows of that name.
\<close>

lemma rename_target_not_folded:
  "counts_for (gt_rules demo_tables) ''ann'' ''project'' ''boom'' ''boom-v2''"
  "\<not> counts_for (gt_rules demo_tables) ''ann'' ''project'' ''Boom'' ''boom-v2''"
  "counts_for (gt_rules demo_tables) ''ann'' ''project'' ''Boom'' ''boom''"
  by code_simp+

end
