(* ===== verification/AccountModel.thy ===== *)
theory AccountModel
  imports GoJson
begin

text \<open>
  Identities and credentials (\<open>internal/shared/auth\<close>): capabilities and roles, the effective identity,
  the username and password policies, the stored password and the two request headers. SHA-256,
  base64, argon2id, the encryption of stored secrets, UTF-8 decoding and the Unicode tables are
  library code and a parameter.
\<close>

record crypto =
  cr_sha :: "string \<Rightarrow> string"
  cr_base64 :: "string \<Rightarrow> string"
  cr_argon :: "nat \<times> nat \<times> nat \<Rightarrow> string \<Rightarrow> string \<Rightarrow> string"
  cr_encrypt :: "string \<Rightarrow> string option"
  cr_decrypt :: "string \<Rightarrow> string option"
  cr_runes :: "string \<Rightarrow> nat list"
  cr_letter :: "nat \<Rightarrow> bool"
  cr_digit :: "nat \<Rightarrow> bool"

section \<open>Roles and capabilities\<close>

definition AllRoles :: "string list" where
  "AllRoles = [''full'', ''light'', ''service'', ''admin'']"

definition ValidRole :: "string \<Rightarrow> bool" where
  "ValidRole r \<longleftrightarrow> r \<in> set AllRoles"

definition AllCapabilities :: "string list" where
  "AllCapabilities = [''read_dashboards'', ''curate'', ''ingest_heartbeats'', ''import'', ''backup'',
     ''generate_rollups'', ''admin'']"

definition KnownCapability :: "string \<Rightarrow> bool" where
  "KnownCapability c \<longleftrightarrow> c \<in> set AllCapabilities"

definition rolePriority :: "string \<Rightarrow> int" where
  "rolePriority r = (if r = ''admin'' then 3 else if r = ''full'' then 2 else if r = ''service'' then 1 else 0)"

fun best_role :: "(string \<Rightarrow> string option) \<Rightarrow> string list \<Rightarrow> string \<Rightarrow> int \<Rightarrow> string" where
  "best_role groupToRole [] best bestPriority = best"
| "best_role groupToRole (g # gs) best bestPriority =
     (case groupToRole g of
        None \<Rightarrow> best_role groupToRole gs best bestPriority
      | Some r \<Rightarrow>
          if ValidRole r \<and> rolePriority r > bestPriority then best_role groupToRole gs r (rolePriority r)
          else best_role groupToRole gs best bestPriority)"

definition RoleFromGroups :: "string list \<Rightarrow> (string \<Rightarrow> string option) \<Rightarrow> string" where
  "RoleFromGroups groups groupToRole = best_role groupToRole groups ''light'' (- 1)"

text \<open>The grants of a role, as the capabilities that are true.\<close>

definition roleDefaults :: "string \<Rightarrow> (string \<Rightarrow> bool) option" where
  "roleDefaults r =
     (if r = ''full'' then Some (\<lambda>c. c \<in> set [''read_dashboards'', ''curate'', ''ingest_heartbeats'', ''import'',
           ''backup'', ''generate_rollups''])
      else if r = ''admin'' then Some (\<lambda>c. c \<in> set AllCapabilities)
      else if r = ''light'' then Some (\<lambda>c. c \<in> set [''read_dashboards'', ''curate''])
      else if r = ''service'' then Some (\<lambda>c. c = ''ingest_heartbeats'')
      else None)"

definition defaultsForRole :: "string \<Rightarrow> string \<times> (string \<Rightarrow> bool)" where
  "defaultsForRole r =
     (case roleDefaults r of Some d \<Rightarrow> (r, d) | None \<Rightarrow> (''light'', the (roleDefaults ''light'')))"

record identity =
  id_name :: string
  id_role :: string
  id_disabled :: bool
  id_caps :: "string \<Rightarrow> bool"

definition Can :: "identity \<Rightarrow> string \<Rightarrow> bool" where
  "Can i c \<longleftrightarrow> \<not> id_disabled i \<and> id_caps i c"

definition AllCapsIdentity :: "string \<Rightarrow> identity" where
  "AllCapsIdentity name = \<lparr>id_name = name, id_role = ''full'', id_disabled = False, id_caps = KnownCapability\<rparr>"

text \<open>The override blob decodes into a map, where the last entry of a key counts.\<close>

fun override_map :: "json option \<Rightarrow> (string \<times> json) list" where
  "override_map (Some (JObj kvs)) = rev kvs"
| "override_map _ = []"

definition override :: "json option \<Rightarrow> string \<Rightarrow> bool option" where
  "override blob c =
     (if KnownCapability c then (case aget (override_map blob) c of Some (JBool b) \<Rightarrow> Some b | _ \<Rightarrow> None) else None)"

definition BuildIdentity :: "string \<Rightarrow> string \<Rightarrow> json option \<Rightarrow> bool \<Rightarrow> identity" where
  "BuildIdentity name role blob disabled =
     (case defaultsForRole role of
        (r, eff) \<Rightarrow> \<lparr>id_name = name, id_role = r, id_disabled = disabled,
          id_caps = (\<lambda>c. case override blob c of Some b \<Rightarrow> b | None \<Rightarrow> eff c)\<rparr>)"

section \<open>Policies\<close>

definition MaxUsernameLen :: nat where
  "MaxUsernameLen = 64"

definition code :: "char \<Rightarrow> nat" where
  "code c = of_char c"

definition name_char :: "char \<Rightarrow> bool" where
  "name_char c \<longleftrightarrow> (97 \<le> code c \<and> code c \<le> 122) \<or> (65 \<le> code c \<and> code c \<le> 90) \<or> (48 \<le> code c \<and> code c \<le> 57) \<or>
     c = CHR ''.'' \<or> c = CHR ''_'' \<or> c = CHR ''-''"

datatype name_error = NameEmpty | NameTooLong | NameBadChar | NameBadStart char | NameBadEnd char

definition ValidateUsername :: "string \<Rightarrow> name_error option" where
  "ValidateUsername name =
     (if name = [] then Some NameEmpty
      else if length name > MaxUsernameLen then Some NameTooLong
      else if \<not> list_all name_char name then Some NameBadChar
      else if hd name = CHR ''.'' \<or> hd name = CHR ''-'' then Some (NameBadStart (hd name))
      else if last name = CHR ''.'' \<or> last name = CHR ''-'' then Some (NameBadEnd (last name))
      else None)"

text \<open>
  The password policy counts runes and asks \<open>unicode.IsLetter\<close> and \<open>unicode.IsDigit\<close>; a password is
  the list of its runes here, and the two character classes are arguments.
\<close>

definition MinPasswordLen :: nat where
  "MinPasswordLen = 8"

datatype password_error = TooShort | NoLetter | NoDigit

fun scan_classes :: "('r \<Rightarrow> bool) \<Rightarrow> ('r \<Rightarrow> bool) \<Rightarrow> 'r list \<Rightarrow> bool \<Rightarrow> bool \<Rightarrow> password_error option" where
  "scan_classes isLetter isDigit [] hasLetter hasDigit = (if \<not> hasLetter then Some NoLetter else Some NoDigit)"
| "scan_classes isLetter isDigit (r # rs) hasLetter hasDigit =
     (let l = hasLetter \<or> isLetter r; d = hasDigit \<or> (\<not> isLetter r \<and> isDigit r)
      in if l \<and> d then None else scan_classes isLetter isDigit rs l d)"

definition ValidatePassword :: "('r \<Rightarrow> bool) \<Rightarrow> ('r \<Rightarrow> bool) \<Rightarrow> 'r list \<Rightarrow> password_error option" where
  "ValidatePassword isLetter isDigit pw =
     (if length pw < MinPasswordLen then Some TooShort else scan_classes isLetter isDigit pw False False)"

section \<open>The stored password\<close>

definition argonParamsFor :: "int \<Rightarrow> nat \<times> nat \<times> nat" where
  "argonParamsFor version = (if version = 1 then (1, 64 * 1024, 4) else (2, 64 * 1024, 1))"

definition argonLiveVersions :: "int list" where
  "argonLiveVersions = [1, 2]"

definition normalizeArgonVersion :: "int \<Rightarrow> int" where
  "normalizeArgonVersion version = (if version \<in> set argonLiveVersions then version else 2)"

text \<open>
  The answer and the parameters of the derivations that were run: an observer can time those. A
  verification runs every live generation and compares the one the row was written under; the
  burn for an unknown user runs the same list.
\<close>

type_synonym derivation = "nat \<times> nat \<times> nat"

fun verify_loop :: "crypto \<Rightarrow> string \<Rightarrow> string \<Rightarrow> string \<Rightarrow> int \<Rightarrow> int list \<Rightarrow> bool \<Rightarrow> bool \<times> derivation list" where
  "verify_loop cr pw storedHash salt want [] matched = (matched, [])"
| "verify_loop cr pw storedHash salt want (v # vs) matched =
     (let computed = cr_argon cr (argonParamsFor v) pw salt;
          m = (matched \<or> (v = want \<and> storedHash \<noteq> [] \<and> computed = storedHash));
          (r, ds) = verify_loop cr pw storedHash salt want vs m
      in (r, argonParamsFor v # ds))"

definition VerifyPasswordWithVersion :: "crypto \<Rightarrow> string \<Rightarrow> string \<Rightarrow> string \<Rightarrow> int \<Rightarrow> bool \<times> derivation list" where
  "VerifyPasswordWithVersion cr pw storedHash salt version =
     verify_loop cr pw storedHash salt (normalizeArgonVersion version) argonLiveVersions False"

definition BurnSentinelVerify :: "derivation list" where
  "BurnSentinelVerify = map argonParamsFor argonLiveVersions"

definition HashPasswordWithVersion :: "crypto \<Rightarrow> string \<Rightarrow> string \<Rightarrow> int \<Rightarrow> string" where
  "HashPasswordWithVersion cr salt pw version = cr_argon cr (argonParamsFor version) pw salt"

section \<open>The request headers\<close>

fun cut_prefix :: "string \<Rightarrow> string \<Rightarrow> string option" where
  "cut_prefix [] s = Some s"
| "cut_prefix (p # ps) [] = None"
| "cut_prefix (p # ps) (c # cs) = (if p = c then cut_prefix ps cs else None)"

definition ParseAuthHeader :: "string \<Rightarrow> string option" where
  "ParseAuthHeader header = (if header = [] then None else map_option trim_space (cut_prefix ''Basic'' header))"

definition split_pair :: "char \<Rightarrow> string \<Rightarrow> (string \<times> string) option" where
  "split_pair sep s = (if sep \<in> set s then Some (takeWhile (\<lambda>c. c \<noteq> sep) s, tl (dropWhile (\<lambda>c. c \<noteq> sep) s)) else None)"

fun find_cookie :: "string list \<Rightarrow> string option" where
  "find_cookie [] = None"
| "find_cookie (part # ps) =
     (case split_pair (CHR ''='') (trim_space part) of
        Some (k, v) \<Rightarrow> if k = ''refresh_token'' then Some v else find_cookie ps
      | None \<Rightarrow> find_cookie ps)"

definition ParseRefreshCookie :: "string \<Rightarrow> string option" where
  "ParseRefreshCookie header = find_cookie (split_on (CHR '';'') header)"

text \<open>\<open>TokenFromHeader\<close>: an empty token counts as a missing header.\<close>

definition TokenFromHeader :: "string \<Rightarrow> string option" where
  "TokenFromHeader header = (case ParseAuthHeader header of None \<Rightarrow> None | Some t \<Rightarrow> if t = [] then None else Some t)"

end
