(* ===== verification/AccountStore.thy ===== *)
theory AccountStore
  imports AccountModel
begin

text \<open>
  The credential tables and their statements (\<open>internal/shared/db\<close>: auth.go, oidc.go, user_admin.go).
  A function is one statement or one transaction. The columns are those this code uses. A duplicate
  of a unique column (the username, the hash of a credential, a provider with a subject) is the
  error \<open>None\<close>. The clock of the process and of the database are one.
\<close>

record account =
  a_name :: string
  a_hash :: string
  a_salt :: string
  a_argon :: int
  a_role :: string
  a_caps :: "json option"
  a_disabled :: "gotime option"

record auth_token =
  t_hash :: string
  t_owner :: string
  t_expiry :: "gotime option"
  t_name :: "string option"
  t_usage :: "gotime option"

record refresh_token =
  r_hash :: string
  r_owner :: string
  r_expiry :: gotime

record oidc_session =
  s_hash :: string
  s_user :: string
  s_expiry :: gotime
  s_refresh :: "string option"

record ext_identity =
  x_user :: string
  x_provider :: string
  x_sub :: string
  x_email :: string
  x_created :: gotime
  x_seen :: gotime

record accounts =
  users :: "account list"
  tokens :: "auth_token list"
  refreshes :: "refresh_token list"
  sessions :: "oidc_session list"
  links :: "ext_identity list"

text \<open>\<open>UPDATE ... WHERE\<close>.\<close>

definition update_rows :: "('r \<Rightarrow> bool) \<Rightarrow> ('r \<Rightarrow> 'r) \<Rightarrow> 'r list \<Rightarrow> 'r list" where
  "update_rows P f rows = map (\<lambda>r. if P r then f r else r) rows"

definition delete_rows :: "('r \<Rightarrow> bool) \<Rightarrow> 'r list \<Rightarrow> 'r list" where
  "delete_rows P rows = filter (\<lambda>r. \<not> P r) rows"

section \<open>Users\<close>

definition GetUser :: "accounts \<Rightarrow> string \<Rightarrow> account option" where
  "GetUser s name = find (\<lambda>u. a_name u = name) (users s)"

definition InsertUser :: "accounts \<Rightarrow> account \<Rightarrow> accounts \<times> bool" where
  "InsertUser s u = (if GetUser s (a_name u) \<noteq> None then (s, False) else (s\<lparr>users := users s @ [u]\<rparr>, True))"

definition UpgradeArgonVersion :: "accounts \<Rightarrow> string \<Rightarrow> string \<Rightarrow> string \<Rightarrow> int \<Rightarrow> int \<Rightarrow> accounts" where
  "UpgradeArgonVersion s name h salt old new =
     s\<lparr>users := update_rows (\<lambda>u. a_name u = name \<and> a_argon u = old)
        (\<lambda>u. u\<lparr>a_hash := h, a_salt := salt, a_argon := new\<rparr>) (users s)\<rparr>"

definition SetUserRole :: "accounts \<Rightarrow> string \<Rightarrow> string \<Rightarrow> accounts \<times> bool" where
  "SetUserRole s name role =
     (s\<lparr>users := update_rows (\<lambda>u. a_name u = name) (\<lambda>u. u\<lparr>a_role := role\<rparr>) (users s)\<rparr>,
      list_ex (\<lambda>u. a_name u = name) (users s))"

text \<open>Disabling revokes every credential in the same transaction; an unknown name changes nothing.\<close>

definition SetUserDisabled :: "accounts \<Rightarrow> gotime \<Rightarrow> string \<Rightarrow> bool \<Rightarrow> accounts \<times> bool" where
  "SetUserDisabled s now name disable =
     (if \<not> disable
      then (s\<lparr>users := update_rows (\<lambda>u. a_name u = name) (\<lambda>u. u\<lparr>a_disabled := None\<rparr>) (users s)\<rparr>,
            list_ex (\<lambda>u. a_name u = name) (users s))
      else if \<not> list_ex (\<lambda>u. a_name u = name) (users s) then (s, False)
      else (s\<lparr>users := update_rows (\<lambda>u. a_name u = name) (\<lambda>u. u\<lparr>a_disabled := Some now\<rparr>) (users s),
              tokens := delete_rows (\<lambda>t. t_owner t = name) (tokens s),
              refreshes := delete_rows (\<lambda>r. r_owner r = name) (refreshes s),
              sessions := delete_rows (\<lambda>x. s_user x = name) (sessions s)\<rparr>, True))"

section \<open>Tokens\<close>

definition token_live :: "gotime \<Rightarrow> auth_token \<Rightarrow> bool" where
  "token_live now t \<longleftrightarrow> (case t_expiry t of None \<Rightarrow> True | Some e \<Rightarrow> e > now)"

text \<open>The lookup also stamps the last use.\<close>

definition GetUserByToken :: "crypto \<Rightarrow> accounts \<Rightarrow> gotime \<Rightarrow> string \<Rightarrow> accounts \<times> string option" where
  "GetUserByToken cr s now token =
     (case find (\<lambda>t. t_hash t = cr_sha cr token \<and> token_live now t) (tokens s) of
        None \<Rightarrow> (s, None)
      | Some t \<Rightarrow>
          (s\<lparr>tokens := update_rows (\<lambda>t. t_hash t = cr_sha cr token) (\<lambda>t. t\<lparr>t_usage := Some now\<rparr>) (tokens s)\<rparr>,
           Some (t_owner t)))"

definition GetUserByRefreshToken :: "crypto \<Rightarrow> accounts \<Rightarrow> gotime \<Rightarrow> string \<Rightarrow> string option" where
  "GetUserByRefreshToken cr s now token =
     map_option r_owner (find (\<lambda>r. r_hash r = cr_sha cr token \<and> r_expiry r > now) (refreshes s))"

definition add_token :: "accounts \<Rightarrow> auth_token \<Rightarrow> accounts option" where
  "add_token s t =
     (if list_ex (\<lambda>x. t_hash x = t_hash t) (tokens s) then None else Some (s\<lparr>tokens := tokens s @ [t]\<rparr>))"

definition add_refresh :: "accounts \<Rightarrow> refresh_token \<Rightarrow> accounts option" where
  "add_refresh s r =
     (if list_ex (\<lambda>x. r_hash x = r_hash r) (refreshes s) then None else Some (s\<lparr>refreshes := refreshes s @ [r]\<rparr>))"

definition session_token :: "crypto \<Rightarrow> gotime \<Rightarrow> string \<Rightarrow> string \<Rightarrow> auth_token" where
  "session_token cr now owner raw =
     \<lparr>t_hash = cr_sha cr raw, t_owner = owner, t_expiry = Some (now + minutes 30), t_name = None, t_usage = None\<rparr>"

definition purge_expired :: "accounts \<Rightarrow> gotime \<Rightarrow> string \<Rightarrow> accounts" where
  "purge_expired s now owner =
     s\<lparr>tokens := delete_rows (\<lambda>t. t_owner t = owner \<and> (case t_expiry t of None \<Rightarrow> False | Some e \<Rightarrow> e < now)) (tokens s),
       refreshes := delete_rows (\<lambda>r. r_owner r = owner \<and> r_expiry r < now) (refreshes s)\<rparr>"

definition CreateAccessTokens ::
    "crypto \<Rightarrow> accounts \<Rightarrow> gotime \<Rightarrow> string \<Rightarrow> string \<Rightarrow> string \<Rightarrow> int \<Rightarrow> accounts option" where
  "CreateAccessTokens cr s now owner token refresh expiryHours =
     Option.bind (add_token s (session_token cr now owner token)) (\<lambda>s1.
     Option.bind (add_refresh s1 \<lparr>r_hash = cr_sha cr refresh, r_owner = owner, r_expiry = now + minutes 60 * expiryHours\<rparr>) (\<lambda>s2.
       Some (purge_expired s2 now owner)))"

definition CreateOIDCAccessToken :: "crypto \<Rightarrow> accounts \<Rightarrow> gotime \<Rightarrow> string \<Rightarrow> string \<Rightarrow> accounts option" where
  "CreateOIDCAccessToken cr s now owner raw = add_token s (session_token cr now owner raw)"

definition InsertAPIToken :: "crypto \<Rightarrow> accounts \<Rightarrow> string \<Rightarrow> string \<Rightarrow> string \<Rightarrow> accounts option" where
  "InsertAPIToken cr s owner token name =
     add_token s \<lparr>t_hash = cr_sha cr token, t_owner = owner, t_expiry = None,
       t_name = (if name = [] then None else Some name), t_usage = None\<rparr>"

definition DeleteTokens :: "crypto \<Rightarrow> accounts \<Rightarrow> string \<Rightarrow> string \<Rightarrow> accounts \<times> nat" where
  "DeleteTokens cr s token refresh =
     (s\<lparr>tokens := delete_rows (\<lambda>t. t_hash t = cr_sha cr token) (tokens s),
        refreshes := delete_rows (\<lambda>r. r_hash r = cr_sha cr refresh) (refreshes s)\<rparr>,
      length (filter (\<lambda>t. t_hash t = cr_sha cr token) (tokens s)) +
      length (filter (\<lambda>r. r_hash r = cr_sha cr refresh) (refreshes s)))"

text \<open>A token is shown and addressed by the first twelve digits of its hash in hexadecimal.\<close>

definition hex_digit :: "nat \<Rightarrow> char" where
  "hex_digit n = (if n < 10 then char_of (48 + n) else char_of (87 + n))"

definition hex :: "string \<Rightarrow> string" where
  "hex bytes = concat (map (\<lambda>c. [hex_digit (code c div 16), hex_digit (code c mod 16)]) bytes)"

definition token_id :: "auth_token \<Rightarrow> string" where
  "token_id t = take 12 (hex (t_hash t))"

definition DeleteAuthToken :: "accounts \<Rightarrow> string \<Rightarrow> string \<Rightarrow> accounts" where
  "DeleteAuthToken s i owner =
     s\<lparr>tokens := delete_rows (\<lambda>t. t_owner t = owner \<and> token_id t = i) (tokens s)\<rparr>"

definition ListApiTokens :: "accounts \<Rightarrow> string \<Rightarrow> (string \<times> gotime option \<times> string option) list" where
  "ListApiTokens s owner =
     map (\<lambda>t. (token_id t, t_usage t, t_name t)) (filter (\<lambda>t. t_owner t = owner \<and> t_expiry t = None) (tokens s))"

definition UpdateTokenMetadata :: "accounts \<Rightarrow> string \<Rightarrow> string \<Rightarrow> string \<Rightarrow> accounts" where
  "UpdateTokenMetadata s owner i name =
     s\<lparr>tokens := update_rows (\<lambda>t. t_owner t = owner \<and> token_id t = i) (\<lambda>t. t\<lparr>t_name := Some name\<rparr>) (tokens s)\<rparr>"

definition ChangePasswordAndRevoke ::
    "crypto \<Rightarrow> accounts \<Rightarrow> string \<Rightarrow> string \<Rightarrow> string \<Rightarrow> string \<Rightarrow> accounts" where
  "ChangePasswordAndRevoke cr s name h salt exceptToken =
     s\<lparr>users := update_rows (\<lambda>u. a_name u = name) (\<lambda>u. u\<lparr>a_hash := h, a_salt := salt, a_argon := 2\<rparr>) (users s),
       refreshes := delete_rows (\<lambda>r. r_owner r = name) (refreshes s),
       tokens := delete_rows (\<lambda>t. t_owner t = name \<and> t_hash t \<noteq> cr_sha cr exceptToken \<and> t_expiry t \<noteq> None) (tokens s)\<rparr>"

definition DeleteUserSessionTokens :: "accounts \<Rightarrow> string \<Rightarrow> accounts" where
  "DeleteUserSessionTokens s owner =
     s\<lparr>tokens := delete_rows (\<lambda>t. t_owner t = owner \<and> t_expiry t \<noteq> None) (tokens s),
       refreshes := delete_rows (\<lambda>r. r_owner r = owner) (refreshes s)\<rparr>"

section \<open>OIDC sessions and external identities\<close>

definition CreateOIDCSession ::
    "crypto \<Rightarrow> accounts \<Rightarrow> string \<Rightarrow> string \<Rightarrow> gotime \<Rightarrow> string option \<Rightarrow> accounts option" where
  "CreateOIDCSession cr s raw name expiry enc =
     (if list_ex (\<lambda>x. s_hash x = cr_sha cr raw) (sessions s) then None
      else Some (s\<lparr>sessions := sessions s @ [\<lparr>s_hash = cr_sha cr raw, s_user = name, s_expiry = expiry, s_refresh = enc\<rparr>]\<rparr>))"

definition live_session :: "crypto \<Rightarrow> accounts \<Rightarrow> gotime \<Rightarrow> string \<Rightarrow> oidc_session option" where
  "live_session cr s now raw = find (\<lambda>x. s_hash x = cr_sha cr raw \<and> s_expiry x > now) (sessions s)"

definition GetOIDCSessionRefresh :: "crypto \<Rightarrow> accounts \<Rightarrow> gotime \<Rightarrow> string \<Rightarrow> (string option \<times> gotime) option" where
  "GetOIDCSessionRefresh cr s now raw = map_option (\<lambda>x. (s_refresh x, s_expiry x)) (live_session cr s now raw)"

definition RotateOIDCSession :: "crypto \<Rightarrow> accounts \<Rightarrow> string \<Rightarrow> gotime \<Rightarrow> string option \<Rightarrow> accounts" where
  "RotateOIDCSession cr s raw expiry enc =
     s\<lparr>sessions := update_rows (\<lambda>x. s_hash x = cr_sha cr raw) (\<lambda>x. x\<lparr>s_expiry := expiry, s_refresh := enc\<rparr>) (sessions s)\<rparr>"

definition GetOIDCSessionUser :: "crypto \<Rightarrow> accounts \<Rightarrow> gotime \<Rightarrow> string \<Rightarrow> string option" where
  "GetOIDCSessionUser cr s now raw = map_option s_user (live_session cr s now raw)"

definition DeleteOIDCSession :: "crypto \<Rightarrow> accounts \<Rightarrow> string \<Rightarrow> accounts" where
  "DeleteOIDCSession cr s raw = s\<lparr>sessions := delete_rows (\<lambda>x. s_hash x = cr_sha cr raw) (sessions s)\<rparr>"

definition GetUserByExternalIdentity :: "accounts \<Rightarrow> string \<Rightarrow> string \<Rightarrow> string option" where
  "GetUserByExternalIdentity s provider sub =
     map_option x_user (find (\<lambda>x. x_provider x = provider \<and> x_sub x = sub) (links s))"

definition TouchExternalIdentity :: "accounts \<Rightarrow> gotime \<Rightarrow> string \<Rightarrow> string \<Rightarrow> string \<Rightarrow> accounts" where
  "TouchExternalIdentity s now provider sub email =
     s\<lparr>links := update_rows (\<lambda>x. x_provider x = provider \<and> x_sub x = sub)
        (\<lambda>x. x\<lparr>x_email := email, x_seen := now\<rparr>) (links s)\<rparr>"

definition LinkExternalIdentity ::
    "accounts \<Rightarrow> gotime \<Rightarrow> string \<Rightarrow> string \<Rightarrow> string \<Rightarrow> string \<Rightarrow> accounts option" where
  "LinkExternalIdentity s now name provider sub email =
     (if GetUserByExternalIdentity s provider sub \<noteq> None then None
      else Some (s\<lparr>links := links s @ [\<lparr>x_user = name, x_provider = provider, x_sub = sub, x_email = email,
                                         x_created = now, x_seen = now\<rparr>]\<rparr>))"

definition ListExternalIdentities :: "accounts \<Rightarrow> string \<Rightarrow> ext_identity list" where
  "ListExternalIdentities s name =
     slice_stable (\<lambda>a b. x_provider a < x_provider b) (filter (\<lambda>x. x_user x = name) (links s))"

definition DeleteExternalIdentity :: "accounts \<Rightarrow> string \<Rightarrow> string \<Rightarrow> accounts \<times> bool" where
  "DeleteExternalIdentity s name provider =
     (s\<lparr>links := delete_rows (\<lambda>x. x_user x = name \<and> x_provider x = provider) (links s)\<rparr>,
      list_ex (\<lambda>x. x_user x = name \<and> x_provider x = provider) (links s))"

definition CountExternalIdentities :: "accounts \<Rightarrow> string \<Rightarrow> nat" where
  "CountExternalIdentities s name = length (filter (\<lambda>x. x_user x = name) (links s))"

text \<open>\<open>None\<close> when there is no such user (the scan of an empty result fails).\<close>

definition HasUsablePassword :: "accounts \<Rightarrow> string \<Rightarrow> bool option" where
  "HasUsablePassword s name = map_option (\<lambda>u. a_hash u \<noteq> []) (GetUser s name)"

text \<open>
  The names that are tried: the preferred one, then with a suffix from 2 to 999.
\<close>

definition candidates :: "string \<Rightarrow> string list" where
  "candidates preferred = preferred # map (\<lambda>i. preferred @ ''-'' @ itoa (int i)) [2..<1000]"

definition oidc_account :: "string \<Rightarrow> string \<Rightarrow> account" where
  "oidc_account name role = \<lparr>a_name = name, a_hash = [], a_salt = [], a_argon = 2, a_role = role,
     a_caps = Some (JObj []), a_disabled = None\<rparr>"

definition ProvisionOIDCUser ::
    "accounts \<Rightarrow> gotime \<Rightarrow> string \<Rightarrow> string \<Rightarrow> string \<Rightarrow> string \<Rightarrow> string \<Rightarrow> (accounts \<times> string) option" where
  "ProvisionOIDCUser s now preferred provider sub email role =
     (case find (\<lambda>c. GetUser s c = None) (candidates preferred) of
        None \<Rightarrow> None
      | Some name \<Rightarrow>
          map_option (\<lambda>s2. (s2, name))
            (LinkExternalIdentity (s\<lparr>users := users s @ [oidc_account name role]\<rparr>) now name provider sub email))"

end
