(* ===== verification/AccountFlow.thy ===== *)
theory AccountFlow
  imports AccountStore
begin

text \<open>
  The account endpoints (\<open>internal/identity\<close>: auth.go, password.go, oidc.go) and the resolvers under
  them (\<open>internal/shared/auth\<close>: resolver.go, oidc_resolver.go, oidc_pending.go; \<open>apihelpers.go\<close>). The
  identity provider is a parameter: it exchanges a code for a verified id token and grants
  refreshes. Random tokens, salts and states are arguments. The statements do not fail except on a
  duplicate. A request is served as a whole; AccountProps looks at interleavings where they matter.
\<close>

datatype api_error =
    MissingAuth | InvalidToken | ExpiredRefreshToken | MissingRefreshTokenCookie | InvalidCredentials
  | DisabledRegistration | UsernameExists string | BadPassword password_error | BadUsername name_error
  | PasswordsRequired | CurrentPasswordIncorrect | PasswordLoginDisabled | NoOIDC | NonceMismatch | MissingSub
  | ExchangeFailed | AlreadyLinked | NoUsernameClaim | NoAccount | OnlySignIn | NoSuchLink | Generic

record id_token =
  it_sub :: string
  it_email :: string
  it_preferred :: string
  it_groups :: "string list"
  it_nonce :: string
  it_expiry :: gotime
  it_refresh :: string

record resolver =
  rs_exchange :: "string \<Rightarrow> id_token option"
  rs_refresh :: "string \<Rightarrow> (gotime \<times> string) option"
  rs_groupToRole :: "string \<Rightarrow> string option"
  rs_autoprovision :: bool

text \<open>
  The boot configuration: the provider, the constructed OIDC resolver (present under the local
  provider too once OIDC is configured), the user-model flag, and the standalone owner.
\<close>

record config =
  cf_oidc :: bool
  cf_resolver :: "resolver option"
  cf_usermodel :: bool
  cf_registration :: bool
  cf_session_hours :: int
  cf_standalone :: "string option"

section \<open>Resolving a caller\<close>

definition resolveIdentity :: "config \<Rightarrow> accounts \<Rightarrow> string \<Rightarrow> api_error + identity" where
  "resolveIdentity cf s owner =
     (if \<not> cf_usermodel cf then Inr (AllCapsIdentity owner)
      else (case GetUser s owner of
          None \<Rightarrow> Inl InvalidToken
        | Some u \<Rightarrow> if a_disabled u \<noteq> None then Inl InvalidToken
                    else Inr (BuildIdentity owner (a_role u) (a_caps u) False)))"

definition ResolveBearer :: "crypto \<Rightarrow> config \<Rightarrow> accounts \<Rightarrow> gotime \<Rightarrow> string \<Rightarrow> accounts \<times> (api_error + identity)" where
  "ResolveBearer cr cf s now token =
     (case GetUserByToken cr s now token of
        (s', None) \<Rightarrow> (s', Inl InvalidToken)
      | (s', Some owner) \<Rightarrow> (s', resolveIdentity cf s' owner))"

definition resolveOIDCSession :: "crypto \<Rightarrow> config \<Rightarrow> accounts \<Rightarrow> gotime \<Rightarrow> string \<Rightarrow> api_error + identity" where
  "resolveOIDCSession cr cf s now raw =
     (case GetOIDCSessionUser cr s now raw of
        None \<Rightarrow> Inl ExpiredRefreshToken | Some name \<Rightarrow> resolveIdentity cf s name)"

definition ResolveCookie :: "crypto \<Rightarrow> config \<Rightarrow> accounts \<Rightarrow> gotime \<Rightarrow> string \<Rightarrow> api_error + identity" where
  "ResolveCookie cr cf s now cookie =
     (if cf_oidc cf then resolveOIDCSession cr cf s now cookie
      else (case GetUserByRefreshToken cr s now cookie of
          None \<Rightarrow> Inl ExpiredRefreshToken | Some owner \<Rightarrow> resolveIdentity cf s owner))"

definition Identify :: "crypto \<Rightarrow> config \<Rightarrow> accounts \<Rightarrow> gotime \<Rightarrow> string \<Rightarrow> accounts \<times> (api_error + identity)" where
  "Identify cr cf s now header =
     (case cf_standalone cf of
        Some owner \<Rightarrow> (s, Inr (AllCapsIdentity owner))
      | None \<Rightarrow>
          (case TokenFromHeader header of
             None \<Rightarrow> (s, Inl MissingAuth)
           | Some token \<Rightarrow> ResolveBearer cr cf s now token))"

definition IdentifyFromCookie :: "crypto \<Rightarrow> config \<Rightarrow> accounts \<Rightarrow> gotime \<Rightarrow> string \<Rightarrow> api_error + identity" where
  "IdentifyFromCookie cr cf s now cookies =
     (case ParseRefreshCookie cookies of
        None \<Rightarrow> Inl MissingRefreshTokenCookie
      | Some cookie \<Rightarrow> ResolveCookie cr cf s now cookie)"

text \<open>What a handler does for an identified owner.\<close>

definition with_owner ::
    "crypto \<Rightarrow> config \<Rightarrow> accounts \<Rightarrow> gotime \<Rightarrow> string \<Rightarrow> (accounts \<Rightarrow> string \<Rightarrow> accounts \<times> (api_error + 'a)) \<Rightarrow>
     accounts \<times> (api_error + 'a)" where
  "with_owner cr cf s now header f =
     (case Identify cr cf s now header of
        (s', Inl e) \<Rightarrow> (s', Inl e) | (s', Inr i) \<Rightarrow> f s' (id_name i))"

section \<open>Local accounts\<close>

record creds =
  c_user :: string
  c_pw :: string

text \<open>A pair of random tokens, bearer and refresh, base64 encoded.\<close>

type_synonym token_pair = "string \<times> string"

definition mint :: "crypto \<Rightarrow> config \<Rightarrow> accounts \<Rightarrow> gotime \<Rightarrow> string \<Rightarrow> token_pair \<Rightarrow> accounts \<times> (api_error + token_pair)" where
  "mint cr cf s now owner td =
     (case CreateAccessTokens cr s now owner (fst td) (snd td) (cf_session_hours cf) of
        None \<Rightarrow> (s, Inl Generic) | Some s' \<Rightarrow> (s', Inr td))"

definition rehash :: "crypto \<Rightarrow> accounts \<Rightarrow> account \<Rightarrow> string \<Rightarrow> string \<Rightarrow> accounts \<times> derivation list" where
  "rehash cr s u pw salt =
     (if a_argon u < 2
      then (UpgradeArgonVersion s (a_name u) (HashPasswordWithVersion cr salt pw 2) salt (a_argon u) 2, [argonParamsFor 2])
      else (s, []))"

text \<open>With the derivations that were run.\<close>

definition Login ::
    "crypto \<Rightarrow> config \<Rightarrow> accounts \<Rightarrow> gotime \<Rightarrow> creds \<Rightarrow> token_pair \<Rightarrow> string \<Rightarrow>
     accounts \<times> (api_error + token_pair) \<times> derivation list" where
  "Login cr cf s now c td salt =
     (if cf_oidc cf then (s, Inl PasswordLoginDisabled, [])
      else (case GetUser s (c_user c) of
          None \<Rightarrow> (s, Inl InvalidCredentials, BurnSentinelVerify)
        | Some u \<Rightarrow>
            (case VerifyPasswordWithVersion cr (c_pw c) (a_hash u) (a_salt u) (a_argon u) of
               (ok, ds) \<Rightarrow>
                 if \<not> ok then (s, Inl InvalidCredentials, ds)
                 else if a_disabled u \<noteq> None then (s, Inl InvalidCredentials, ds)
                 else (case rehash cr s u (c_pw c) salt of
                     (s1, ds') \<Rightarrow>
                       (case mint cr cf s1 now (c_user c) td of (s2, r) \<Rightarrow> (s2, r, ds @ ds'))))))"

definition CreateUser :: "crypto \<Rightarrow> accounts \<Rightarrow> string \<Rightarrow> string \<Rightarrow> string \<Rightarrow> accounts \<times> bool" where
  "CreateUser cr s name pw salt =
     InsertUser s \<lparr>a_name = name, a_hash = HashPasswordWithVersion cr salt pw 2, a_salt = salt, a_argon = 2,
       a_role = ''full'', a_caps = Some (JObj []), a_disabled = None\<rparr>"

definition policy :: "crypto \<Rightarrow> string \<Rightarrow> password_error option" where
  "policy cr pw = ValidatePassword (cr_letter cr) (cr_digit cr) (cr_runes cr pw)"

definition Register_account ::
    "crypto \<Rightarrow> config \<Rightarrow> accounts \<Rightarrow> gotime \<Rightarrow> creds \<Rightarrow> token_pair \<Rightarrow> string \<Rightarrow> accounts \<times> (api_error + token_pair)" where
  "Register_account cr cf s now c td salt =
     (if \<not> cf_registration cf then (s, Inl DisabledRegistration)
      else (case policy cr (c_pw c) of
          Some e \<Rightarrow> (s, Inl (BadPassword e))
        | None \<Rightarrow>
            (case ValidateUsername (c_user c) of
               Some e \<Rightarrow> (s, Inl (BadUsername e))
             | None \<Rightarrow>
                 (case CreateUser cr s (c_user c) (c_pw c) salt of
                    (s1, False) \<Rightarrow> (s1, Inl (UsernameExists (c_user c)))
                  | (s1, True) \<Rightarrow> mint cr cf s1 now (c_user c) td))))"

definition tryRotateOIDCSession :: "crypto \<Rightarrow> config \<Rightarrow> accounts \<Rightarrow> gotime \<Rightarrow> string \<Rightarrow> accounts" where
  "tryRotateOIDCSession cr cf s now cookies =
     (case (ParseRefreshCookie cookies, cf_resolver cf) of
        (Some raw, Some rs) \<Rightarrow>
          (case GetOIDCSessionRefresh cr s now raw of
             Some (Some enc, _) \<Rightarrow>
               (if enc = [] then s
                else (case cr_decrypt cr enc of
                    None \<Rightarrow> s
                  | Some r \<Rightarrow>
                      (case rs_refresh rs r of
                         None \<Rightarrow> s
                       | Some (expiry, r') \<Rightarrow> RotateOIDCSession cr s raw expiry (cr_encrypt cr r'))))
           | _ \<Rightarrow> s)
      | _ \<Rightarrow> s)"

text \<open>Under OIDC the answer carries a bearer only.\<close>

definition RefreshToken ::
    "crypto \<Rightarrow> config \<Rightarrow> accounts \<Rightarrow> gotime \<Rightarrow> string \<Rightarrow> token_pair \<Rightarrow> accounts \<times> (api_error + token_pair option \<times> string)" where
  "RefreshToken cr cf s now cookies td =
     (case IdentifyFromCookie cr cf s now cookies of
        Inl e \<Rightarrow> (s, Inl e)
      | Inr i \<Rightarrow>
          if cf_oidc cf
          then (let s1 = tryRotateOIDCSession cr cf s now cookies in
                case CreateOIDCAccessToken cr s1 now (id_name i) (fst td) of
                  None \<Rightarrow> (s1, Inl Generic) | Some s2 \<Rightarrow> (s2, Inr (None, fst td)))
          else (case mint cr cf s now (id_name i) td of
                  (s1, Inl e) \<Rightarrow> (s1, Inl e) | (s1, Inr td') \<Rightarrow> (s1, Inr (Some td', fst td'))))"

definition Logout :: "crypto \<Rightarrow> config \<Rightarrow> accounts \<Rightarrow> gotime \<Rightarrow> string \<Rightarrow> string \<Rightarrow> accounts \<times> (api_error + unit)" where
  "Logout cr cf s now header cookies =
     (if cf_oidc cf
      then (case ParseRefreshCookie cookies of
          None \<Rightarrow> (s, Inl MissingRefreshTokenCookie)
        | Some raw \<Rightarrow>
            (let s1 = (case GetOIDCSessionUser cr s now raw of
                         None \<Rightarrow> s
                       | Some owner \<Rightarrow> if owner = [] then s else DeleteUserSessionTokens s owner)
             in (DeleteOIDCSession cr s1 raw, Inr ())))
      else (case TokenFromHeader header of
          None \<Rightarrow> (s, Inl MissingAuth)
        | Some token \<Rightarrow>
            (case ParseRefreshCookie cookies of
               None \<Rightarrow> (s, Inl MissingRefreshTokenCookie)
             | Some refresh \<Rightarrow>
                 (case DeleteTokens cr s token refresh of
                    (s1, n) \<Rightarrow> if n < 2 then (s1, Inl InvalidCredentials) else (s1, Inr ())))))"

definition CreateAPIToken ::
    "crypto \<Rightarrow> config \<Rightarrow> accounts \<Rightarrow> gotime \<Rightarrow> string \<Rightarrow> string \<Rightarrow> string \<Rightarrow> accounts \<times> (api_error + string)" where
  "CreateAPIToken cr cf s now header name raw =
     with_owner cr cf s now header (\<lambda>s1 owner.
       case InsertAPIToken cr s1 owner (cr_base64 cr raw) (take 42 (trim_space name)) of
         None \<Rightarrow> (s1, Inl Generic) | Some s2 \<Rightarrow> (s2, Inr raw))"

definition ListAPITokens ::
    "crypto \<Rightarrow> config \<Rightarrow> accounts \<Rightarrow> gotime \<Rightarrow> string \<Rightarrow>
     accounts \<times> (api_error + (string \<times> gotime option \<times> string option) list)" where
  "ListAPITokens cr cf s now header =
     with_owner cr cf s now header (\<lambda>s1 owner. (s1, Inr (ListApiTokens s1 owner)))"

definition DeleteToken :: "crypto \<Rightarrow> config \<Rightarrow> accounts \<Rightarrow> gotime \<Rightarrow> string \<Rightarrow> string \<Rightarrow> accounts \<times> (api_error + unit)" where
  "DeleteToken cr cf s now header i =
     with_owner cr cf s now header (\<lambda>s1 owner. (DeleteAuthToken s1 i owner, Inr ()))"

definition UpdateToken ::
    "crypto \<Rightarrow> config \<Rightarrow> accounts \<Rightarrow> gotime \<Rightarrow> string \<Rightarrow> string \<Rightarrow> string \<Rightarrow> accounts \<times> (api_error + unit)" where
  "UpdateToken cr cf s now header i name =
     with_owner cr cf s now header (\<lambda>s1 owner. (UpdateTokenMetadata s1 owner i name, Inr ()))"

text \<open>The check of the current password; an account without one may set its first.\<close>

definition current_ok :: "crypto \<Rightarrow> account option \<Rightarrow> string \<Rightarrow> api_error option" where
  "current_ok cr user current =
     (case user of
        None \<Rightarrow> Some CurrentPasswordIncorrect
      | Some u \<Rightarrow>
          if a_hash u \<noteq> [] then
            (if current = [] then Some PasswordsRequired
             else if \<not> fst (VerifyPasswordWithVersion cr current (a_hash u) (a_salt u) (a_argon u))
             then Some CurrentPasswordIncorrect else None)
          else if current \<noteq> [] then Some CurrentPasswordIncorrect
          else None)"

definition ChangePassword ::
    "crypto \<Rightarrow> config \<Rightarrow> accounts \<Rightarrow> gotime \<Rightarrow> string \<Rightarrow> string \<Rightarrow> string \<Rightarrow> string \<Rightarrow> accounts \<times> (api_error + unit)" where
  "ChangePassword cr cf s now header current new salt =
     with_owner cr cf s now header (\<lambda>s1 owner.
       let callerToken = (case TokenFromHeader header of None \<Rightarrow> [] | Some t \<Rightarrow> t) in
       if new = [] then (s1, Inl PasswordsRequired)
       else (case current_ok cr (GetUser s1 owner) current of
           Some e \<Rightarrow> (s1, Inl e)
         | None \<Rightarrow>
             (case policy cr new of
                Some e \<Rightarrow> (s1, Inl (BadPassword e))
              | None \<Rightarrow>
                  (ChangePasswordAndRevoke cr s1 owner (HashPasswordWithVersion cr salt new 2) salt callerToken, Inr ()))))"

section \<open>OIDC\<close>

definition OIDCProviderName :: string where
  "OIDCProviderName = ''authentik''"

definition exchangeAndVerify :: "resolver \<Rightarrow> string \<Rightarrow> string \<Rightarrow> api_error + id_token" where
  "exchangeAndVerify rs auth_code expectedNonce =
     (case rs_exchange rs auth_code of
        None \<Rightarrow> Inl ExchangeFailed
      | Some t \<Rightarrow>
          if it_nonce t = [] \<or> it_nonce t \<noteq> expectedNonce then Inl NonceMismatch
          else if it_sub t = [] then Inl MissingSub
          else Inr t)"

definition localpart :: "string \<Rightarrow> string" where
  "localpart email =
     (if CHR ''@'' \<in> set email then takeWhile (\<lambda>c. c \<noteq> CHR ''@'') email else [])"

definition returning_login :: "accounts \<Rightarrow> gotime \<Rightarrow> string \<Rightarrow> id_token \<Rightarrow> string \<Rightarrow> accounts" where
  "returning_login s now name t role =
     (let s1 = (case GetUser s name of
                  None \<Rightarrow> s
                | Some u \<Rightarrow> if a_role u \<noteq> role then fst (SetUserRole s name role) else s)
      in TouchExternalIdentity s1 now OIDCProviderName (it_sub t) (it_email t))"

definition resolveOrProvision ::
    "resolver \<Rightarrow> accounts \<Rightarrow> gotime \<Rightarrow> id_token \<Rightarrow> string \<Rightarrow> accounts \<times> (api_error + string)" where
  "resolveOrProvision rs s now t role =
     (case GetUserByExternalIdentity s OIDCProviderName (it_sub t) of
        Some name \<Rightarrow> (returning_login s now name t role, Inr name)
      | None \<Rightarrow>
          (let preferred = (if it_preferred t = [] then localpart (it_email t) else it_preferred t) in
           if preferred = [] then (s, Inl NoUsernameClaim)
           else (case ValidateUsername preferred of
               Some e \<Rightarrow> (s, Inl (BadUsername e))
             | None \<Rightarrow>
                 if \<not> rs_autoprovision rs then (s, Inl NoAccount)
                 else (case ProvisionOIDCUser s now preferred OIDCProviderName (it_sub t) (it_email t) role of
                     None \<Rightarrow> (s, Inl Generic)
                   | Some (s1, name) \<Rightarrow> (s1, Inr name)))))"

definition HandleCallback ::
    "crypto \<Rightarrow> config \<Rightarrow> resolver \<Rightarrow> accounts \<Rightarrow> gotime \<Rightarrow> string \<Rightarrow> string \<Rightarrow> string \<Rightarrow>
     accounts \<times> (api_error + identity \<times> string \<times> gotime)" where
  "HandleCallback cr cf rs s now auth_code nonce session_id =
     (case exchangeAndVerify rs auth_code nonce of
        Inl e \<Rightarrow> (s, Inl e)
      | Inr t \<Rightarrow>
          (case resolveOrProvision rs s now t (RoleFromGroups (it_groups t) (rs_groupToRole rs)) of
             (s1, Inl e) \<Rightarrow> (s1, Inl e)
           | (s1, Inr name) \<Rightarrow>
               (let expiry = (if time_is_zero (it_expiry t) then now + minutes 480 else it_expiry t);
                    enc = (if it_refresh t = [] then None else cr_encrypt cr (it_refresh t)) in
                case CreateOIDCSession cr s1 session_id name expiry enc of
                  None \<Rightarrow> (s1, Inl Generic)
                | Some s2 \<Rightarrow>
                    (case resolveIdentity cf s2 name of
                       Inl e \<Rightarrow> (s2, Inl e)
                     | Inr i \<Rightarrow> (s2, Inr (i, session_id, expiry))))))"

definition HandleLink :: "resolver \<Rightarrow> accounts \<Rightarrow> gotime \<Rightarrow> string \<Rightarrow> string \<Rightarrow> string \<Rightarrow> accounts \<times> api_error option" where
  "HandleLink rs s now auth_code current nonce =
     (case exchangeAndVerify rs auth_code nonce of
        Inl e \<Rightarrow> (s, Some e)
      | Inr t \<Rightarrow>
          (case GetUserByExternalIdentity s OIDCProviderName (it_sub t) of
             Some existing \<Rightarrow> (s, if existing = current then None else Some AlreadyLinked)
           | None \<Rightarrow>
               (case LinkExternalIdentity s now current OIDCProviderName (it_sub t) (it_email t) of
                  None \<Rightarrow> (s, Some AlreadyLinked) | Some s1 \<Rightarrow> (s1, None))))"

text \<open>The link flows in flight: a state, the user who started it, and its expiry.\<close>

type_synonym intents = "(string \<times> string \<times> gotime) list"

definition putLinkIntent :: "intents \<Rightarrow> gotime \<Rightarrow> string \<Rightarrow> string \<Rightarrow> intents" where
  "putLinkIntent m now st name = aput (filter (\<lambda>(k, _, e). \<not> now > e) m) st (name, now + minutes 10)"

definition takeLinkIntent :: "intents \<Rightarrow> gotime \<Rightarrow> string \<Rightarrow> intents \<times> string option" where
  "takeLinkIntent m now st =
     (filter (\<lambda>(k, _). k \<noteq> st) m,
      case aget m st of None \<Rightarrow> None | Some (name, e) \<Rightarrow> if now > e then None else Some name)"

text \<open>The state of the browser's flow cookies and the parameters of the callback.\<close>

record callback =
  cb_state_cookie :: "string option"
  cb_nonce_cookie :: "string option"
  cb_mode_cookie :: "string option"
  cb_state :: string
  cb_error :: string
  cb_code :: string

datatype callback_outcome =
    ErrorRedirect string | LinkRedirect string | SessionStarted identity string gotime | CallbackDisabled

definition CallbackOIDC ::
    "crypto \<Rightarrow> config \<Rightarrow> accounts \<Rightarrow> intents \<Rightarrow> gotime \<Rightarrow> callback \<Rightarrow> string \<Rightarrow> accounts \<times> intents \<times> callback_outcome" where
  "CallbackOIDC cr cf s m now cb session_id =
     (case cf_resolver cf of
        None \<Rightarrow> (s, m, CallbackDisabled)
      | Some rs \<Rightarrow>
          if cb_state_cookie cb = None \<or> cb_state_cookie cb = Some [] \<or> cb_state_cookie cb \<noteq> Some (cb_state cb)
          then (s, m, ErrorRedirect ''state_mismatch'')
          else if cb_error cb \<noteq> [] then (s, m, ErrorRedirect ''provider_error'')
          else if cb_code cb = [] then (s, m, ErrorRedirect ''missing_code'')
          else
            (let nonce = (case cb_nonce_cookie cb of None \<Rightarrow> [] | Some v \<Rightarrow> v) in
             case takeLinkIntent m now (cb_state cb) of
               (m1, Some name) \<Rightarrow>
                 (case HandleLink rs s now (cb_code cb) name nonce of
                    (s1, None) \<Rightarrow> (s1, m1, LinkRedirect ''success'')
                  | (s1, Some AlreadyLinked) \<Rightarrow> (s1, m1, LinkRedirect ''conflict'')
                  | (s1, Some e) \<Rightarrow> (s1, m1, LinkRedirect ''error''))
             | (m1, None) \<Rightarrow>
                 if cb_mode_cookie cb = Some ''link'' then (s, m1, LinkRedirect ''error'')
                 else (case HandleCallback cr cf rs s now (cb_code cb) nonce session_id of
                     (s1, Inl e) \<Rightarrow> (s1, m1, ErrorRedirect ''login_failed'')
                   | (s1, Inr (i, sid, expiry)) \<Rightarrow> (s1, m1, SessionStarted i sid expiry))))"

text \<open>Starting a link: the caller is the one of the session cookie.\<close>

definition LinkOIDC ::
    "crypto \<Rightarrow> config \<Rightarrow> accounts \<Rightarrow> intents \<Rightarrow> gotime \<Rightarrow> string \<Rightarrow> string \<Rightarrow> intents \<times> (api_error + string)" where
  "LinkOIDC cr cf s m now cookies st =
     (case cf_resolver cf of
        None \<Rightarrow> (m, Inl NoOIDC)
      | Some rs \<Rightarrow>
          (case IdentifyFromCookie cr cf s now cookies of
             Inl e \<Rightarrow> (m, Inl e)
           | Inr i \<Rightarrow> (putLinkIntent m now st (id_name i), Inr st)))"

definition UnlinkIdentity ::
    "crypto \<Rightarrow> config \<Rightarrow> accounts \<Rightarrow> gotime \<Rightarrow> string \<Rightarrow> string \<Rightarrow> accounts \<times> (api_error + unit)" where
  "UnlinkIdentity cr cf s now header provider =
     with_owner cr cf s now header (\<lambda>s1 owner.
       case HasUsablePassword s1 owner of
         None \<Rightarrow> (s1, Inl Generic)
       | Some hasPw \<Rightarrow>
           if \<not> hasPw \<and> CountExternalIdentities s1 owner \<le> 1 then (s1, Inl OnlySignIn)
           else (case DeleteExternalIdentity s1 owner provider of
               (s2, ok) \<Rightarrow> if ok then (s2, Inr ()) else (s2, Inl NoSuchLink)))"

section \<open>The server\<close>

record server =
  sv_db :: accounts
  sv_intents :: intents

datatype request =
    ReqLogin creds token_pair string
  | ReqRegister creds token_pair string
  | ReqRefresh string token_pair
  | ReqLogout string string
  | ReqCreateAPIToken string string string
  | ReqListAPITokens string
  | ReqDeleteToken string string
  | ReqUpdateToken string string string
  | ReqChangePassword string string string string
  | ReqLink string string
  | ReqCallback callback string
  | ReqUnlink string string
  | AdminDisable string bool
  | AdminRole string string

definition on_db :: "server \<Rightarrow> accounts \<Rightarrow> server" where
  "on_db sv s = sv\<lparr>sv_db := s\<rparr>"

text \<open>The state after a request; \<open>AdminDisable\<close> and \<open>AdminRole\<close> are the operator's commands.\<close>

fun serve :: "crypto \<Rightarrow> config \<Rightarrow> gotime \<Rightarrow> request \<Rightarrow> server \<Rightarrow> server" where
  "serve cr cf now (ReqLogin c td salt) sv = on_db sv (fst (Login cr cf (sv_db sv) now c td salt))"
| "serve cr cf now (ReqRegister c td salt) sv = on_db sv (fst (Register_account cr cf (sv_db sv) now c td salt))"
| "serve cr cf now (ReqRefresh cookies td) sv = on_db sv (fst (RefreshToken cr cf (sv_db sv) now cookies td))"
| "serve cr cf now (ReqLogout header cookies) sv = on_db sv (fst (Logout cr cf (sv_db sv) now header cookies))"
| "serve cr cf now (ReqCreateAPIToken header name raw) sv = on_db sv (fst (CreateAPIToken cr cf (sv_db sv) now header name raw))"
| "serve cr cf now (ReqListAPITokens header) sv = on_db sv (fst (ListAPITokens cr cf (sv_db sv) now header))"
| "serve cr cf now (ReqDeleteToken header i) sv = on_db sv (fst (DeleteToken cr cf (sv_db sv) now header i))"
| "serve cr cf now (ReqUpdateToken header i name) sv = on_db sv (fst (UpdateToken cr cf (sv_db sv) now header i name))"
| "serve cr cf now (ReqChangePassword header cur new salt) sv =
     on_db sv (fst (ChangePassword cr cf (sv_db sv) now header cur new salt))"
| "serve cr cf now (ReqLink cookies st) sv =
     sv\<lparr>sv_intents := fst (LinkOIDC cr cf (sv_db sv) (sv_intents sv) now cookies st)\<rparr>"
| "serve cr cf now (ReqCallback cb sid) sv =
     (case CallbackOIDC cr cf (sv_db sv) (sv_intents sv) now cb sid of (s, m, _) \<Rightarrow> \<lparr>sv_db = s, sv_intents = m\<rparr>)"
| "serve cr cf now (ReqUnlink header provider) sv = on_db sv (fst (UnlinkIdentity cr cf (sv_db sv) now header provider))"
| "serve cr cf now (AdminDisable name d) sv = on_db sv (fst (SetUserDisabled (sv_db sv) now name d))"
| "serve cr cf now (AdminRole name role) sv = on_db sv (if ValidRole role then fst (SetUserRole (sv_db sv) name role) else sv_db sv)"

text \<open>Served one after the other, at any instants.\<close>

inductive served :: "crypto \<Rightarrow> config \<Rightarrow> server \<Rightarrow> server \<Rightarrow> bool" for cr cf where
  start: "served cr cf sv sv"
| next_request: "served cr cf sv sv' \<Longrightarrow> served cr cf sv (serve cr cf now req sv')"

end
