(* ===== verification/AccountRoles.thy ===== *)
theory AccountRoles
  imports AccountModel
begin

text \<open>What an identity may do, and which names and passwords are accepted.\<close>

section \<open>Roles from groups\<close>

definition granted_roles :: "string list \<Rightarrow> (string \<Rightarrow> string option) \<Rightarrow> string set" where
  "granted_roles groups groupToRole = {r. ValidRole r \<and> (\<exists>g\<in>set groups. groupToRole g = Some r)}"

lemma granted_roles_simps [simp]:
  "granted_roles [] f = {}"
  "granted_roles (g # gs) f = {r. ValidRole r \<and> f g = Some r} \<union> granted_roles gs f"
  by (auto simp: granted_roles_def)

lemma best_role_spec:
  "best_role f gs b p = b \<and> (\<forall>r\<in>granted_roles gs f. rolePriority r \<le> p) \<or>
   best_role f gs b p \<in> granted_roles gs f \<and> p < rolePriority (best_role f gs b p) \<and>
     (\<forall>r\<in>granted_roles gs f. rolePriority r \<le> rolePriority (best_role f gs b p))"
proof (induction gs arbitrary: b p)
  case (Cons g gs)
  show ?case
  proof (cases "f g")
    case None
    then show ?thesis using Cons [of b p] by auto
  next
    case (Some r)
    show ?thesis
    proof (cases "ValidRole r \<and> rolePriority r > p")
      case True
      then show ?thesis using Cons [of r "rolePriority r"] Some by (auto intro: order_trans)
    next
      case False
      then show ?thesis using Cons [of b p] Some by (auto intro: order_trans less_imp_le)
    qed
  qed
qed simp

lemma rolePriority_inj: "ValidRole r \<Longrightarrow> ValidRole r' \<Longrightarrow> rolePriority r = rolePriority r' \<Longrightarrow> r = r'"
  by (auto simp: ValidRole_def AllRoles_def rolePriority_def split: if_splits)

lemma rolePriority_nonneg: "0 \<le> rolePriority r"
  by (simp add: rolePriority_def)

text \<open>
  The role of an OIDC login is the strongest valid role its groups map to, light when none does,
  whatever the order and the repetitions of the groups in the token.
\<close>

lemma role_from_groups:
  "(granted_roles gs f = {} \<longrightarrow> RoleFromGroups gs f = ''light'') \<and>
   (granted_roles gs f \<noteq> {} \<longrightarrow> RoleFromGroups gs f \<in> granted_roles gs f \<and>
      (\<forall>r\<in>granted_roles gs f. rolePriority r \<le> rolePriority (RoleFromGroups gs f))) \<and>
   (granted_roles gs f = granted_roles gs' f \<longrightarrow> RoleFromGroups gs' f = RoleFromGroups gs f)"
proof -
  have spec: "(granted_roles hs f = {} \<longrightarrow> RoleFromGroups hs f = ''light'') \<and>
      (granted_roles hs f \<noteq> {} \<longrightarrow> RoleFromGroups hs f \<in> granted_roles hs f \<and>
        (\<forall>r\<in>granted_roles hs f. rolePriority r \<le> rolePriority (RoleFromGroups hs f)))" for hs
  proof -
    have "granted_roles hs f = {}" if "\<forall>r\<in>granted_roles hs f. rolePriority r \<le> - 1"
      using that rolePriority_nonneg by (meson equals0I le_minus_one_simps(3) order_trans)
    then show ?thesis
      using best_role_spec [of f hs "''light''" "- 1"] unfolding RoleFromGroups_def by blast
  qed
  have "RoleFromGroups gs' f = RoleFromGroups gs f" if "granted_roles gs f = granted_roles gs' f"
  proof (cases "granted_roles gs f = {}")
    case False
    then have r: "RoleFromGroups gs f \<in> granted_roles gs f" "RoleFromGroups gs' f \<in> granted_roles gs f"
        "rolePriority (RoleFromGroups gs f) = rolePriority (RoleFromGroups gs' f)"
      using spec [of gs] spec [of gs'] that by (auto intro: order_antisym)
    then show ?thesis
      using rolePriority_inj by (auto simp: granted_roles_def)
  qed (use spec [of gs] spec [of gs'] that in auto)
  with spec [of gs] show ?thesis by blast
qed

lemma role_from_groups_witness:
  "RoleFromGroups [''b'', ''a'', ''a''] [''a'' \<mapsto> ''admin'', ''b'' \<mapsto> ''service''] =
   RoleFromGroups [''a'', ''b''] [''a'' \<mapsto> ''admin'', ''b'' \<mapsto> ''service'']"
proof -
  let ?f = "[''a'' \<mapsto> ''admin'', ''b'' \<mapsto> ''service'']"
  have "granted_roles [''a'', ''b''] ?f = granted_roles [''b'', ''a'', ''a''] ?f"
    by (auto simp: granted_roles_def)
  then show ?thesis using role_from_groups [of "[''a'', ''b'']" ?f "[''b'', ''a'', ''a'']"] by blast
qed

section \<open>Effective capabilities\<close>

lemma roleDefaults_known: "roleDefaults r = Some d \<Longrightarrow> d c \<Longrightarrow> KnownCapability c"
  by (auto simp: roleDefaults_def KnownCapability_def AllCapabilities_def split: if_splits)

lemma defaultsForRole_unknown: "\<not> ValidRole r \<Longrightarrow> defaultsForRole r = defaultsForRole ''light''"
  by (auto simp: defaultsForRole_def roleDefaults_def ValidRole_def AllRoles_def)

lemma defaults_known: "snd (defaultsForRole r) c \<Longrightarrow> KnownCapability c"
  by (auto simp: defaultsForRole_def split: option.splits dest: roleDefaults_known)
    (auto simp: roleDefaults_def KnownCapability_def AllCapabilities_def)

lemma defaults_admin: "snd (defaultsForRole r) ''admin'' \<longleftrightarrow> r = ''admin''"
  by (auto simp: defaultsForRole_def roleDefaults_def AllCapabilities_def)

text \<open>
  An identity can do only what is a known capability, nothing once it is disabled, and otherwise
  what the last boolean the override blob gives for it, or else its role, says; an unknown role has
  the grants of light; and the admin capability comes from the admin role or an explicit override.
\<close>

lemma effective_capabilities:
  "(Can (BuildIdentity name role blob dis) c \<longrightarrow> KnownCapability c \<and> \<not> dis) \<and>
   (\<not> dis \<and> KnownCapability c \<longrightarrow>
      (Can (BuildIdentity name role blob dis) c \<longleftrightarrow>
         (case override blob c of Some b \<Rightarrow> b | None \<Rightarrow> snd (defaultsForRole role) c))) \<and>
   (\<not> ValidRole role \<longrightarrow> BuildIdentity name role blob dis = BuildIdentity name ''light'' blob dis) \<and>
   (Can (BuildIdentity name role blob dis) ''admin'' \<longrightarrow> role = ''admin'' \<or> override blob ''admin'' = Some True)"
  using defaultsForRole_unknown [of role] defaults_known [of role c] defaults_admin [of role]
  by (auto simp: BuildIdentity_def Can_def override_def split: prod.splits option.splits if_splits json.splits)

lemma effective_capabilities_witness:
  "\<not> Can (BuildIdentity ''eve'' ''owner'' (Some (JObj [(''admin'', JStr ''yes'')])) False) ''admin'' \<and>
   Can (BuildIdentity ''eve'' ''owner'' None False) ''curate''"
  using effective_capabilities [of "''eve''" "''owner''" "Some (JObj [(''admin'', JStr ''yes'')])" False "''admin''"]
    effective_capabilities [of "''eve''" "''owner''" None False "''curate''"]
  by (auto simp: override_def KnownCapability_def AllCapabilities_def defaultsForRole_def roleDefaults_def)

section \<open>Names and passwords\<close>

lemma ValidateUsername_chars: "ValidateUsername name = None \<Longrightarrow> c \<in> set name \<Longrightarrow> name_char c"
  by (auto simp: ValidateUsername_def list_all_iff split: if_splits)

lemma name_char_code: "name_char c \<Longrightarrow> 45 \<le> code c \<and> code c \<le> 122"
  by (auto simp: name_char_def code_def)

lemma valid_name_no_bar: "ValidateUsername name = None \<Longrightarrow> CHR ''|'' \<notin> set name"
  using ValidateUsername_chars name_char_code [of "CHR ''|''"] by (force simp: code_def)

lemma scan_classes_None:
  "scan_classes isL isD rs l d = None \<longleftrightarrow> rs \<noteq> [] \<and> (l \<or> (\<exists>r\<in>set rs. isL r)) \<and> (d \<or> (\<exists>r\<in>set rs. \<not> isL r \<and> isD r))"
  if "\<not> (l \<and> d)" for l d
  using that
proof (induction rs arbitrary: l d)
  case (Cons r rs)
  show ?case
  proof (cases "(l \<or> isL r) \<and> (d \<or> \<not> isL r \<and> isD r)")
    case False
    then have "\<not> ((l \<or> isL r) \<and> (d \<or> (\<not> isL r \<and> isD r)))" by simp
    from Cons.IH [OF this] False Cons.prems show ?thesis by (auto simp: Let_def)
  qed (auto simp: Let_def)
qed simp

text \<open>
  The username policy accepts exactly the names of 1 to 64 letters, digits, dots, underscores and
  hyphens that neither start nor end with a dot or a hyphen; so the separator of the cache keys, a
  space, a control character or a byte outside ASCII is in none. The password policy accepts exactly
  eight runes or more with a letter and a digit among them.
\<close>

lemma policies_accept:
  "(ValidateUsername name = None \<longleftrightarrow>
      1 \<le> length name \<and> length name \<le> 64 \<and> (\<forall>c\<in>set name. name_char c) \<and>
      hd name \<notin> {CHR ''.'', CHR ''-''} \<and> last name \<notin> {CHR ''.'', CHR ''-''}) \<and>
   (ValidateUsername name = None \<longrightarrow> (\<forall>c\<in>set name. 45 \<le> code c \<and> code c \<le> 122)) \<and>
   (ValidatePassword isLetter isDigit pw = None \<longleftrightarrow>
      8 \<le> length pw \<and> (\<exists>r\<in>set pw. isLetter r) \<and> (\<exists>r\<in>set pw. \<not> isLetter r \<and> isDigit r))"
proof -
  have "ValidateUsername name = None \<longleftrightarrow>
      1 \<le> length name \<and> length name \<le> 64 \<and> (\<forall>c\<in>set name. name_char c) \<and>
      hd name \<notin> {CHR ''.'', CHR ''-''} \<and> last name \<notin> {CHR ''.'', CHR ''-''}"
    by (cases "name = []") (simp_all add: ValidateUsername_def MaxUsernameLen_def list_all_iff Suc_le_eq not_less)
  moreover have "ValidatePassword isLetter isDigit pw = None \<longleftrightarrow>
      8 \<le> length pw \<and> (\<exists>r\<in>set pw. isLetter r) \<and> (\<exists>r\<in>set pw. \<not> isLetter r \<and> isDigit r)"
    using scan_classes_None [of False False isLetter isDigit pw]
    by (auto simp: ValidatePassword_def MinPasswordLen_def)
  ultimately show ?thesis
    using ValidateUsername_chars [of name] name_char_code by simp
qed

lemma policies_accept_witness:
  "\<forall>c\<in>set ''j.doe_2''. 45 \<le> code c \<and> code c \<le> 122"
proof -
  have "ValidateUsername ''j.doe_2'' = None" by code_simp
  then show ?thesis by (rule policies_accept [THEN conjunct2, THEN conjunct1, THEN mp])
qed

end
