(* ===== verification/AccountKill.thy ===== *)
theory AccountKill
  imports AccountFlow AccountRoles
begin

text \<open>
  Disabling an account: the invariant that a disabled account holds no credential, kept by every
  request, and where it is not enough.
\<close>

section \<open>Rows\<close>

lemma set_delete_rows [simp]: "set (delete_rows P rows) = {r \<in> set rows. \<not> P r}"
  by (auto simp: delete_rows_def)

lemma map_update_rows: "(\<And>r. g (f r) = g r) \<Longrightarrow> map g (update_rows P f rows) = map g rows"
  by (simp add: update_rows_def)

lemma image_update_rows: "(\<And>r. g (f r) = g r) \<Longrightarrow> g ` set (update_rows P f rows) = g ` set rows"
  using arg_cong [OF map_update_rows, of g f set P rows] by simp

lemma find_delete_other: "(\<And>r. P r \<Longrightarrow> \<not> Q r) \<Longrightarrow> find P (delete_rows Q rows) = find P rows"
  by (induction rows) (auto simp: delete_rows_def)

lemma find_delete_all: "(\<And>r. P r \<Longrightarrow> Q r) \<Longrightarrow> find P (delete_rows Q rows) = None"
  by (auto simp: find_None_iff delete_rows_def)

lemma find_update: "(\<And>r. P (f r) = P r) \<Longrightarrow> find P (update_rows Q f rows) = map_option (\<lambda>r. if Q r then f r else r) (find P rows)"
  by (induction rows) (auto simp: update_rows_def)

lemma find_append: "find P (xs @ ys) = (case find P xs of None \<Rightarrow> find P ys | Some x \<Rightarrow> Some x)"
  by (induction xs) auto

lemma GetUser_Some: "GetUser s name = Some u \<Longrightarrow> u \<in> set (users s) \<and> a_name u = name"
  by (auto simp: GetUser_def find_Some_iff)

lemma GetUser_None: "GetUser s name = None \<longleftrightarrow> name \<notin> a_name ` set (users s)"
  by (auto simp: GetUser_def find_None_iff)

section \<open>The invariant\<close>

definition disabled :: "accounts \<Rightarrow> string \<Rightarrow> bool" where
  "disabled s name \<longleftrightarrow> (\<exists>u\<in>set (users s). a_name u = name \<and> a_disabled u \<noteq> None)"

definition holders :: "accounts \<Rightarrow> string set" where
  "holders s = t_owner ` set (tokens s) \<union> r_owner ` set (refreshes s)"

definition unique_names :: "accounts \<Rightarrow> bool" where
  "unique_names s \<longleftrightarrow> distinct (map a_name (users s))"

definition kill_inv :: "accounts \<Rightarrow> bool" where
  "kill_inv s \<longleftrightarrow> unique_names s \<and> (\<forall>x\<in>holders s. \<not> disabled s x)"

text \<open>A change that disables nobody and gives new credentials to one owner at most.\<close>

definition credits :: "string option \<Rightarrow> accounts \<Rightarrow> accounts \<Rightarrow> bool" where
  "credits n s s' \<longleftrightarrow> (\<forall>x. disabled s' x \<longrightarrow> disabled s x) \<and> (unique_names s \<longrightarrow> unique_names s') \<and>
     holders s' \<subseteq> holders s \<union> set_option n"

lemma credits_refl [simp]: "credits n s s"
  by (auto simp: credits_def)

lemma credits_trans: "credits n s s' \<Longrightarrow> credits n s' s'' \<Longrightarrow> credits n s s''"
  unfolding credits_def by blast

lemma credits_inv:
  assumes "credits n s s'" "kill_inv s" "\<And>x. n = Some x \<Longrightarrow> \<not> disabled s x"
  shows "kill_inv s'"
  using assms unfolding credits_def kill_inv_def by (auto simp: subset_iff)

lemma GetUser_enabled: "unique_names s \<Longrightarrow> GetUser s name = Some u \<Longrightarrow> disabled s name \<longleftrightarrow> a_disabled u \<noteq> None"
  using GetUser_Some [of s name u] by (auto simp: disabled_def unique_names_def distinct_map inj_on_def)

text \<open>The statements.\<close>

lemma same_tables [simp]:
  "disabled (s\<lparr>tokens := ts\<rparr>) x = disabled s x" "unique_names (s\<lparr>tokens := ts\<rparr>) = unique_names s"
  "disabled (s\<lparr>refreshes := rs\<rparr>) x = disabled s x" "unique_names (s\<lparr>refreshes := rs\<rparr>) = unique_names s"
  "disabled (s\<lparr>sessions := ss\<rparr>) x = disabled s x" "unique_names (s\<lparr>sessions := ss\<rparr>) = unique_names s"
  "disabled (s\<lparr>links := ls\<rparr>) x = disabled s x" "unique_names (s\<lparr>links := ls\<rparr>) = unique_names s"
  "holders (s\<lparr>sessions := ss\<rparr>) = holders s" "holders (s\<lparr>links := ls\<rparr>) = holders s" "holders (s\<lparr>users := us\<rparr>) = holders s"
  by (simp_all add: disabled_def unique_names_def holders_def)

lemma credits_users:
  assumes "\<And>u. a_name (f u) = a_name u" "\<And>u. a_disabled (f u) \<noteq> None \<Longrightarrow> a_disabled u \<noteq> None"
  shows "credits n s (s\<lparr>users := update_rows P f (users s)\<rparr>)"
proof -
  have "map a_name (update_rows P f (users s)) = map a_name (users s)"
    by (rule map_update_rows) (rule assms(1))
  moreover have "disabled s x" if d: "disabled (s\<lparr>users := update_rows P f (users s)\<rparr>) x" for x
  proof -
    obtain u where u: "u \<in> set (users s)" "a_name (if P u then f u else u) = x" "a_disabled (if P u then f u else u) \<noteq> None"
      using d unfolding disabled_def update_rows_def by auto
    then have "a_name u = x" "a_disabled u \<noteq> None"
      using assms by (auto split: if_splits)
    with u(1) show ?thesis unfolding disabled_def by blast
  qed
  ultimately show ?thesis by (simp add: credits_def unique_names_def)
qed

lemma credits_new_user:
  "GetUser s (a_name u) = None \<Longrightarrow> a_disabled u = None \<Longrightarrow> credits n s (s\<lparr>users := users s @ [u]\<rparr>)"
  by (auto simp: credits_def disabled_def unique_names_def GetUser_None)

lemma credits_fewer:
  "t_owner ` set ts \<subseteq> t_owner ` set (tokens s) \<Longrightarrow> r_owner ` set rs \<subseteq> r_owner ` set (refreshes s) \<Longrightarrow>
   credits n s (s\<lparr>tokens := ts, refreshes := rs\<rparr>)"
  "t_owner ` set ts \<subseteq> t_owner ` set (tokens s) \<Longrightarrow> credits n s (s\<lparr>tokens := ts\<rparr>)"
  by (auto simp: credits_def holders_def)

lemma credits_other_tables [simp]: "credits n s (s\<lparr>sessions := x\<rparr>)" "credits n s (s\<lparr>links := y\<rparr>)"
  by (simp_all add: credits_def)

lemma credits_add_token: "add_token s t = Some s' \<Longrightarrow> credits (Some (t_owner t)) s s'"
  by (auto simp: add_token_def credits_def holders_def split: if_splits)

lemma credits_add_refresh: "add_refresh s r = Some s' \<Longrightarrow> credits (Some (r_owner r)) s s'"
  by (auto simp: add_refresh_def credits_def holders_def split: if_splits)

lemma credits_purge: "credits n s (purge_expired s now owner)"
  unfolding purge_expired_def by (rule credits_fewer) auto

lemma credits_create:
  assumes "CreateAccessTokens cr s now owner tok ref h = Some s'"
  shows "credits (Some owner) s s'"
proof -
  obtain s1 s2 where "add_token s (session_token cr now owner tok) = Some s1"
      "add_refresh s1 \<lparr>r_hash = cr_sha cr ref, r_owner = owner, r_expiry = now + minutes 60 * h\<rparr> = Some s2"
      "s' = purge_expired s2 now owner"
    using assms by (auto simp: CreateAccessTokens_def bind_eq_Some_conv)
  then show ?thesis
    using credits_add_token credits_add_refresh credits_purge credits_trans
    by (metis (no_types, lifting) auth_token.select_convs(2) refresh_token.select_convs(2) session_token_def)
qed

lemma credits_mint: "credits (Some owner) s (fst (mint cr cf s now owner td))"
  by (auto simp: mint_def credits_create split: option.split)

lemma credits_lookup: "credits n s (fst (GetUserByToken cr s now token))"
proof -
  have "credits n s (s\<lparr>tokens := update_rows P (\<lambda>t. t\<lparr>t_usage := u\<rparr>) (tokens s)\<rparr>)" for P u
    by (rule credits_fewer(2)) (simp add: image_update_rows [of t_owner])
  then show ?thesis by (simp add: GetUserByToken_def split: option.split)
qed

lemma GetUserByToken_owner: "GetUserByToken cr s now token = (s', Some o') \<Longrightarrow> o' \<in> holders s"
  by (auto simp: GetUserByToken_def find_Some_iff holders_def split: option.splits)

lemma GetUserByRefreshToken_owner: "GetUserByRefreshToken cr s now token = Some o' \<Longrightarrow> o' \<in> holders s"
  by (auto simp: GetUserByRefreshToken_def find_Some_iff holders_def)

lemma resolveIdentity_name: "resolveIdentity cf s owner = Inr i \<Longrightarrow> id_name i = owner"
  by (auto simp: resolveIdentity_def AllCapsIdentity_def BuildIdentity_def split: if_splits option.splits prod.splits)

lemma Identify_credits: "credits n s (fst (Identify cr cf s now header))"
  using credits_lookup [of n s cr now]
  by (auto simp: Identify_def ResolveBearer_def split: option.split prod.split) (metis fst_conv)+

lemma Identify_owner:
  assumes "Identify cr cf s now header = (s', Inr i)" "cf_standalone cf = None"
  shows "id_name i \<in> holders s"
proof -
  obtain token o' where "GetUserByToken cr s now token = (s', Some o')" "resolveIdentity cf s' o' = Inr i"
    using assms by (auto simp: Identify_def ResolveBearer_def split: option.splits prod.splits)
  then show ?thesis
    using GetUserByToken_owner resolveIdentity_name by metis
qed

text \<open>A handler of an identified owner.\<close>

lemma credits_with_owner:
  assumes "kill_inv s" "cf_standalone cf = None" "\<And>s1 owner. credits (Some owner) s1 (fst (f s1 owner))"
  shows "kill_inv (fst (with_owner cr cf s now header f))"
proof -
  obtain s' r where e: "Identify cr cf s now header = (s', r)" by fastforce
  have s': "kill_inv s'"
    using credits_inv [OF Identify_credits [of None s cr cf now header] assms(1)] e by simp
  show ?thesis
  proof (cases r)
    case (Inr i)
    from Identify_owner [OF e [unfolded Inr] assms(2)] have "\<not> disabled s (id_name i)" "credits None s s'"
      using assms(1) Identify_credits [of None s cr cf now header] e by (auto simp: kill_inv_def)
    then have "\<not> disabled s' (id_name i)" by (auto simp: credits_def)
    then have "kill_inv (fst (f s' (id_name i)))"
      by (intro credits_inv [OF assms(3) s']) auto
    then show ?thesis using e Inr by (simp add: with_owner_def)
  qed (use e s' in \<open>simp add: with_owner_def\<close>)
qed

section \<open>Every request keeps the invariant\<close>

lemma kill_inv_same: "credits None s s' \<Longrightarrow> kill_inv s \<Longrightarrow> kill_inv s'"
  by (auto intro: credits_inv)

lemma Login_inv:
  assumes "kill_inv s"
  shows "kill_inv (fst (Login cr cf s now c td salt))"
proof (cases "cf_oidc cf \<or> GetUser s (c_user c) = None")
  case True then show ?thesis using assms by (auto simp: Login_def split: option.splits)
next
  case False
  then obtain u where u: "GetUser s (c_user c) = Some u" and l: "\<not> cf_oidc cf" by auto
  obtain s1 ds' where r: "rehash cr s u (c_pw c) salt = (s1, ds')" by fastforce
  have s1: "credits None s s1"
    using r by (auto simp: rehash_def UpgradeArgonVersion_def intro!: credits_users split: if_splits)
  have k1: "kill_inv s1" by (rule kill_inv_same [OF s1 assms])
  show ?thesis
  proof (cases "a_disabled u")
    case None
    then have "\<not> disabled s (c_user c)" using GetUser_enabled u assms by (simp add: kill_inv_def)
    then have "\<not> disabled s1 (c_user c)" using s1 by (auto simp: credits_def)
    then have "kill_inv (fst (mint cr cf s1 now (c_user c) td))"
      by (intro credits_inv [OF credits_mint k1]) auto
    then show ?thesis using assms u r l by (auto simp: Login_def split: prod.split)
  qed (use assms u l in \<open>auto simp: Login_def split: prod.split\<close>)
qed

lemma Register_inv:
  assumes "kill_inv s"
  shows "kill_inv (fst (Register_account cr cf s now c td salt))"
proof -
  obtain s1 ok where e: "CreateUser cr s (c_user c) (c_pw c) salt = (s1, ok)" by fastforce
  have c1: "credits None s s1"
    using e credits_new_user [of s "\<lparr>a_name = c_user c, a_hash = HashPasswordWithVersion cr salt (c_pw c) 2, a_salt = salt,
        a_argon = 2, a_role = ''full'', a_caps = Some (JObj []), a_disabled = None\<rparr>"]
    by (auto simp: CreateUser_def InsertUser_def split: if_splits)
  note k1 = kill_inv_same [OF c1 assms]
  have "kill_inv (fst (mint cr cf s1 now (c_user c) td))" if ok
  proof -
    have "GetUser s (c_user c) = None" using e that by (auto simp: CreateUser_def InsertUser_def split: if_splits)
    then have "\<not> disabled s (c_user c)" by (force simp: GetUser_None disabled_def)
    then have "\<not> disabled s1 (c_user c)" using c1 by (auto simp: credits_def)
    then show ?thesis by (intro credits_inv [OF credits_mint k1]) auto
  qed
  then show ?thesis using assms k1 e by (auto simp: Register_account_def split: option.split bool.split)
qed

lemma resolveIdentity_enabled:
  "cf_usermodel cf \<Longrightarrow> resolveIdentity cf s owner = Inr i \<Longrightarrow> unique_names s \<Longrightarrow> \<not> disabled s owner"
  using GetUser_enabled [of s owner] by (auto simp: resolveIdentity_def split: option.splits if_splits)

lemma IdentifyFromCookie_enabled:
  assumes "IdentifyFromCookie cr cf s now cookies = Inr i" "kill_inv s" "\<not> cf_oidc cf \<or> cf_usermodel cf"
  shows "\<not> disabled s (id_name i)"
proof -
  obtain c where c: "ResolveCookie cr cf s now c = Inr i"
    using assms(1) by (auto simp: IdentifyFromCookie_def split: option.splits)
  then obtain owner where o: "resolveIdentity cf s owner = Inr i"
      "\<not> cf_oidc cf \<Longrightarrow> GetUserByRefreshToken cr s now c = Some owner"
    by (auto simp: ResolveCookie_def resolveOIDCSession_def split: if_splits option.splits)
  show ?thesis
  proof (cases "cf_usermodel cf")
    case True
    then show ?thesis
      using resolveIdentity_enabled [OF _ o(1)] resolveIdentity_name [OF o(1)] assms(2) by (auto simp: kill_inv_def)
  next
    case False
    then have "owner \<in> holders s" using assms(3) o(2) GetUserByRefreshToken_owner by auto
    then show ?thesis using assms(2) resolveIdentity_name [OF o(1)] by (auto simp: kill_inv_def)
  qed
qed

lemma credits_tryRotate: "credits n s (tryRotateOIDCSession cr cf s now cookies)"
  by (simp add: tryRotateOIDCSession_def RotateOIDCSession_def split: option.split prod.split)

lemma credits_OIDCAccess: "CreateOIDCAccessToken cr s now owner raw = Some s' \<Longrightarrow> credits (Some owner) s s'"
  unfolding CreateOIDCAccessToken_def by (drule credits_add_token) (simp add: session_token_def)

lemma RefreshToken_inv:
  assumes "kill_inv s" "\<not> cf_oidc cf \<or> cf_usermodel cf"
  shows "kill_inv (fst (RefreshToken cr cf s now cookies td))"
proof (cases "IdentifyFromCookie cr cf s now cookies")
  case (Inl e) then show ?thesis using assms by (simp add: RefreshToken_def)
next
  case (Inr i)
  let ?s1 = "tryRotateOIDCSession cr cf s now cookies"
  have n: "\<not> disabled s (id_name i)" by (rule IdentifyFromCookie_enabled [OF Inr assms])
  then have "kill_inv (fst (mint cr cf s now (id_name i) td))"
    by (intro credits_inv [OF credits_mint assms(1)]) auto
  moreover have "kill_inv ?s1"
    by (rule kill_inv_same [OF credits_tryRotate assms(1)])
  moreover have "kill_inv s2" if "CreateOIDCAccessToken cr ?s1 now (id_name i) (fst td) = Some s2" for s2
    using credits_trans [OF credits_tryRotate credits_OIDCAccess [OF that]] n
    by (intro credits_inv [OF _ assms(1)]) auto
  ultimately show ?thesis using Inr assms(2)
    by (cases "mint cr cf s now (id_name i) td") (auto simp: RefreshToken_def Let_def split: sum.split option.split)
qed

lemma Logout_inv:
  assumes "kill_inv s"
  shows "kill_inv (fst (Logout cr cf s now header cookies))"
proof -
  have d: "credits None s (DeleteUserSessionTokens s x)" for x
    unfolding DeleteUserSessionTokens_def by (rule credits_fewer(1)) auto
  have t: "credits None s (fst (DeleteTokens cr s x y))" for x y
    unfolding DeleteTokens_def fst_conv by (rule credits_fewer(1)) auto
  have o: "credits None s (DeleteOIDCSession cr s' raw)" if "credits None s s'" for s' raw
    using that unfolding DeleteOIDCSession_def by (rule credits_trans) (rule credits_other_tables)
  have p: "credits None s (fst (case DeleteTokens cr s x y of (s1, n) \<Rightarrow> if n < 2 then (s1, Inl e) else (s1, Inr r)))" for x y e r
    using t [of x y] by (cases "DeleteTokens cr s x y") simp
  have "credits None s (fst (Logout cr cf s now header cookies))"
    by (auto simp: Logout_def p intro!: o d split: option.split)
  then show ?thesis using assms by (rule kill_inv_same)
qed

lemma credits_InsertAPIToken: "InsertAPIToken cr s owner x n = Some s' \<Longrightarrow> credits (Some owner) s s'"
  unfolding InsertAPIToken_def by (drule credits_add_token) simp

lemma credits_DeleteAuthToken: "credits n s (DeleteAuthToken s i owner)"
  unfolding DeleteAuthToken_def by (rule credits_fewer(2)) auto

lemma credits_UpdateTokenMetadata: "credits n s (UpdateTokenMetadata s owner i name)"
  unfolding UpdateTokenMetadata_def by (rule credits_fewer(2)) (simp add: image_update_rows [of t_owner])

lemma credits_ChangePasswordAndRevoke: "credits n s (ChangePasswordAndRevoke cr s name h salt tok)"
proof -
  let ?s1 = "s\<lparr>users := update_rows (\<lambda>u. a_name u = name) (\<lambda>u. u\<lparr>a_hash := h, a_salt := salt, a_argon := 2\<rparr>) (users s)\<rparr>"
  have u: "credits n s ?s1"
    by (rule credits_users) auto
  have "credits n ?s1 (?s1\<lparr>tokens := delete_rows P (tokens ?s1), refreshes := delete_rows Q (refreshes ?s1)\<rparr>)" for P Q
    by (rule credits_fewer(1)) auto
  note credits_trans [OF u this]
  moreover have "ChangePasswordAndRevoke cr s name h salt tok =
      ?s1\<lparr>tokens := delete_rows (\<lambda>t. t_owner t = name \<and> t_hash t \<noteq> cr_sha cr tok \<and> t_expiry t \<noteq> None) (tokens ?s1),
        refreshes := delete_rows (\<lambda>r. r_owner r = name) (refreshes ?s1)\<rparr>"
    by (cases s) (simp add: ChangePasswordAndRevoke_def)
  ultimately show ?thesis by simp
qed

lemma CreateAPIToken_inv:
  "kill_inv s \<Longrightarrow> cf_standalone cf = None \<Longrightarrow> kill_inv (fst (CreateAPIToken cr cf s now header name raw))"
  unfolding CreateAPIToken_def
  by (rule credits_with_owner) (auto split: option.split dest: credits_InsertAPIToken)

lemma ListAPITokens_inv:
  "kill_inv s \<Longrightarrow> cf_standalone cf = None \<Longrightarrow> kill_inv (fst (ListAPITokens cr cf s now header))"
  unfolding ListAPITokens_def by (rule credits_with_owner) auto

lemma DeleteToken_inv:
  "kill_inv s \<Longrightarrow> cf_standalone cf = None \<Longrightarrow> kill_inv (fst (DeleteToken cr cf s now header i))"
  unfolding DeleteToken_def by (rule credits_with_owner) (auto intro: credits_DeleteAuthToken)

lemma UpdateToken_inv:
  "kill_inv s \<Longrightarrow> cf_standalone cf = None \<Longrightarrow> kill_inv (fst (UpdateToken cr cf s now header i name))"
  unfolding UpdateToken_def by (rule credits_with_owner) (auto intro: credits_UpdateTokenMetadata)

lemma ChangePassword_inv:
  "kill_inv s \<Longrightarrow> cf_standalone cf = None \<Longrightarrow> kill_inv (fst (ChangePassword cr cf s now header cur new salt))"
  unfolding ChangePassword_def
  by (rule credits_with_owner) (auto simp: Let_def split: option.split intro: credits_ChangePasswordAndRevoke)

lemma UnlinkIdentity_inv:
  "kill_inv s \<Longrightarrow> cf_standalone cf = None \<Longrightarrow> kill_inv (fst (UnlinkIdentity cr cf s now header p))"
  unfolding UnlinkIdentity_def
  by (rule credits_with_owner) (auto simp: DeleteExternalIdentity_def split: option.split)

lemma SetUserDisabled_inv:
  assumes "kill_inv s"
  shows "kill_inv (fst (SetUserDisabled s now name d))"
proof (cases d)
  case False
  have "credits None s (fst (SetUserDisabled s now name d))"
    using False by (auto simp: SetUserDisabled_def intro!: credits_users)
  then show ?thesis by (rule kill_inv_same) (rule assms)
next
  case True
  let ?u = "update_rows (\<lambda>u. a_name u = name) (\<lambda>u. u\<lparr>a_disabled := Some now\<rparr>) (users s)"
  let ?s = "fst (SetUserDisabled s now name d)"
  have "unique_names ?s"
    using assms True map_update_rows [of a_name _ "\<lambda>u. a_name u = name" "users s"]
    by (simp add: SetUserDisabled_def kill_inv_def unique_names_def)
  moreover have "disabled s x" if "disabled ?s x" "x \<in> holders ?s" for x
    using that True by (auto simp: disabled_def holders_def SetUserDisabled_def update_rows_def split: if_splits)
  moreover have "holders ?s \<subseteq> holders s"
    by (auto simp: holders_def SetUserDisabled_def)
  ultimately show ?thesis using assms by (auto simp: kill_inv_def)
qed

lemma credits_SetUserRole: "credits n s (fst (SetUserRole s name role))"
  by (auto simp: SetUserRole_def intro!: credits_users)

lemma credits_returning: "credits n s (returning_login s now name t role)"
  using credits_trans [OF credits_SetUserRole credits_other_tables(2)]
  by (auto simp: returning_login_def TouchExternalIdentity_def Let_def split: option.split)

lemma credits_Provision:
  assumes "ProvisionOIDCUser s now preferred p sub email role = Some (s', name)"
  shows "credits n s s'"
proof -
  obtain s1 where "GetUser s name = None" "s1 = s\<lparr>users := users s @ [oidc_account name role]\<rparr>"
      "LinkExternalIdentity s1 now name p sub email = Some s'"
    using assms by (auto simp: ProvisionOIDCUser_def find_Some_iff split: option.splits)
  then show ?thesis
    using credits_new_user [of s "oidc_account name role" n] credits_trans [OF _ credits_other_tables(2)]
    by (auto simp: oidc_account_def LinkExternalIdentity_def split: if_splits)
qed

lemma credits_resolveOrProvision: "credits n s (fst (resolveOrProvision rs s now t role))"
  by (auto simp: resolveOrProvision_def Let_def credits_returning credits_Provision split: option.split)

lemma credits_CreateOIDCSession: "CreateOIDCSession cr s raw name e enc = Some s' \<Longrightarrow> credits n s s'"
  by (auto simp: CreateOIDCSession_def split: if_splits)

lemma credits_HandleCallback: "credits n s (fst (HandleCallback cr cf rs s now c nonce sid))"
proof (cases "exchangeAndVerify rs c nonce")
  case (Inr t)
  obtain s1 r where e: "resolveOrProvision rs s now t (RoleFromGroups (it_groups t) (rs_groupToRole rs)) = (s1, r)" by fastforce
  then have "credits n s s1" using credits_resolveOrProvision by (metis fst_conv)
  then show ?thesis
    using Inr e credits_trans [OF _ credits_CreateOIDCSession]
    by (auto simp: HandleCallback_def Let_def split: sum.split option.split)
qed (simp add: HandleCallback_def)

lemma credits_HandleLink: "credits n s (fst (HandleLink rs s now c cur nonce))"
  by (auto simp: HandleLink_def LinkExternalIdentity_def split: sum.split option.split)

lemma credits_Callback: "credits n s (fst (CallbackOIDC cr cf s m now cb sid))"
proof (cases "cf_resolver cf")
  case (Some rs)
  obtain m1 i where t: "takeLinkIntent m now (cb_state cb) = (m1, i)" by fastforce
  define nonce where "nonce = (case cb_nonce_cookie cb of None \<Rightarrow> [] | Some v \<Rightarrow> v)"
  define s1 where "s1 = (\<lambda>x. fst (HandleLink rs s now (cb_code cb) x nonce))"
  define e where "e = (\<lambda>x. snd (HandleLink rs s now (cb_code cb) x nonce))"
  have l: "HandleLink rs s now (cb_code cb) x nonce = (s1 x, e x)" for x
    by (simp add: s1_def e_def)
  obtain s2 r where h: "HandleCallback cr cf rs s now (cb_code cb) nonce sid = (s2, r)" by fastforce
  have "credits n s (s1 x)" for x using l credits_HandleLink by (metis fst_conv)
  moreover have "credits n s s2" using h credits_HandleCallback by (metis fst_conv)
  ultimately show ?thesis
    using Some t l h
    by (auto simp: CallbackOIDC_def Let_def nonce_def [symmetric] split: option.split sum.split api_error.split prod.split)
qed (simp add: CallbackOIDC_def)

lemma serve_inv:
  assumes "kill_inv (sv_db sv)" "cf_standalone cf = None" "\<not> cf_oidc cf \<or> cf_usermodel cf"
  shows "kill_inv (sv_db (serve cr cf now req sv))"
proof (cases req)
  case (ReqCallback cb sid)
  have "kill_inv (fst (CallbackOIDC cr cf (sv_db sv) (sv_intents sv) now cb sid))"
    by (rule kill_inv_same [OF credits_Callback assms(1)])
  then show ?thesis using ReqCallback by (auto split: prod.split)
next
  case (AdminRole name role)
  then show ?thesis using kill_inv_same [OF credits_SetUserRole assms(1)] assms(1) by (simp add: on_db_def)
qed (use assms in \<open>simp_all add: on_db_def Login_inv Register_inv RefreshToken_inv Logout_inv CreateAPIToken_inv
  ListAPITokens_inv DeleteToken_inv UpdateToken_inv ChangePassword_inv UnlinkIdentity_inv SetUserDisabled_inv\<close>)

lemma served_inv:
  assumes "served cr cf sv sv'" "kill_inv (sv_db sv)" "cf_standalone cf = None" "\<not> cf_oidc cf \<or> cf_usermodel cf"
  shows "kill_inv (sv_db sv')"
  using assms by induction (auto intro: serve_inv)

end
