(* ===== verification/AccountProps.thy ===== *)
theory AccountProps
  imports AccountKill
begin

text \<open>
  The properties of the account endpoints: the kill switch and its gap, the login, the password
  change, the first login over OIDC and the unlinking of an identity.
\<close>

section \<open>A library for the witnesses\<close>

text \<open>A stand-in for the cryptographic library that computes; ASCII letters and digits.\<close>

definition plain_crypto :: crypto where
  "plain_crypto = \<lparr>cr_sha = (\<lambda>s. s), cr_base64 = (\<lambda>s. s), cr_argon = (\<lambda>_ pw salt. CHR ''#'' # pw @ salt),
     cr_encrypt = Some, cr_decrypt = Some, cr_runes = map code,
     cr_letter = (\<lambda>n. 97 \<le> n \<and> n \<le> 122), cr_digit = (\<lambda>n. 48 \<le> n \<and> n \<le> 57)\<rparr>"

definition local_config :: config where
  "local_config = \<lparr>cf_oidc = False, cf_resolver = None, cf_usermodel = False, cf_registration = True,
     cf_session_hours = 24, cf_standalone = None\<rparr>"

definition no_accounts :: accounts where
  "no_accounts = \<lparr>users = [], tokens = [], refreshes = [], sessions = [], links = []\<rparr>"

definition ada :: server where
  "ada = serve plain_crypto local_config 0 (ReqRegister \<lparr>c_user = ''ada'', c_pw = ''passw0rd''\<rparr> (''tok'', ''ref'') ''s'')
     \<lparr>sv_db = no_accounts, sv_intents = []\<rparr>"

lemma ada_db: "sv_db ada = \<lparr>users = [\<lparr>a_name = ''ada'', a_hash = ''#passw0rds'', a_salt = ''s'', a_argon = 2, a_role = ''full'',
      a_caps = Some (JObj []), a_disabled = None\<rparr>],
      tokens = [\<lparr>t_hash = ''tok'', t_owner = ''ada'', t_expiry = Some (minutes 30), t_name = None, t_usage = None\<rparr>],
      refreshes = [\<lparr>r_hash = ''ref'', r_owner = ''ada'', r_expiry = minutes 1440\<rparr>], sessions = [], links = []\<rparr>"
  by (simp add: ada_def on_db_def Register_account_def local_config_def policy_def ValidatePassword_def plain_crypto_def MinPasswordLen_def code_def
    ValidateUsername_def MaxUsernameLen_def name_char_def CreateUser_def InsertUser_def GetUser_def no_accounts_def HashPasswordWithVersion_def mint_def
    CreateAccessTokens_def add_token_def session_token_def add_refresh_def purge_expired_def delete_rows_def minutes_def)

section \<open>The kill switch\<close>

lemma Identify_enabled:
  assumes "snd (Identify cr cf s now header) = Inr i" "kill_inv s" "cf_standalone cf = None"
  shows "\<not> disabled s (id_name i)"
  using Identify_owner [of cr cf s now header] assms by (cases "Identify cr cf s now header") (auto simp: kill_inv_def)

lemma Login_disabled:
  assumes "disabled s (c_user c)" "unique_names s"
  shows "\<exists>e ds. Login cr cf s now c td salt = (s, Inl e, ds)"
proof (cases "GetUser s (c_user c)")
  case (Some u)
  then have "a_disabled u \<noteq> None" using assms GetUser_enabled by blast
  then show ?thesis
    using Some by (cases "VerifyPasswordWithVersion cr (c_pw c) (a_hash u) (a_salt u) (a_argon u)") (auto simp: Login_def)
qed (simp add: Login_def)


lemma no_accounts_inv: "kill_inv no_accounts"
  by (simp add: kill_inv_def holders_def no_accounts_def unique_names_def)


text \<open>Under OIDC with the user model off the login path does not look at the flag.\<close>

lemma resolveIdentity_off: "\<not> cf_usermodel cf \<Longrightarrow> resolveIdentity cf s owner = Inr (AllCapsIdentity owner)"
  by (simp add: resolveIdentity_def)

lemma find_fresh: "\<not> list_ex P xs \<Longrightarrow> P x \<Longrightarrow> find P (xs @ [x]) = Some x"
  by (induction xs) auto

lemma disabled_cong: "map a_name (users s) = map a_name (users s') \<Longrightarrow> map a_disabled (users s) = map a_disabled (users s') \<Longrightarrow>
  disabled s x = disabled s' x"
proof -
  have "disabled s x \<longleftrightarrow> (\<exists>p\<in>set (zip (map a_name (users s)) (map a_disabled (users s))). fst p = x \<and> snd p \<noteq> None)" for s :: accounts
    by (simp add: disabled_def zip_map_map zip_same_conv_map)
  then show "map a_name (users s) = map a_name (users s') \<Longrightarrow> map a_disabled (users s) = map a_disabled (users s') \<Longrightarrow> ?thesis"
    by metis
qed

lemma returning_login_rows:
  "map a_name (users (returning_login s now name t role)) = map a_name (users s)"
  "map a_disabled (users (returning_login s now name t role)) = map a_disabled (users s)"
  "sessions (returning_login s now name t role) = sessions s"
  by (auto simp: returning_login_def TouchExternalIdentity_def SetUserRole_def Let_def map_update_rows split: option.split)

text \<open>
  C21 The gap of the kill switch. Under OIDC with the user model off (the default), a returning login of
  a linked account succeeds although the account is disabled, and stays so: the callback starts a
  session, and until it expires its cookie resolves to the account with every known capability.
\<close>

theorem disabled_account_signs_in:
  assumes "\<not> cf_usermodel cf" "cf_oidc cf" "exchangeAndVerify rs auth_code nonce = Inr t"
    and "GetUserByExternalIdentity s OIDCProviderName (it_sub t) = Some name" "disabled s name"
    and "it_expiry t > now'" "\<not> time_is_zero (it_expiry t)" "\<forall>x\<in>set (sessions s). s_hash x \<noteq> cr_sha cr sid"
  shows "\<exists>s'. HandleCallback cr cf rs s now auth_code nonce sid = (s', Inr (AllCapsIdentity name, sid, it_expiry t)) \<and>
    disabled s' name \<and> ResolveCookie cr cf s' now' sid = Inr (AllCapsIdentity name) \<and>
    (\<forall>c. KnownCapability c \<longrightarrow> Can (AllCapsIdentity name) c)"
proof -
  define s1 where "s1 = returning_login s now name t (RoleFromGroups (it_groups t) (rs_groupToRole rs))"
  define enc where "enc = (if it_refresh t = [] then None else cr_encrypt cr (it_refresh t))"
  define x where "x = \<lparr>s_hash = cr_sha cr sid, s_user = name, s_expiry = it_expiry t, s_refresh = enc\<rparr>"
  define s2 where "s2 = s1\<lparr>sessions := sessions s @ [x]\<rparr>"
  have c: "CreateOIDCSession cr s1 sid name (it_expiry t) enc = Some s2"
    using assms(8) by (auto simp: CreateOIDCSession_def s1_def returning_login_rows s2_def x_def list_ex_iff)
  have "HandleCallback cr cf rs s now auth_code nonce sid = (s2, Inr (AllCapsIdentity name, sid, it_expiry t))"
    using assms(1,3,4,7) c [unfolded s1_def enc_def]
    by (auto simp: HandleCallback_def resolveOrProvision_def Let_def resolveIdentity_off)
  moreover have "disabled s2 name"
    using assms(5) disabled_cong [of s1 s name] by (simp add: s2_def s1_def returning_login_rows)
  moreover have "ResolveCookie cr cf s2 now' sid = Inr (AllCapsIdentity name)"
    using assms(1,2,6,8) find_fresh [of "\<lambda>y. s_hash y = cr_sha cr sid \<and> s_expiry y > now'" "sessions s" x]
    by (auto simp: ResolveCookie_def resolveOIDCSession_def GetOIDCSessionUser_def live_session_def s2_def
      x_def resolveIdentity_off list_ex_iff)
  ultimately show ?thesis by (auto simp: Can_def AllCapsIdentity_def)
qed

definition idp_token :: id_token where
  "idp_token = \<lparr>it_sub = ''sub'', it_email = ''eve@x'', it_preferred = ''eve'', it_groups = [], it_nonce = ''n'',
     it_expiry = minutes 5, it_refresh = []\<rparr>"

definition idp :: resolver where
  "idp = \<lparr>rs_exchange = (\<lambda>_. Some idp_token), rs_refresh = (\<lambda>_. None), rs_groupToRole = (\<lambda>_. None), rs_autoprovision = True\<rparr>"

definition oidc_config :: config where
  "oidc_config = local_config\<lparr>cf_oidc := True, cf_resolver := Some idp\<rparr>"

definition disabled_eve :: accounts where
  "disabled_eve = no_accounts\<lparr>users := [(oidc_account ''eve'' ''light'')\<lparr>a_disabled := Some 0\<rparr>],
     links := [\<lparr>x_user = ''eve'', x_provider = OIDCProviderName, x_sub = ''sub'', x_email = [], x_created = 0, x_seen = 0\<rparr>]\<rparr>"

lemma idp_exchange: "exchangeAndVerify idp c ''n'' = Inr idp_token"
  by (simp add: exchangeAndVerify_def idp_def idp_token_def)

theorem disabled_account_signs_in_witness:
  "\<exists>s'. HandleCallback plain_crypto oidc_config idp disabled_eve 0 ''c'' ''n'' ''sid'' =
       (s', Inr (AllCapsIdentity ''eve'', ''sid'', minutes 5)) \<and> disabled s' ''eve''"
proof -
  have "\<not> cf_usermodel oidc_config" "cf_oidc oidc_config"
    by (simp_all add: oidc_config_def local_config_def)
  moreover have "GetUserByExternalIdentity disabled_eve OIDCProviderName (it_sub idp_token) = Some ''eve''"
    "disabled disabled_eve ''eve''" "it_expiry idp_token > 1" "\<not> time_is_zero (it_expiry idp_token)"
    "it_expiry idp_token = minutes 5" "\<forall>x\<in>set (sessions disabled_eve). s_hash x \<noteq> cr_sha plain_crypto ''sid''"
    by (simp_all add: GetUserByExternalIdentity_def disabled_eve_def idp_token_def no_accounts_def disabled_def oidc_account_def
      minutes_def time_is_zero_def zero_time_def)
  ultimately show ?thesis
    using disabled_account_signs_in [OF _ _ idp_exchange [of "''c''"], where cf = oidc_config and s = disabled_eve and
      name = "''eve''" and now' = 1 and cr = plain_crypto and sid = "''sid''" and now = 0]
    by auto
qed

section \<open>Login\<close>

definition verifies :: "crypto \<Rightarrow> account \<Rightarrow> string \<Rightarrow> bool" where
  "verifies cr u pw \<longleftrightarrow> a_hash u \<noteq> [] \<and> cr_argon cr (argonParamsFor (normalizeArgonVersion (a_argon u))) pw (a_salt u) = a_hash u"

lemma verify_is:
  "VerifyPasswordWithVersion cr pw (a_hash u) (a_salt u) (a_argon u) = (verifies cr u pw, BurnSentinelVerify)"
  by (auto simp: VerifyPasswordWithVersion_def verifies_def BurnSentinelVerify_def argonLiveVersions_def
    normalizeArgonVersion_def Let_def)

lemma verifies_new:
  "cr_argon cr (argonParamsFor 2) pw salt \<noteq> [] \<Longrightarrow>
   verifies cr (u\<lparr>a_hash := HashPasswordWithVersion cr salt pw 2, a_salt := salt, a_argon := 2\<rparr>) pw"
  by (simp add: verifies_def HashPasswordWithVersion_def normalizeArgonVersion_def argonLiveVersions_def)

lemma GetUser_update:
  "(\<And>u. a_name (f u) = a_name u) \<Longrightarrow>
   GetUser (s\<lparr>users := update_rows P f (users s)\<rparr>) x = map_option (\<lambda>u. if P u then f u else u) (GetUser s x)"
  by (simp add: GetUser_def find_update)

lemma find_delete_new:
  "\<not> list_ex P xs \<Longrightarrow> P x \<Longrightarrow> \<not> D x \<Longrightarrow> find P (delete_rows D (xs @ [x])) = Some x"
  by (induction xs) (auto simp: delete_rows_def)

lemma CreateAccessTokens_users: "CreateAccessTokens cr s now owner tok ref h = Some s' \<Longrightarrow> users s' = users s"
  by (auto simp: CreateAccessTokens_def bind_eq_Some_conv add_token_def add_refresh_def purge_expired_def split: if_splits)

lemma CreateAccessTokens_live:
  assumes "CreateAccessTokens cr s now owner tok ref h = Some s'" "now \<le> t"
  shows "t < now + minutes 30 \<Longrightarrow> snd (GetUserByToken cr s' t tok) = Some owner"
    and "t < now + minutes 60 * h \<Longrightarrow> GetUserByRefreshToken cr s' t ref = Some owner"
proof -
  define x where "x = session_token cr now owner tok"
  define r where "r = \<lparr>r_hash = cr_sha cr ref, r_owner = owner, r_expiry = now + minutes 60 * h\<rparr>"
  have n: "\<not> list_ex (\<lambda>y. t_hash y = cr_sha cr tok) (tokens s)" "\<not> list_ex (\<lambda>y. r_hash y = cr_sha cr ref) (refreshes s)"
    and s': "s' = purge_expired (s\<lparr>tokens := tokens s @ [x], refreshes := refreshes s @ [r]\<rparr>) now owner"
    using assms(1) by (auto simp: CreateAccessTokens_def bind_eq_Some_conv add_token_def add_refresh_def x_def r_def
      session_token_def split: if_splits)
  have "find (\<lambda>y. t_hash y = cr_sha cr tok \<and> token_live t y) (tokens s') = Some x" if "t < now + minutes 30"
    unfolding s' purge_expired_def using n that assms(2)
    by simp (rule find_delete_new, auto simp: list_ex_iff x_def session_token_def token_live_def)
  then show "t < now + minutes 30 \<Longrightarrow> snd (GetUserByToken cr s' t tok) = Some owner"
    by (simp add: GetUserByToken_def x_def session_token_def)
  have "find (\<lambda>y. r_hash y = cr_sha cr ref \<and> r_expiry y > t) (refreshes s') = Some r" if "t < now + minutes 60 * h"
    unfolding s' purge_expired_def using n that assms(2)
    by simp (rule find_delete_new, auto simp: list_ex_iff r_def)
  then show "t < now + minutes 60 * h \<Longrightarrow> GetUserByRefreshToken cr s' t ref = Some owner"
    by (simp add: GetUserByRefreshToken_def r_def)
qed

lemma rehash_user:
  assumes "rehash cr s u pw salt = (s1, ds)" "GetUser s name = Some u" "verifies cr u pw"
    and "cr_argon cr (argonParamsFor 2) pw salt \<noteq> []"
  shows "\<exists>u'. GetUser s1 name = Some u' \<and> a_disabled u' = a_disabled u \<and> verifies cr u' pw \<and> 2 \<le> a_argon u'"
    and "x \<noteq> name \<Longrightarrow> GetUser s1 x = GetUser s x"
proof -
  have n: "a_name u = name" using assms(2) GetUser_Some by blast
  show "\<exists>u'. GetUser s1 name = Some u' \<and> a_disabled u' = a_disabled u \<and> verifies cr u' pw \<and> 2 \<le> a_argon u'"
    using assms verifies_new [OF assms(4)] n
    by (auto simp: rehash_def UpgradeArgonVersion_def GetUser_update split: if_splits)
  show "GetUser s1 x = GetUser s x" if "x \<noteq> name"
    using assms(1) n that GetUser_Some [of s x]
    by (cases "GetUser s x") (auto simp: rehash_def UpgradeArgonVersion_def GetUser_update split: if_splits)
qed

lemma GetUser_users: "users s' = users s \<Longrightarrow> GetUser s' x = GetUser s x"
  by (simp add: GetUser_def)

lemma lookup_users: "users (fst (GetUserByToken cr s now token)) = users s"
  by (simp add: GetUserByToken_def split: option.split)

lemma resolveIdentity_live:
  assumes "GetUser s name = Some u" "a_disabled u = None"
  shows "\<exists>i. resolveIdentity cf s name = Inr i \<and> id_name i = name"
  using assms by (auto simp: resolveIdentity_def AllCapsIdentity_def BuildIdentity_def split: prod.split)



end
