(* ===== verification/AccountChange.thy ===== *)
theory AccountChange
  imports AccountProps
begin

text \<open>
  Changes of what signs an account in: the password, and the identities linked to it.
\<close>

section \<open>The password\<close>

text \<open>The columns of a token that say what it opens.\<close>

definition token_key :: "auth_token \<Rightarrow> string \<times> string \<times> gotime option" where
  "token_key t = (t_hash t, t_owner t, t_expiry t)"

text \<open>The credential tables, but for the columns of the last use and of the name.\<close>

definition credentials :: "accounts \<Rightarrow> account list \<times> (string \<times> string \<times> gotime option) list \<times> refresh_token list \<times>
    oidc_session list \<times> ext_identity list" where
  "credentials s = (users s, map token_key (tokens s), refreshes s, sessions s, links s)"

lemma lookup_credentials: "credentials (fst (GetUserByToken cr s now token)) = credentials s"
  by (simp add: GetUserByToken_def credentials_def map_update_rows [of token_key] token_key_def split: option.split)

lemma Identify_credentials: "Identify cr cf s now header = (s', r) \<Longrightarrow> credentials s' = credentials s"
  using lookup_credentials [of cr s now]
  by (auto simp: Identify_def ResolveBearer_def split: option.splits prod.splits) (metis fst_conv)+

lemma credentials_tables:
  assumes "credentials s' = credentials s"
  shows "users s' = users s" "refreshes s' = refreshes s" "sessions s' = sessions s" "links s' = links s"
    "token_key ` set (tokens s') = token_key ` set (tokens s)"
proof -
  show "users s' = users s" "refreshes s' = refreshes s" "sessions s' = sessions s" "links s' = links s"
    using assms by (simp_all add: credentials_def)
  have "map token_key (tokens s') = map token_key (tokens s)" using assms by (simp add: credentials_def)
  then show "token_key ` set (tokens s') = token_key ` set (tokens s)" by (metis set_map)
qed

lemma ChangePasswordAndRevoke_rows:
  "refreshes (ChangePasswordAndRevoke cr s name h salt tok) = filter (\<lambda>r. r_owner r \<noteq> name) (refreshes s)"
  "tokens (ChangePasswordAndRevoke cr s name h salt tok) =
     filter (\<lambda>t. t_owner t \<noteq> name \<or> t_hash t = cr_sha cr tok \<or> t_expiry t = None) (tokens s)"
  "GetUser (ChangePasswordAndRevoke cr s name h salt tok) x =
     map_option (\<lambda>u. if x = name then u\<lparr>a_hash := h, a_salt := salt, a_argon := 2\<rparr> else u) (GetUser s x)"
proof -
  show "GetUser (ChangePasswordAndRevoke cr s name h salt tok) x =
     map_option (\<lambda>u. if x = name then u\<lparr>a_hash := h, a_salt := salt, a_argon := 2\<rparr> else u) (GetUser s x)"
    using GetUser_Some [of s x] by (cases "GetUser s x") (auto simp: ChangePasswordAndRevoke_def GetUser_def find_update)
qed (auto simp: ChangePasswordAndRevoke_def delete_rows_def intro!: filter_cong)

text \<open>
  C23 A password change by an authenticated caller. An error leaves every table as it was, but for the
  last use of the bearer. A success has proved the current password, unless the account had none and
  none was given; the new password meets the policy and verifies afterwards; every refresh token of
  the owner and every expiring access token but the caller's own is gone, and what remains is exactly
  the other owners' tokens, the API tokens and the caller's bearer; no other account's row, and no
  other owner's refresh token, is touched.
\<close>

theorem change_password:
  assumes "cf_standalone cf = None" "TokenFromHeader header = Some token"
    and "cr_argon cr (argonParamsFor 2) new salt \<noteq> []"
    and "ChangePassword cr cf s now header cur new salt = (s', r)"
  shows "(\<forall>e. r = Inl e \<longrightarrow> credentials s' = credentials s) \<and>
    (r = Inr () \<longrightarrow> (\<exists>owner u u'.
       snd (GetUserByToken cr s now token) = Some owner \<and>
       GetUser s owner = Some u \<and> (if a_hash u = [] then cur = [] else verifies cr u cur) \<and>
       policy cr new = None \<and> GetUser s' owner = Some u' \<and> verifies cr u' new \<and>
       (\<forall>x. x \<noteq> owner \<longrightarrow> GetUser s' x = GetUser s x) \<and>
       refreshes s' = filter (\<lambda>x. r_owner x \<noteq> owner) (refreshes s) \<and>
       token_key ` set (tokens s') =
         {k \<in> token_key ` set (tokens s). case k of (h, o', e) \<Rightarrow> o' \<noteq> owner \<or> h = cr_sha cr token \<or> e = None}))"
proof -
  obtain s1 q where i: "Identify cr cf s now header = (s1, q)" by fastforce
  note c = Identify_credentials [OF i] and t = credentials_tables [OF Identify_credentials [OF i]]
  show ?thesis
  proof (cases q)
    case (Inl e)
    then have "s' = s1" "r = Inl e" using assms(4) i by (auto simp: ChangePassword_def with_owner_def)
    then show ?thesis using c by simp
  next
    case (Inr d)
    define owner where "owner = id_name d"
    obtain o' where "GetUserByToken cr s now token = (s1, Some o')" "resolveIdentity cf s1 o' = Inr d"
      using i Inr assms(1,2) by (auto simp: Identify_def ResolveBearer_def split: option.splits prod.splits)
    then have b: "snd (GetUserByToken cr s now token) = Some owner" using resolveIdentity_name by (auto simp: owner_def)
    have run: "(if new = [] then (s1, Inl PasswordsRequired)
       else (case current_ok cr (GetUser s1 owner) cur of
           Some e \<Rightarrow> (s1, Inl e)
         | None \<Rightarrow> (case policy cr new of
             Some e \<Rightarrow> (s1, Inl (BadPassword e))
           | None \<Rightarrow> (ChangePasswordAndRevoke cr s1 owner (HashPasswordWithVersion cr salt new 2) salt token, Inr ())))) = (s', r)"
      unfolding owner_def using assms(2,4) i Inr by (simp add: ChangePassword_def with_owner_def Let_def)
    show ?thesis
    proof (cases r)
      case (Inl e)
      then have "s' = s1" using run by (auto split: if_splits option.splits)
      then show ?thesis using c Inl by simp
    next
      case (Inr u0)
      then have ok: "current_ok cr (GetUser s1 owner) cur = None" "policy cr new = None"
          "s' = ChangePasswordAndRevoke cr s1 owner (HashPasswordWithVersion cr salt new 2) salt token"
        using run by (auto split: if_splits option.splits)
      obtain u where u: "GetUser s1 owner = Some u" "if a_hash u = [] then cur = [] else verifies cr u cur"
        using ok(1) by (auto simp: current_ok_def verify_is split: option.splits if_splits)
      note g = GetUser_users [OF t(1)]
      have "token_key ` set (tokens s') =
          {k \<in> token_key ` set (tokens s1). case k of (h, o', e) \<Rightarrow> o' \<noteq> owner \<or> h = cr_sha cr token \<or> e = None}"
        by (auto simp: ok(3) ChangePasswordAndRevoke_rows token_key_def)
      then show ?thesis
        using b u ok(2) Inr verifies_new [OF assms(3), of u] t(2,5) g
        by (auto simp: ok(3) ChangePasswordAndRevoke_rows option.map_ident)
    qed
  qed
qed

theorem change_password_witness:
  "\<exists>s'. ChangePassword plain_crypto local_config (sv_db ada) 5 ''Basic tok'' ''passw0rd'' ''n3wpassword'' ''z'' = (s', Inr ()) \<and>
     refreshes s' = []"
proof -
  let ?c = "ChangePassword plain_crypto local_config (sv_db ada) 5 ''Basic tok'' ''passw0rd'' ''n3wpassword'' ''z''"
  have h: "TokenFromHeader ''Basic tok'' = Some ''tok''" by code_simp
  have "policy plain_crypto ''n3wpassword'' = None"
    by (simp add: policy_def ValidatePassword_def plain_crypto_def MinPasswordLen_def code_def)
  then have "snd ?c = Inr ()"
    by (simp add: ChangePassword_def with_owner_def Identify_def h ResolveBearer_def GetUserByToken_def ada_db local_config_def
      token_live_def minutes_def update_rows_def resolveIdentity_def AllCapsIdentity_def current_ok_def GetUser_def
      VerifyPasswordWithVersion_def argonLiveVersions_def normalizeArgonVersion_def Let_def)
      (simp add: plain_crypto_def)
  then obtain s' where c: "?c = (s', Inr ())" by (metis prod.collapse)
  have "\<exists>owner. refreshes s' = filter (\<lambda>x. r_owner x \<noteq> owner) (refreshes (sv_db ada)) \<and>
      snd (GetUserByToken plain_crypto (sv_db ada) 5 ''tok'') = Some owner"
    using change_password [OF _ h _ c, THEN conjunct2] by (auto simp: local_config_def plain_crypto_def)
  moreover have "snd (GetUserByToken plain_crypto (sv_db ada) 5 ''tok'') = Some ''ada''"
    by (simp add: GetUserByToken_def ada_db plain_crypto_def token_live_def minutes_def)
  ultimately show ?thesis using c by (auto simp: ada_db)
qed

section \<open>Signing in over OIDC\<close>

lemma exchange_verified:
  "exchangeAndVerify rs c nonce = Inr t \<Longrightarrow> rs_exchange rs c = Some t \<and> it_nonce t \<noteq> [] \<and> it_nonce t = nonce \<and> it_sub t \<noteq> []"
  by (auto simp: exchangeAndVerify_def split: option.splits if_splits)

lemma linked_append:
  "GetUserByExternalIdentity s p sub = None \<Longrightarrow> x_provider x = p \<Longrightarrow> x_sub x = sub \<Longrightarrow>
   GetUserByExternalIdentity (s\<lparr>links := links s @ [x]\<rparr>) p sub = Some (x_user x)"
  by (simp add: GetUserByExternalIdentity_def find_append)

lemma LinkExternalIdentity_linked:
  "LinkExternalIdentity s now name p sub email = Some s' \<Longrightarrow>
   GetUserByExternalIdentity s p sub = None \<and> GetUserByExternalIdentity s' p sub = Some name \<and> users s' = users s \<and>
   tokens s' = tokens s \<and> refreshes s' = refreshes s \<and> sessions s' = sessions s \<and>
   (\<exists>x. links s' = links s @ [x] \<and> x_user x = name \<and> x_provider x = p \<and> x_sub x = sub)"
  using linked_append [of s p sub] by (auto simp: LinkExternalIdentity_def split: if_splits)

lemma returning_login_user:
  "x \<noteq> name \<Longrightarrow> GetUser (returning_login s now name t role) x = GetUser s x"
  using GetUser_Some [of s x]
  by (cases "GetUser s x") (auto simp: returning_login_def TouchExternalIdentity_def SetUserRole_def Let_def GetUser_def find_update
    split: option.split)

lemma returning_login_link:
  "GetUserByExternalIdentity (returning_login s now name t role) p sub = GetUserByExternalIdentity s p sub"
  by (auto simp: returning_login_def TouchExternalIdentity_def SetUserRole_def Let_def GetUserByExternalIdentity_def find_update
    option.map_comp comp_def split: option.split intro!: option.map_cong0)

lemma Provision_new:
  assumes "ProvisionOIDCUser s now preferred p sub email role = Some (s', name)"
  shows "GetUser s name = None \<and> GetUserByExternalIdentity s' p sub = Some name \<and> name \<in> set (candidates preferred) \<and>
    (\<forall>x. x \<noteq> name \<longrightarrow> GetUser s' x = GetUser s x)"
proof -
  obtain s1 where n: "find (\<lambda>c. GetUser s c = None) (candidates preferred) = Some name"
      and s1: "s1 = s\<lparr>users := users s @ [oidc_account name role]\<rparr>"
      and l: "LinkExternalIdentity s1 now name p sub email = Some s'"
    using assms by (auto simp: ProvisionOIDCUser_def split: option.splits)
  have "GetUser s1 x = GetUser s x" if "x \<noteq> name" for x
    using that by (simp add: s1 GetUser_def find_append oidc_account_def split: option.split)
  moreover have "GetUser s name = None" "name \<in> set (candidates preferred)"
    using n by (auto simp: find_Some_iff)
  ultimately show ?thesis
    using LinkExternalIdentity_linked [OF l] GetUser_users [of s' s1] by auto
qed

lemma resolveOrProvision_name:
  assumes "resolveOrProvision rs s now t role = (s', Inr name)"
  shows "GetUserByExternalIdentity s' OIDCProviderName (it_sub t) = Some name" and
    "(\<forall>x. x \<noteq> name \<longrightarrow> GetUser s' x = GetUser s x)" and
    "GetUserByExternalIdentity s OIDCProviderName (it_sub t) = Some name \<or>
     GetUserByExternalIdentity s OIDCProviderName (it_sub t) = None \<and> GetUser s name = None \<and> rs_autoprovision rs"
proof -
  have "GetUserByExternalIdentity s' OIDCProviderName (it_sub t) = Some name \<and>
    (\<forall>x. x \<noteq> name \<longrightarrow> GetUser s' x = GetUser s x) \<and>
    (GetUserByExternalIdentity s OIDCProviderName (it_sub t) = Some name \<or>
     GetUserByExternalIdentity s OIDCProviderName (it_sub t) = None \<and> GetUser s name = None \<and> rs_autoprovision rs)"
    using assms Provision_new
    by (auto simp: resolveOrProvision_def Let_def returning_login_user returning_login_link split: option.splits if_splits)
  then show "GetUserByExternalIdentity s' OIDCProviderName (it_sub t) = Some name"
    "(\<forall>x. x \<noteq> name \<longrightarrow> GetUser s' x = GetUser s x)"
    "GetUserByExternalIdentity s OIDCProviderName (it_sub t) = Some name \<or>
     GetUserByExternalIdentity s OIDCProviderName (it_sub t) = None \<and> GetUser s name = None \<and> rs_autoprovision rs"
    by blast+
qed

lemma HandleCallback_signs_in:
  assumes "HandleCallback cr cf rs s now c nonce sid = (s', Inr (i, sid', expiry))"
  shows "\<exists>t s1. exchangeAndVerify rs c nonce = Inr t \<and> sid' = sid \<and>
    resolveOrProvision rs s now t (RoleFromGroups (it_groups t) (rs_groupToRole rs)) = (s1, Inr (id_name i)) \<and>
    users s' = users s1 \<and> links s' = links s1 \<and> (\<exists>x. sessions s' = sessions s1 @ [x] \<and> s_user x = id_name i)"
  using assms resolveIdentity_name
  by (auto simp: HandleCallback_def Let_def CreateOIDCSession_def split: sum.splits prod.splits option.splits if_splits)

text \<open>
  C24 A sign-in over OIDC never takes an account over. When the callback starts a session, the state
  cookie matched, the id token carried the nonce of the browser's flow, no link flow was in flight
  for the state, and the account is the one its subject was already linked to, or one whose name
  nobody had, made under auto-provisioning; afterwards the subject is linked to it, and every
  other account is as it was.
\<close>

theorem oidc_sign_in:
  assumes "CallbackOIDC cr cf s m now cb sid = (s', m', SessionStarted i sid' expiry)" "cf_resolver cf = Some rs"
  shows "\<exists>t. rs_exchange rs (cb_code cb) = Some t \<and> it_nonce t \<noteq> [] \<and> cb_nonce_cookie cb = Some (it_nonce t) \<and>
    cb_state cb \<noteq> [] \<and> cb_state_cookie cb = Some (cb_state cb) \<and> snd (takeLinkIntent m now (cb_state cb)) = None \<and>
    (GetUserByExternalIdentity s OIDCProviderName (it_sub t) = Some (id_name i) \<or>
     GetUserByExternalIdentity s OIDCProviderName (it_sub t) = None \<and> GetUser s (id_name i) = None \<and> rs_autoprovision rs) \<and>
    GetUserByExternalIdentity s' OIDCProviderName (it_sub t) = Some (id_name i) \<and>
    (\<forall>x. x \<noteq> id_name i \<longrightarrow> GetUser s' x = GetUser s x)"
proof -
  define nonce where "nonce = (case cb_nonce_cookie cb of None \<Rightarrow> [] | Some v \<Rightarrow> v)"
  have h: "HandleCallback cr cf rs s now (cb_code cb) nonce sid = (s', Inr (i, sid', expiry))"
    and k: "cb_state cb \<noteq> []" "cb_state_cookie cb = Some (cb_state cb)" "snd (takeLinkIntent m now (cb_state cb)) = None"
    using assms unfolding CallbackOIDC_def Let_def nonce_def [symmetric]
    by (auto split: if_splits option.splits prod.splits sum.splits api_error.splits)
  obtain t s1 where t: "exchangeAndVerify rs (cb_code cb) nonce = Inr t"
      "resolveOrProvision rs s now t (RoleFromGroups (it_groups t) (rs_groupToRole rs)) = (s1, Inr (id_name i))"
      "users s' = users s1" "links s' = links s1"
    using HandleCallback_signs_in [OF h] by blast
  have "cb_nonce_cookie cb = Some (it_nonce t)"
    using exchange_verified [OF t(1)] by (auto simp: nonce_def split: option.splits)
  then show ?thesis
    using exchange_verified [OF t(1)] k resolveOrProvision_name [OF t(2)] t(3,4) GetUser_users [OF t(3)]
    by (intro exI [of _ t]) (auto simp: GetUserByExternalIdentity_def)
qed

definition first_callback :: callback where
  "first_callback = \<lparr>cb_state_cookie = Some ''st'', cb_nonce_cookie = Some ''n'', cb_mode_cookie = None, cb_state = ''st'',
     cb_error = [], cb_code = ''c''\<rparr>"

theorem oidc_sign_in_witness:
  "\<exists>i s' e. CallbackOIDC plain_crypto oidc_config no_accounts [] 0 first_callback ''sid'' = (s', [], SessionStarted i ''sid'' e) \<and>
     (\<exists>t :: id_token. GetUserByExternalIdentity s' OIDCProviderName (it_sub t) = Some (id_name i))"
proof -
  have v: "ValidateUsername ''eve'' = None" by code_simp
  have f: "find (\<lambda>c. GetUser no_accounts c = None) (candidates ''eve'') = Some ''eve''"
    by (simp add: candidates_def GetUser_def no_accounts_def)
  have "\<exists>i e. snd (CallbackOIDC plain_crypto oidc_config no_accounts [] 0 first_callback ''sid'') = ([], SessionStarted i ''sid'' e)"
    using idp_exchange [of "''c''"] v f
    by (simp add: CallbackOIDC_def oidc_config_def local_config_def first_callback_def takeLinkIntent_def HandleCallback_def
      resolveOrProvision_def idp_token_def idp_def no_accounts_def GetUserByExternalIdentity_def ProvisionOIDCUser_def
      LinkExternalIdentity_def CreateOIDCSession_def resolveIdentity_def Let_def)
  then obtain i e s' where c:
      "CallbackOIDC plain_crypto oidc_config no_accounts [] 0 first_callback ''sid'' = (s', [], SessionStarted i ''sid'' e)"
    by (metis prod.collapse)
  have "cf_resolver oidc_config = Some idp" by (simp add: oidc_config_def)
  from oidc_sign_in [OF c this] c show ?thesis by blast
qed

section \<open>Linking and unlinking\<close>

lemma takeLinkIntent_once: "aget (fst (takeLinkIntent m now st)) st = None"
  unfolding takeLinkIntent_def by (induction m) auto

lemma intent_of_initiator:
  assumes "t \<le> now + minutes 10"
  shows "snd (takeLinkIntent (putLinkIntent m now st name) t st) = Some name"
  using assms by (simp add: takeLinkIntent_def putLinkIntent_def aget_aput)

text \<open>
  A link over OIDC. The callback of a link flow attaches the verified subject to the user who
  started the flow and no other: one more link at most, only for a subject that nobody had, and no
  account, token or session changes; a subject of another account is refused and changes nothing.
  The state is spent by the callback, and until ten minutes after the start it stands for the
  user of the session cookie that started it.
\<close>

lemma oidc_link:
  assumes "CallbackOIDC cr cf s m now cb sid = (s', m', LinkRedirect res)" "cf_resolver cf = Some rs"
  shows "users s' = users s \<and> tokens s' = tokens s \<and> refreshes s' = refreshes s \<and> sessions s' = sessions s \<and>
    aget m' (cb_state cb) = None \<and>
    (res \<noteq> ''success'' \<longrightarrow> s' = s) \<and>
    (res = ''success'' \<longrightarrow> (\<exists>name t. snd (takeLinkIntent m now (cb_state cb)) = Some name \<and>
       rs_exchange rs (cb_code cb) = Some t \<and> cb_nonce_cookie cb = Some (it_nonce t) \<and>
       GetUserByExternalIdentity s' OIDCProviderName (it_sub t) = Some name \<and>
       (s' = s \<or> GetUserByExternalIdentity s OIDCProviderName (it_sub t) = None \<and>
          (\<exists>x. links s' = links s @ [x] \<and> x_user x = name \<and> x_sub x = it_sub t)))) \<and>
    (LinkOIDC cr cf s m0 t0 cookies st = (m1, Inr st') \<longrightarrow>
       (\<exists>i. IdentifyFromCookie cr cf s t0 cookies = Inr i \<and>
          (\<forall>t1 \<le> t0 + minutes 10. snd (takeLinkIntent m1 t1 st) = Some (id_name i))))"
proof -
  obtain m1' int where t: "takeLinkIntent m now (cb_state cb) = (m1', int)" by fastforce
  define nonce where "nonce = (case cb_nonce_cookie cb of None \<Rightarrow> [] | Some v \<Rightarrow> v)"
  have m': "m' = m1'" and r: "(case int of
        Some name \<Rightarrow> (\<exists>e. HandleLink rs s now (cb_code cb) name nonce = (s', e) \<and> (res = ''success'' \<longleftrightarrow> e = None))
      | None \<Rightarrow> s' = s \<and> res = ''error'')"
    using assms t unfolding CallbackOIDC_def Let_def nonce_def [symmetric]
    by (auto split: if_splits option.splits prod.splits sum.splits api_error.splits)
  have spent: "aget m' (cb_state cb) = None"
    using takeLinkIntent_once [of m now "cb_state cb"] t m' by simp
  have started: "LinkOIDC cr cf s m0 t0 cookies st = (m1, Inr st') \<longrightarrow>
       (\<exists>i. IdentifyFromCookie cr cf s t0 cookies = Inr i \<and>
          (\<forall>t1 \<le> t0 + minutes 10. snd (takeLinkIntent m1 t1 st) = Some (id_name i)))"
    using assms(2) intent_of_initiator by (auto simp: LinkOIDC_def split: sum.splits)
  show ?thesis
  proof (cases int)
    case None
    then show ?thesis using r spent started by auto
  next
    case (Some name)
    then obtain e where e: "HandleLink rs s now (cb_code cb) name nonce = (s', e)" "res = ''success'' \<longleftrightarrow> e = None"
      using r by auto
    show ?thesis
    proof (cases "exchangeAndVerify rs (cb_code cb) nonce")
      case (Inl x)
      then show ?thesis using e spent started by (auto simp: HandleLink_def)
    next
      case (Inr t')
      have n: "cb_nonce_cookie cb = Some (it_nonce t')"
        using exchange_verified [OF Inr] by (auto simp: nonce_def split: option.splits)
      show ?thesis
      proof (cases "GetUserByExternalIdentity s OIDCProviderName (it_sub t')")
        case None
        then have "e = Some AlreadyLinked \<and> s' = s \<or>
            e = None \<and> LinkExternalIdentity s now name OIDCProviderName (it_sub t') (it_email t') = Some s'"
          using e(1) Inr by (auto simp: HandleLink_def split: option.splits)
        then show ?thesis
        proof (elim disjE conjE)
          assume "e = None" and l: "LinkExternalIdentity s now name OIDCProviderName (it_sub t') (it_email t') = Some s'"
          then have "res = ''success''" using e(2) by simp
          moreover obtain x where "links s' = links s @ [x]" "x_user x = name" "x_sub x = it_sub t'"
            using LinkExternalIdentity_linked [OF l] by blast
          ultimately have "\<exists>name t. snd (takeLinkIntent m now (cb_state cb)) = Some name \<and>
             rs_exchange rs (cb_code cb) = Some t \<and> cb_nonce_cookie cb = Some (it_nonce t) \<and>
             GetUserByExternalIdentity s' OIDCProviderName (it_sub t) = Some name \<and>
             (s' = s \<or> GetUserByExternalIdentity s OIDCProviderName (it_sub t) = None \<and>
               (\<exists>x. links s' = links s @ [x] \<and> x_user x = name \<and> x_sub x = it_sub t))"
            using LinkExternalIdentity_linked [OF l] n exchange_verified [OF Inr] Some t
            by (intro exI [of _ name] exI [of _ t']) auto
          then show ?thesis
            using LinkExternalIdentity_linked [OF l] spent \<open>res = ''success''\<close> by (intro conjI started) simp_all
        qed (use e(2) spent started in simp)
      next
        case (Some who)
        then have "s' = s" "e = (if who = name then None else Some AlreadyLinked)"
          using e(1) Inr by (auto simp: HandleLink_def)
        then show ?thesis
          using e(2) spent started n exchange_verified [OF Inr] \<open>int = Some name\<close> t Some by auto
      qed
    qed
  qed
qed

lemma oidc_link_witness:
  "\<exists>s'. CallbackOIDC plain_crypto oidc_config (sv_db ada) [(''st'', ''ada'', 5)] 0 first_callback ''sid'' =
       (s', [], LinkRedirect ''success'') \<and> users s' = users (sv_db ada)"
proof -
  have "snd (CallbackOIDC plain_crypto oidc_config (sv_db ada) [(''st'', ''ada'', 5)] 0 first_callback ''sid'') =
      ([], LinkRedirect ''success'')"
    using idp_exchange [of "''c''"]
    by (simp add: CallbackOIDC_def oidc_config_def local_config_def first_callback_def takeLinkIntent_def HandleLink_def
      GetUserByExternalIdentity_def LinkExternalIdentity_def ada_db idp_token_def Let_def)
  then obtain s' where c:
      "CallbackOIDC plain_crypto oidc_config (sv_db ada) [(''st'', ''ada'', 5)] 0 first_callback ''sid'' =
        (s', [], LinkRedirect ''success'')"
    by (metis prod.collapse)
  have "cf_resolver oidc_config = Some idp" by (simp add: oidc_config_def)
  from oidc_link [OF c this] c show ?thesis by blast
qed

lemma count_delete:
  "length (filter (\<lambda>x. x_user x = o') (delete_rows (\<lambda>x. x_user x = o' \<and> x_provider x = p) xs)) +
   length (filter (\<lambda>x. x_user x = o' \<and> x_provider x = p) xs) = length (filter (\<lambda>x. x_user x = o') xs)"
  by (induction xs) (auto simp: delete_rows_def)

lemma distinct_at_most_one:
  "distinct (map x_provider (filter (\<lambda>x. x_user x = o') xs)) \<Longrightarrow> length (filter (\<lambda>x. x_user x = o' \<and> x_provider x = p) xs) \<le> 1"
proof (induction xs)
  case (Cons x xs)
  have "filter (\<lambda>y. x_user y = o' \<and> x_provider y = p) xs = []" if "x_user x = o'" "x_provider x = p"
    using Cons.prems that by (auto simp: filter_empty_conv image_iff)
  then show ?case using Cons by (auto split: if_splits)
qed simp

lemma unlink_run:
  assumes "Identify cr cf s now header = (s1, Inr i)" "HasUsablePassword s1 (id_name i) = Some hasPw"
  shows "UnlinkIdentity cr cf s now header p =
    (if \<not> hasPw \<and> CountExternalIdentities s1 (id_name i) \<le> 1 then (s1, Inl OnlySignIn)
     else (fst (DeleteExternalIdentity s1 (id_name i) p),
       if snd (DeleteExternalIdentity s1 (id_name i) p) then Inr () else Inl NoSuchLink))"
  using assms by (simp add: UnlinkIdentity_def with_owner_def DeleteExternalIdentity_def)


definition link_of :: "string \<Rightarrow> ext_identity" where
  "link_of sub = \<lparr>x_user = ''eve'', x_provider = OIDCProviderName, x_sub = sub, x_email = [], x_created = 0, x_seen = 0\<rparr>"

definition eve_twice :: accounts where
  "eve_twice = no_accounts\<lparr>users := [oidc_account ''eve'' ''light''], links := [link_of ''one'', link_of ''two''],
     tokens := [session_token plain_crypto 0 ''eve'' ''tok'']\<rparr>"


end
