(* ===== verification/TtlCache.thy ===== *)
theory TtlCache
  imports AccountRoles
begin

text \<open>
  The in-memory cache of answers (\<open>internal/shared/cache/cache.go\<close>), the keys it is used with and the
  serve-or-compute helper (\<open>apihelpers.go\<close>). A nil cache is \<open>None\<close>. The mutex makes each method one
  step. Metrics are left out.
\<close>

record entry =
  ce_blob :: string
  ce_expires :: gotime

record ttl_cache =
  tc_ttl :: duration
  tc_data :: "string \<Rightarrow> entry option"

definition NewNamed :: "duration \<Rightarrow> ttl_cache" where
  "NewNamed ttl = \<lparr>tc_ttl = ttl, tc_data = (\<lambda>_. None)\<rparr>"

definition cache_off :: "ttl_cache option \<Rightarrow> bool" where
  "cache_off c \<longleftrightarrow> (case c of None \<Rightarrow> True | Some t \<Rightarrow> tc_ttl t = 0)"

text \<open>An expired entry is dropped on the way.\<close>

definition cache_Get :: "ttl_cache option \<Rightarrow> gotime \<Rightarrow> string \<Rightarrow> ttl_cache option \<times> string option" where
  "cache_Get c now key =
     (case c of
        None \<Rightarrow> (c, None)
      | Some t \<Rightarrow>
          if tc_ttl t = 0 then (c, None)
          else (case tc_data t key of
              None \<Rightarrow> (c, None)
            | Some e \<Rightarrow>
                if now > ce_expires e then (Some (t\<lparr>tc_data := (tc_data t)(key := None)\<rparr>), None)
                else (c, Some (ce_blob e))))"

definition cache_Set :: "ttl_cache option \<Rightarrow> gotime \<Rightarrow> string \<Rightarrow> string \<Rightarrow> ttl_cache option" where
  "cache_Set c now key blob =
     (case c of
        None \<Rightarrow> c
      | Some t \<Rightarrow>
          if tc_ttl t = 0 then c
          else Some (t\<lparr>tc_data := (tc_data t)(key \<mapsto> \<lparr>ce_blob = blob, ce_expires = now + tc_ttl t\<rparr>)\<rparr>))"

definition InvalidatePrefix :: "ttl_cache option \<Rightarrow> string \<Rightarrow> ttl_cache option" where
  "InvalidatePrefix c prefix =
     map_option (\<lambda>t. t\<lparr>tc_data := (\<lambda>k. if cut_prefix prefix k \<noteq> None then None else tc_data t k)\<rparr>) c"

definition sweep :: "ttl_cache option \<Rightarrow> gotime \<Rightarrow> ttl_cache option" where
  "sweep c now =
     map_option (\<lambda>t. t\<lparr>tc_data := (\<lambda>k. case tc_data t k of None \<Rightarrow> None
        | Some e \<Rightarrow> if now > ce_expires e then None else Some e)\<rparr>) c"

section \<open>Keys\<close>

datatype key_part = TimePart gotime | TextPart string

definition CacheKeyTimeBucket :: duration where
  "CacheKeyTimeBucket = seconds 30"

text \<open>\<open>Time.Truncate\<close> of a multiple of seconds; the zero time is a multiple of the bucket.\<close>

definition render_part :: "key_part \<Rightarrow> string" where
  "render_part p = (case p of TextPart s \<Rightarrow> s
     | TimePart t \<Rightarrow> itoa (unix (t div CacheKeyTimeBucket * CacheKeyTimeBucket)))"

definition CacheKey :: "string \<Rightarrow> string \<Rightarrow> key_part list \<Rightarrow> string" where
  "CacheKey owner name parts = owner @ ''|'' @ name @ concat (map (\<lambda>p. ''|'' @ render_part p) parts)"

definition InvalidateOwnerCache :: "ttl_cache option \<Rightarrow> string \<Rightarrow> ttl_cache option" where
  "InvalidateOwnerCache c owner = InvalidatePrefix c (owner @ ''|'')"

text \<open>\<open>compute\<close> is the answer at the instant it is computed; an error is not stored.\<close>

definition CachedBlob :: "ttl_cache option \<Rightarrow> gotime \<Rightarrow> string \<Rightarrow> string option \<Rightarrow> ttl_cache option \<times> string option" where
  "CachedBlob c now key compute =
     (case cache_Get c now key of
        (c1, Some b) \<Rightarrow> (c1, Some b)
      | (c1, None) \<Rightarrow> (case compute of None \<Rightarrow> (c1, None) | Some b \<Rightarrow> (cache_Set c1 now key b, Some b)))"

section \<open>The cache against its history\<close>

datatype cache_op = OpSet gotime string string | OpGet gotime string | OpInvalidate gotime string | OpSweep gotime

fun op_time :: "cache_op \<Rightarrow> gotime" where
  "op_time (OpSet t k b) = t"
| "op_time (OpGet t k) = t"
| "op_time (OpInvalidate t p) = t"
| "op_time (OpSweep t) = t"

fun cache_step :: "cache_op \<Rightarrow> ttl_cache option \<Rightarrow> ttl_cache option" where
  "cache_step (OpSet t k b) c = cache_Set c t k b"
| "cache_step (OpGet t k) c = fst (cache_Get c t k)"
| "cache_step (OpInvalidate t p) c = InvalidatePrefix c p"
| "cache_step (OpSweep t) c = sweep c t"

text \<open>The last write of a key that no later invalidation covers; the latest operation first.\<close>

fun last_write :: "cache_op list \<Rightarrow> string \<Rightarrow> (string \<times> gotime) option" where
  "last_write [] k = None"
| "last_write (OpSet t k' b # ops) k = (if k' = k then Some (b, t) else last_write ops k)"
| "last_write (OpInvalidate t p # ops) k = (if cut_prefix p k \<noteq> None then None else last_write ops k)"
| "last_write (op # ops) k = last_write ops k"

definition fresh_write :: "duration \<Rightarrow> gotime \<Rightarrow> (string \<times> gotime) option \<Rightarrow> string option" where
  "fresh_write ttl now w = (case w of None \<Rightarrow> None | Some (b, t) \<Rightarrow> if now > t + ttl then None else Some b)"

definition visible :: "ttl_cache option \<Rightarrow> gotime \<Rightarrow> string \<Rightarrow> string option" where
  "visible c now k =
     (case c of None \<Rightarrow> None
      | Some t \<Rightarrow> (case tc_data t k of None \<Rightarrow> None | Some e \<Rightarrow> if now > ce_expires e then None else Some (ce_blob e)))"

definition run_ops :: "duration \<Rightarrow> cache_op list \<Rightarrow> ttl_cache option" where
  "run_ops ttl ops = foldr cache_step ops (Some (NewNamed ttl))"

lemma run_ops_simps [simp]: "run_ops ttl [] = Some (NewNamed ttl)" "run_ops ttl (op # ops) = cache_step op (run_ops ttl ops)"
  by (simp_all add: run_ops_def)

lemma run_ops_some: "\<exists>d. run_ops ttl ops = Some \<lparr>tc_ttl = ttl, tc_data = d\<rparr>"
proof (induction ops)
  case (Cons op ops)
  then obtain d where d: "run_ops ttl ops = Some \<lparr>tc_ttl = ttl, tc_data = d\<rparr>" by blast
  show ?case
  proof (cases op)
    case (OpGet t k)
    then show ?thesis using d by (cases "d k") (auto simp: cache_Get_def)
  qed (use d in \<open>auto simp: cache_Set_def InvalidatePrefix_def sweep_def\<close>)
qed (simp add: NewNamed_def)

lemma visible_step:
  assumes "c = Some \<lparr>tc_ttl = ttl, tc_data = d\<rparr>" "ttl \<noteq> 0" "op_time op \<le> now"
  shows "visible (cache_step op c) now k =
    (case op of OpSet t k' b \<Rightarrow> if k' = k then fresh_write ttl now (Some (b, t)) else visible c now k
     | OpInvalidate t p \<Rightarrow> if cut_prefix p k \<noteq> None then None else visible c now k
     | _ \<Rightarrow> visible c now k)"
proof (cases op)
  case (OpSet t k' b)
  then show ?thesis using assms by (simp add: visible_def cache_Set_def fresh_write_def)
next
  case (OpGet t k')
  then show ?thesis using assms by (auto simp: visible_def cache_Get_def split: option.split)
next
  case (OpInvalidate t p)
  then show ?thesis using assms by (auto simp: visible_def InvalidatePrefix_def)
next
  case (OpSweep t)
  then show ?thesis using assms by (auto simp: visible_def sweep_def split: option.splits)
qed

lemma visible_history:
  "ttl \<noteq> 0 \<Longrightarrow> \<forall>op\<in>set ops. op_time op \<le> now \<Longrightarrow> visible (run_ops ttl ops) now k = fresh_write ttl now (last_write ops k)"
proof (induction ops)
  case (Cons op ops)
  obtain d where "run_ops ttl ops = Some \<lparr>tc_ttl = ttl, tc_data = d\<rparr>" using run_ops_some by blast
  from visible_step [OF this Cons.prems(1), of op now k] Cons show ?case
    by (cases op) (auto simp: fresh_write_def)
qed (simp add: visible_def NewNamed_def fresh_write_def)

text \<open>
  Whatever was stored, read, invalidated and swept before, a read of a key answers the last value
  stored under it, provided it is at most the time to live old and no prefix of the key was
  invalidated after it was stored; otherwise it misses. With a time to live of zero every read
  misses.
\<close>

lemma cache_answers_last_write:
  assumes "\<forall>op\<in>set ops. op_time op \<le> now"
  shows "snd (cache_Get (run_ops ttl ops) now k) =
    (if ttl = 0 then None else fresh_write ttl now (last_write ops k))"
proof -
  obtain d where d: "run_ops ttl ops = Some \<lparr>tc_ttl = ttl, tc_data = d\<rparr>" using run_ops_some by blast
  have "snd (cache_Get (run_ops ttl ops) now k) = (if ttl = 0 then None else visible (run_ops ttl ops) now k)"
    unfolding d by (auto simp: cache_Get_def visible_def split: option.split)
  then show ?thesis using visible_history [OF _ assms] by simp
qed

lemma cache_answers_last_write_witness:
  "snd (cache_Get (run_ops 10 [OpSweep 8, OpInvalidate 7 ''bob|'', OpSet 5 ''ann|stats'' ''x'', OpSet 3 ''ann|stats'' ''w'']) 15 ''ann|stats'') =
   Some ''x''"
  using cache_answers_last_write [of "[OpSweep 8, OpInvalidate 7 ''bob|'', OpSet 5 ''ann|stats'' ''x'', OpSet 3 ''ann|stats'' ''w'']" 15 10]
  by (simp add: fresh_write_def)

section \<open>Owners do not meet\<close>

lemma cut_prefix_append: "cut_prefix p s \<noteq> None \<longleftrightarrow> (\<exists>r. s = p @ r)"
  by (induction p s rule: cut_prefix.induct) auto

lemma bar_split:
  "CHR ''|'' \<notin> set a \<Longrightarrow> CHR ''|'' \<notin> set b \<Longrightarrow> a @ CHR ''|'' # x = b @ CHR ''|'' # y \<Longrightarrow> a = b \<and> x = y"
proof (induction a arbitrary: b)
  case Nil
  then show ?case by (cases b) auto
next
  case (Cons c a)
  then show ?case by (cases b) auto
qed

text \<open>
  Cached answers of different users never meet: for names the username policy accepts, two keys
  are equal only if their owners are, and invalidating an owner drops every key of that owner and
  no key of anyone else, whatever the endpoint names and parameters.
\<close>

lemma cache_keys_separate_owners:
  assumes "ValidateUsername a = None" "ValidateUsername b = None"
  shows "(CacheKey a na ps = CacheKey b nb qs \<longrightarrow> a = b) \<and>
    snd (cache_Get (InvalidateOwnerCache c a) now (CacheKey a na ps)) = None \<and>
    (a \<noteq> b \<longrightarrow> snd (cache_Get (InvalidateOwnerCache c a) now (CacheKey b nb qs)) = snd (cache_Get c now (CacheKey b nb qs)))"
proof -
  note bars = valid_name_no_bar [OF assms(1)] valid_name_no_bar [OF assms(2)]
  have eq: "CacheKey a na ps = CacheKey b nb qs \<longrightarrow> a = b"
    using bar_split [OF bars] by (auto simp: CacheKey_def)
  have own: "cut_prefix (a @ ''|'') (CacheKey a na ps) \<noteq> None"
    unfolding cut_prefix_append CacheKey_def by simp
  have other: "cut_prefix (a @ ''|'') (CacheKey b nb qs) = None" if "a \<noteq> b"
  proof (rule ccontr)
    assume "cut_prefix (a @ ''|'') (CacheKey b nb qs) \<noteq> None"
    then obtain r where "b @ CHR ''|'' # (nb @ concat (map (\<lambda>p. ''|'' @ render_part p) qs)) = a @ CHR ''|'' # r"
      unfolding cut_prefix_append CacheKey_def by auto
    from bar_split [OF bars(2,1) this] that show False by simp
  qed
  show ?thesis
    using eq own other
    by (cases c) (auto simp: InvalidateOwnerCache_def InvalidatePrefix_def cache_Get_def split: option.split)
qed

lemma cache_keys_separate_owners_witness:
  "CacheKey ''ann'' ''stats'' [TextPart ''b|c''] \<noteq> CacheKey ''ann.x'' ''stats'' [TextPart ''b'', TextPart ''c'']"
proof -
  have "ValidateUsername ''ann'' = None" "ValidateUsername ''ann.x'' = None" by code_simp+
  from cache_keys_separate_owners [OF this, of "''stats''" "[TextPart ''b|c'']" "''stats''" "[TextPart ''b'', TextPart ''c'']"]
  show ?thesis by auto
qed

text \<open>
  An invalidation does not reach an answer that is being computed: a request that missed before it
  stores its old answer after it, and reads serve that until it is too old.
\<close>

lemma stale_store_after_invalidation:
  assumes "ttl \<noteq> 0" "t1 \<le> now" "t2 \<le> now" "t1 \<le> t2" "now \<le> t2 + ttl"
  shows "snd (cache_Get (run_ops ttl [OpSet t2 k old, OpInvalidate t1 p]) now k) = Some old"
  using assms cache_answers_last_write [of "[OpSet t2 k old, OpInvalidate t1 p]" now ttl k] by (simp add: fresh_write_def)

end
