(* ===== verification/HeartbeatModel.thy ===== *)
theory HeartbeatModel
  imports GoTime
begin

text \<open>
  Heartbeats: the payload an editor sends (\<open>internal/boomtime/ingest\<close>, \<open>internal/boomtime/wakatime\<close>), the
  axes they are classified by (\<open>internal/shared/db/axes.go\<close>), the substitution of the last known
  context and the check of their times. Columns nothing here reads (cursor, line numbers, the AI
  fields, heart rate) are left out. The database keeps microseconds.
\<close>

section \<open>Payloads\<close>

record beat =
  b_sender :: "string option"
  b_agent :: string
  b_entity :: string
  b_type :: string
  b_time :: float64
  b_project :: "string option"
  b_language :: "string option"
  b_editor :: "string option"
  b_platform :: "string option"
  b_machine :: "string option"
  b_category :: "string option"
  b_plugin :: "string option"
  b_branch :: "string option"
  b_workout :: "int option"

text \<open>The registry of axes, in its order; all of them are columns of the rollup too.\<close>

definition axis_names :: "string list" where
  "axis_names = [''project'', ''language'', ''editor'', ''plugin'', ''machine'', ''platform'', ''branch'', ''category'']"

definition hiddenAxes :: "string list" where
  "hiddenAxes = axis_names"

definition RollupAxes :: "string \<Rightarrow> bool" where
  "RollupAxes a \<longleftrightarrow> a \<in> set axis_names"

definition axis_value :: "string \<Rightarrow> beat \<Rightarrow> string option" where
  "axis_value a b =
     (if a = ''project'' then b_project b else if a = ''language'' then b_language b
      else if a = ''editor'' then b_editor b else if a = ''plugin'' then b_plugin b
      else if a = ''machine'' then b_machine b else if a = ''platform'' then b_platform b
      else if a = ''branch'' then b_branch b else if a = ''category'' then b_category b else None)"

definition set_axis :: "string \<Rightarrow> string option \<Rightarrow> beat \<Rightarrow> beat" where
  "set_axis a v b =
     (if a = ''project'' then b\<lparr>b_project := v\<rparr> else if a = ''language'' then b\<lparr>b_language := v\<rparr>
      else if a = ''editor'' then b\<lparr>b_editor := v\<rparr> else if a = ''plugin'' then b\<lparr>b_plugin := v\<rparr>
      else if a = ''machine'' then b\<lparr>b_machine := v\<rparr> else if a = ''platform'' then b\<lparr>b_platform := v\<rparr>
      else if a = ''branch'' then b\<lparr>b_branch := v\<rparr> else if a = ''category'' then b\<lparr>b_category := v\<rparr> else b)"

section \<open>Instants\<close>

text \<open>The conversion of a \<open>float64\<close> to an \<open>int64\<close> truncates.\<close>

definition to_int :: "float64 \<Rightarrow> int" where
  "to_int x = (if x < 0 then \<lceil>x\<rceil> else \<lfloor>x\<rfloor>)"

definition unixToTime :: "float64 \<Rightarrow> gotime" where
  "unixToTime sec =
     (let s = to_int sec; ns = to_int ((sec - of_int s) * 1000000000) in s * nanos_per_second + ns)"

text \<open>What the driver sends of an instant: whole microseconds.\<close>

definition micros :: "gotime \<Rightarrow> int" where
  "micros t = t div 1000"

definition beat_at :: "beat \<Rightarrow> int" where
  "beat_at b = micros (unixToTime (b_time b))"

section \<open>The user agent and the language\<close>

definition nth_token :: "string list \<Rightarrow> nat \<Rightarrow> string option" where
  "nth_token tokens i = (if i < length tokens then Some (tokens ! i) else None)"

record editorInfo =
  ei_editor :: "string option"
  ei_plugin :: "string option"
  ei_platform :: "string option"

definition UserAgentInfo :: "string \<Rightarrow> editorInfo" where
  "UserAgentInfo ua = (let tokens = split_on (CHR '' '') ua in
     \<lparr>ei_editor = nth_token tokens 3, ei_plugin = nth_token tokens 4, ei_platform = nth_token tokens 1\<rparr>)"

definition IsLastPlaceholder :: "string \<Rightarrow> bool" where
  "IsLastPlaceholder s \<longleftrightarrow> take 2 s = ''<<'' \<and> 2 \<le> length s \<and> drop (length s - 2) s = ''>>''"

definition upper_char :: "char \<Rightarrow> char" where
  "upper_char c = (if 97 \<le> (of_char c :: nat) \<and> (of_char c :: nat) \<le> 122
                   then char_of ((of_char c :: nat) - 32) else c)"

text \<open>\<open>filepath.Ext\<close>: from the last dot of the last element of the path.\<close>

definition Ext :: "string \<Rightarrow> string" where
  "Ext path =
     (let base = takeWhile (\<lambda>c. c \<noteq> CHR ''/'') (rev path) in
      if CHR ''.'' \<in> set base then rev (takeWhile (\<lambda>c. c \<noteq> CHR ''.'') base @ [CHR ''.'']) else [])"

definition LanguageFromEntity :: "string \<Rightarrow> string option" where
  "LanguageFromEntity entity =
     (let ext = Ext entity; e = tl ext in
      if ext = [] \<or> ext = ''.'' then None
      else Some (if e = ''org'' then ''Org''
        else if e = ''jinja'' \<or> e = ''jinja2'' then ''Jinja''
        else if e = ''tfvars'' then ''Terraform''
        else if e = ''cabal'' then ''Cabal Config''
        else if e = ''gotmpl'' then ''Go template''
        else if e = ''zig'' then ''Zig''
        else if e = ''purs'' then ''PureScript''
        else if e = ''dhall'' then ''Dhall''
        else map upper_char e))"

section \<open>Checking the times\<close>

definition heartbeatTimeFloor :: gotime where
  "heartbeatTimeFloor = Date 2000 1 1"

definition heartbeatTimeSkew :: duration where
  "heartbeatTimeSkew = 24 * hour_ns"

text \<open>\<open>None\<close> accepts; \<open>Some i\<close> is the index of the first beat that is refused.\<close>

definition time_plausible :: "gotime \<Rightarrow> beat \<Rightarrow> bool" where
  "time_plausible now b \<longleftrightarrow>
     (let t = to_int (b_time b) * nanos_per_second in
      b_time b > 0 \<and> \<not> t < heartbeatTimeFloor \<and> \<not> t > now + heartbeatTimeSkew)"

fun first_index :: "('a \<Rightarrow> bool) \<Rightarrow> 'a list \<Rightarrow> nat \<Rightarrow> nat option" where
  "first_index P [] i = None"
| "first_index P (x # xs) i = (if P x then Some i else first_index P xs (i + 1))"

definition validateHeartbeatTimes :: "beat list \<Rightarrow> gotime \<Rightarrow> nat option" where
  "validateHeartbeatTimes bs now = first_index (\<lambda>b. \<not> time_plausible now b) bs 0"

section \<open>The last known context\<close>

definition is_placeholder :: "string option \<Rightarrow> bool" where
  "is_placeholder v \<longleftrightarrow> (case v of None \<Rightarrow> False | Some s \<Rightarrow> IsLastPlaceholder s)"

definition batchHasLastPlaceholder :: "beat list \<Rightarrow> bool" where
  "batchHasLastPlaceholder bs \<longleftrightarrow>
     list_ex (\<lambda>b. is_placeholder (b_project b) \<or> is_placeholder (b_branch b) \<or> is_placeholder (b_language b)) bs"

text \<open>The value of the field and the running value after it.\<close>

definition substituteAxis :: "string option \<Rightarrow> string option \<Rightarrow> string option \<times> string option" where
  "substituteAxis field running =
     (case field of
        None \<Rightarrow> (None, running)
      | Some v \<Rightarrow>
          if IsLastPlaceholder v then (running, running)
          else if v = [] then (Some v, running)
          else (Some v, Some v))"

text \<open>
  The loop walks a sorted view of indices and writes through it. Here it walks the beats with
  their indices, sorted by time, and the result is put back into the input order.
\<close>

fun substitute_loop ::
    "(nat \<times> beat) list \<Rightarrow> string option \<Rightarrow> string option \<Rightarrow> string option \<Rightarrow> (nat \<times> beat) list" where
  "substitute_loop [] p l br = []"
| "substitute_loop ((i, b) # rest) p l br =
     (let (vp, p') = substituteAxis (b_project b) p;
          (vl, l') = substituteAxis (b_language b) l;
          (vb, br') = substituteAxis (b_branch b) br
      in (i, b\<lparr>b_project := vp, b_language := vl, b_branch := vb\<rparr>) # substitute_loop rest p' l' br')"

definition by_index :: "(nat \<times> beat) list \<Rightarrow> nat \<Rightarrow> beat list" where
  "by_index ibs n = map (\<lambda>i. the (aget ibs i)) [0..<n]"

definition substituteLastContext ::
    "beat list \<Rightarrow> string option \<Rightarrow> string option \<Rightarrow> string option \<Rightarrow> beat list" where
  "substituteLastContext bs seedProject seedLanguage seedBranch =
     by_index (substitute_loop
        (slice_stable (\<lambda>a b. b_time (snd a) < b_time (snd b)) (zip [0..<length bs] bs))
        seedProject seedLanguage seedBranch) (length bs)"

text \<open>The enrichment of a beat in the ingest handler.\<close>

definition enrich :: "string \<Rightarrow> string option \<Rightarrow> beat \<Rightarrow> beat" where
  "enrich owner machine b =
     (let info = UserAgentInfo (b_agent b) in
      b\<lparr>b_sender := Some owner, b_editor := ei_editor info, b_plugin := ei_plugin info,
        b_platform := ei_platform info, b_machine := machine,
        b_language := (if b_language b = None \<and> b_type b = ''file'' then LanguageFromEntity (b_entity b) else b_language b),
        b_project := (if b_project b = Some [] then Some ''Unknown project'' else b_project b)\<rparr>)"

end
