(* ===== verification/HeartbeatStore.thy ===== *)
theory HeartbeatStore
  imports HeartbeatModel
begin

text \<open>
  The heartbeat table and what is derived from it (\<open>internal/shared/db/ingest.go\<close>, \<open>health.go\<close>): the gap
  of every beat to the one before it, and the seconds per day and combination of axes. Each
  statement is a function on the tables; a transaction that fails is \<open>None\<close>. \<open>ORDER BY time_sent\<close>
  leaves beats of one instant in table order. The zones are a parameter.
\<close>

section \<open>Tables\<close>

record hb_row =
  h_id :: int
  h_beat :: beat
  h_at :: int
  h_gap :: "int option"

record day_row =
  d_sender :: string
  d_day :: int
  d_axes :: "string list"
  d_seconds :: int
  d_missing :: "bool list"

record beats_db =
  bd_zones :: "(string \<times> string) list"
  bd_projects :: "(string \<times> string) list"
  bd_rows :: "hb_row list"
  bd_rollup :: "day_row list"
  bd_next :: int

text \<open>
  A zone tells the local day of an instant and the instant a local day starts at. What the rebuild
  of whole days relies on: the days partition time at their starts. Zones whose clock is put back
  across midnight do not keep this law.
\<close>

record zones =
  z_day :: "string \<Rightarrow> int \<Rightarrow> int"
  z_start :: "string \<Rightarrow> int \<Rightarrow> int"

locale local_days =
  fixes day :: "int \<Rightarrow> int" and start :: "int \<Rightarrow> int"
  assumes starts: "start d \<le> t \<longleftrightarrow> d \<le> day t"
begin

lemma day_mono: "s \<le> t \<Longrightarrow> day s \<le> day t"
  using starts [of "day s" s] starts [of "day s" t] by auto

lemma start_day: "start (day t) \<le> t"
  using starts [of "day t" t] by simp

end

definition day_us :: int where
  "day_us = 86400000000"

definition utc_zone :: zones where
  "utc_zone = \<lparr>z_day = (\<lambda>_ t. t div day_us), z_start = (\<lambda>_ d. d * day_us)\<rparr>"

interpretation utc: local_days "z_day utc_zone tz" "z_start utc_zone tz" for tz
  by unfold_locales (auto simp: utc_zone_def day_us_def)

section \<open>Inserting\<close>

text \<open>\<open>insertProjectsBatch\<close>: one \<open>INSERT ... ON CONFLICT DO NOTHING\<close> per new pair.\<close>

definition insertProjectsBatch :: "beat list \<Rightarrow> (string \<times> string) list \<Rightarrow> (string \<times> string) list" where
  "insertProjectsBatch hbs projects =
     projects @ filter (\<lambda>p. p \<notin> set projects)
       (remdups (concat (map (\<lambda>b. case (b_sender b, b_project b) of (Some s, Some p) \<Rightarrow> [(s, p)] | _ \<Rightarrow> []) hbs)))"

text \<open>The unique key is the entity, the sender and the instant; a conflict takes the new machine.\<close>

definition same_key :: "beat \<Rightarrow> hb_row \<Rightarrow> bool" where
  "same_key b r \<longleftrightarrow> b_sender b \<noteq> None \<and> b_sender (h_beat r) = b_sender b \<and> b_entity (h_beat r) = b_entity b \<and> h_at r = beat_at b"

definition take_machine :: "beat \<Rightarrow> hb_row \<Rightarrow> hb_row" where
  "take_machine b r = (if same_key b r then r\<lparr>h_beat := (h_beat r)\<lparr>b_machine := b_machine b\<rparr>\<rparr> else r)"

definition insert_beat :: "beat \<Rightarrow> hb_row list \<times> int \<Rightarrow> (hb_row list \<times> int) \<times> int" where
  "insert_beat b t =
     (case find (same_key b) (fst t) of
        Some r \<Rightarrow> ((map (take_machine b) (fst t), snd t), h_id r)
      | None \<Rightarrow> ((fst t @ [\<lparr>h_id = snd t, h_beat = b, h_at = beat_at b, h_gap = None\<rparr>], snd t + 1), snd t))"

fun insertHeartbeatsBatch :: "beat list \<Rightarrow> hb_row list \<times> int \<Rightarrow> (hb_row list \<times> int) \<times> int list" where
  "insertHeartbeatsBatch [] t = (t, [])"
| "insertHeartbeatsBatch (b # bs) t =
     (let (t1, i) = insert_beat b t; (t2, is) = insertHeartbeatsBatch bs t1 in (t2, i # is))"

text \<open>The foreign keys: the sender is a user.\<close>

definition known_sender :: "beats_db \<Rightarrow> beat \<Rightarrow> bool" where
  "known_sender db b \<longleftrightarrow> (case b_sender b of None \<Rightarrow> True | Some s \<Rightarrow> aget (bd_zones db) s \<noteq> None)"

definition insert_phases :: "beats_db \<Rightarrow> beat list \<Rightarrow> (beats_db \<times> int list) option" where
  "insert_phases db hbs =
     (if \<not> list_all (known_sender db) hbs then None
      else (case insertHeartbeatsBatch hbs (bd_rows db, bd_next db) of
        ((rs, n), ids) \<Rightarrow>
          Some (db\<lparr>bd_projects := insertProjectsBatch hbs (bd_projects db), bd_rows := rs, bd_next := n\<rparr>, ids)))"

section \<open>Gaps\<close>

definition of_sender :: "string \<Rightarrow> hb_row \<Rightarrow> bool" where
  "of_sender s r \<longleftrightarrow> b_sender (h_beat r) = Some s"

definition sender_rows :: "string \<Rightarrow> beats_db \<Rightarrow> hb_row list" where
  "sender_rows s db = filter (of_sender s) (bd_rows db)"

definition by_time :: "hb_row \<Rightarrow> hb_row \<Rightarrow> bool" where
  "by_time a b \<longleftrightarrow> h_at a < h_at b"

text \<open>\<open>lag (time_sent) OVER (ORDER BY time_sent)\<close>, by id.\<close>

definition lags :: "hb_row list \<Rightarrow> (int \<times> int option) list" where
  "lags seq = zip (map h_id seq) (None # map (\<lambda>r. Some (h_at r)) seq)"

text \<open>\<open>EXTRACT (EPOCH FROM ...)::int\<close> rounds to the nearest second.\<close>

definition gap_seconds :: "int option \<Rightarrow> int \<Rightarrow> int option" where
  "gap_seconds prev t = map_option (\<lambda>p. (t - p + 500000) div 1000000) prev"

definition gap_fits :: "int option \<Rightarrow> bool" where
  "gap_fits g \<longleftrightarrow> (case g of None \<Rightarrow> True | Some x \<Rightarrow> x \<le> 2147483647)"

text \<open>The bounds of the window; \<open>None\<close> is an infinite bound.\<close>

definition gap_anchor :: "hb_row list \<Rightarrow> int \<Rightarrow> int option" where
  "gap_anchor xs since =
     (let ts = filter (\<lambda>t. t < since) (map h_at xs) in if ts = [] then None else Some (Max (set ts)))"

definition gap_horizon :: "hb_row list \<Rightarrow> int option \<Rightarrow> int option" where
  "gap_horizon xs until =
     (case until of None \<Rightarrow> None
      | Some u \<Rightarrow> (let ts = filter (\<lambda>t. t > u) (map h_at xs) in if ts = [] then None else Some (Min (set ts))))"

definition in_span :: "int option \<Rightarrow> int option \<Rightarrow> hb_row \<Rightarrow> bool" where
  "in_span lo hi r \<longleftrightarrow> (case lo of None \<Rightarrow> True | Some a \<Rightarrow> a \<le> h_at r) \<and> (case hi of None \<Rightarrow> True | Some b \<Rightarrow> h_at r \<le> b)"

definition gap_window :: "hb_row list \<Rightarrow> int \<Rightarrow> int option \<Rightarrow> (int \<times> int option) list" where
  "gap_window xs since until =
     lags (slice_stable by_time (filter (in_span (gap_anchor xs since) (gap_horizon xs until)) xs))"

definition set_gap :: "(int \<times> int option) list \<Rightarrow> string \<Rightarrow> int \<Rightarrow> hb_row \<Rightarrow> hb_row" where
  "set_gap w sender since r =
     (if of_sender sender r \<and> since \<le> h_at r
      then (case map_of w (h_id r) of None \<Rightarrow> r | Some prev \<Rightarrow> r\<lparr>h_gap := gap_seconds prev (h_at r)\<rparr>)
      else r)"

text \<open>\<open>None\<close>: a gap does not fit the integer column, and the statement fails.\<close>

definition recomputeGapsUntil :: "beats_db \<Rightarrow> string \<Rightarrow> int \<Rightarrow> int option \<Rightarrow> beats_db option" where
  "recomputeGapsUntil db sender since until =
     (let w = gap_window (sender_rows sender db) since until;
          rs = map (set_gap w sender since) (bd_rows db)
      in if list_all (\<lambda>r. gap_fits (h_gap r)) rs then Some (db\<lparr>bd_rows := rs\<rparr>) else None)"

definition recomputeGaps :: "beats_db \<Rightarrow> string \<Rightarrow> int \<Rightarrow> beats_db option" where
  "recomputeGaps db sender since = recomputeGapsUntil db sender since None"

section \<open>The daily rollup\<close>

definition rollup_columns :: "string list" where
  "rollup_columns = [''project'', ''language'', ''editor'', ''platform'', ''machine'', ''category'', ''plugin'', ''branch'']"

definition or_other :: "string option \<Rightarrow> string" where
  "or_other v = (case v of None \<Rightarrow> ''Other'' | Some s \<Rightarrow> s)"

definition rollup_key :: "(int \<Rightarrow> int) \<Rightarrow> hb_row \<Rightarrow> int \<times> string list" where
  "rollup_key day r = (day (h_at r), map (\<lambda>a. or_other (axis_value a (h_beat r))) rollup_columns)"

definition row_seconds :: "hb_row \<Rightarrow> int" where
  "row_seconds r =
     (case b_workout (h_beat r) of
        Some d \<Rightarrow> d
      | None \<Rightarrow> (case h_gap r of None \<Rightarrow> 0 | Some g \<Rightarrow> if g \<le> 900 then g else 0))"

definition day_group :: "string \<Rightarrow> (int \<Rightarrow> int) \<Rightarrow> hb_row list \<Rightarrow> int \<times> string list \<Rightarrow> day_row" where
  "day_group sender day rs k =
     (let g = filter (\<lambda>r. rollup_key day r = k) rs in
      \<lparr>d_sender = sender, d_day = fst k, d_axes = snd k, d_seconds = sum_list (map row_seconds g),
       d_missing = map (\<lambda>a. list_all (\<lambda>r. axis_value a (h_beat r) = None) g) rollup_columns\<rparr>)"

definition aggregate :: "string \<Rightarrow> (int \<Rightarrow> int) \<Rightarrow> hb_row list \<Rightarrow> day_row list" where
  "aggregate sender day rs = map (day_group sender day rs) (remdups (map (rollup_key day) rs))"

text \<open>The zone of the sender, UTC when it has none; \<open>None\<close> when there is no such user.\<close>

definition rollup_zone :: "beats_db \<Rightarrow> string \<Rightarrow> string option" where
  "rollup_zone db sender = map_option (\<lambda>z. if z = [] then ''UTC'' else z) (aget (bd_zones db) sender)"

definition refreshRollup :: "zones \<Rightarrow> beats_db \<Rightarrow> string \<Rightarrow> int \<Rightarrow> beats_db" where
  "refreshRollup zs db sender since =
     (case rollup_zone db sender of
        None \<Rightarrow> db
      | Some tz \<Rightarrow>
          (let d0 = z_day zs tz since in
           db\<lparr>bd_rollup := filter (\<lambda>d. \<not> (d_sender d = sender \<and> d0 \<le> d_day d)) (bd_rollup db) @
                aggregate sender (z_day zs tz) (filter (\<lambda>r. z_start zs tz d0 \<le> h_at r) (sender_rows sender db))\<rparr>))"

section \<open>The operations\<close>

definition batch_senders :: "beat list \<Rightarrow> string list" where
  "batch_senders hbs = remdups (concat (map (\<lambda>b. case b_sender b of None \<Rightarrow> [] | Some s \<Rightarrow> [s]) hbs))"

definition sender_times :: "beat list \<Rightarrow> string \<Rightarrow> int list" where
  "sender_times hbs s = map beat_at (filter (\<lambda>b. b_sender b = Some s) hbs)"

definition maintain :: "zones \<Rightarrow> beat list \<Rightarrow> string \<Rightarrow> beats_db \<Rightarrow> beats_db option" where
  "maintain zs hbs s db =
     (let ts = sender_times hbs s; since = Min (set ts) in
      map_option (\<lambda>db'. refreshRollup zs db' s since) (recomputeGapsUntil db s since (Some (Max (set ts)))))"

fun maintain_all :: "zones \<Rightarrow> beat list \<Rightarrow> string list \<Rightarrow> beats_db \<Rightarrow> beats_db option" where
  "maintain_all zs hbs [] db = Some db"
| "maintain_all zs hbs (s # ss) db = Option.bind (maintain zs hbs s db) (maintain_all zs hbs ss)"

text \<open>The senders are visited in the order of a Go map; this one is as good as any.\<close>

definition saveHeartbeats :: "zones \<Rightarrow> bool \<Rightarrow> beats_db \<Rightarrow> beat list \<Rightarrow> (beats_db \<times> int list) option" where
  "saveHeartbeats zs rollup db hbs =
     (if hbs = [] then Some (db, [])
      else Option.bind (insert_phases db hbs) (\<lambda>(db1, ids).
        if rollup then map_option (\<lambda>db2. (db2, ids)) (maintain_all zs hbs (batch_senders hbs) db1)
        else Some (db1, ids)))"

definition SaveHeartbeats :: "zones \<Rightarrow> beats_db \<Rightarrow> beat list \<Rightarrow> (beats_db \<times> int list) option" where
  "SaveHeartbeats zs db hbs = saveHeartbeats zs True db hbs"

definition SaveHeartbeatsRaw :: "zones \<Rightarrow> beats_db \<Rightarrow> beat list \<Rightarrow> (beats_db \<times> int list) option" where
  "SaveHeartbeatsRaw zs db hbs = saveHeartbeats zs False db hbs"

definition ResyncDerived :: "zones \<Rightarrow> beats_db \<Rightarrow> string \<Rightarrow> beats_db option" where
  "ResyncDerived zs db sender = map_option (\<lambda>db'. refreshRollup zs db' sender 0) (recomputeGaps db sender 0)"

text \<open>The health report, but for the sizes on disk.\<close>

record derivedStatus =
  ds_heartbeats :: nat
  ds_populated :: nat
  ds_missing :: nat
  ds_rollup_rows :: nat
  ds_rollup_seconds :: int
  ds_raw_seconds :: int
  ds_in_sync :: bool

definition gap_time :: "hb_row \<Rightarrow> int" where
  "gap_time r = (case h_gap r of None \<Rightarrow> 0 | Some g \<Rightarrow> if g \<le> 900 then g else 0)"

definition GetDerivedStatus :: "beats_db \<Rightarrow> string \<Rightarrow> derivedStatus" where
  "GetDerivedStatus db sender =
     (let rs = sender_rows sender db; ro = filter (\<lambda>d. d_sender d = sender) (bd_rollup db);
          pop = length (filter (\<lambda>r. h_gap r \<noteq> None) rs);
          rsec = sum_list (map d_seconds ro); raw = sum_list (map gap_time rs)
      in \<lparr>ds_heartbeats = length rs, ds_populated = pop, ds_missing = length rs - pop, ds_rollup_rows = length ro,
          ds_rollup_seconds = rsec, ds_raw_seconds = raw, ds_in_sync = (rsec = raw \<and> length rs - pop \<le> 1)\<rparr>)"

section \<open>Workouts\<close>

record workout =
  w_uuid :: string
  w_kind :: string
  w_label :: "string option"
  w_start :: float64
  w_duration :: int

definition workout_beat :: "string \<Rightarrow> workout \<Rightarrow> beat" where
  "workout_beat owner w =
     \<lparr>b_sender = Some owner, b_agent = ''boomtime-watch/1 (macOS) boomtime-watch/1'', b_entity = ''workout:'' @ w_uuid w,
      b_type = ''workout'', b_time = w_start w,
      b_project = Some (case w_label w of None \<Rightarrow> w_kind w | Some l \<Rightarrow> if l = [] then w_kind w else l),
      b_language = None, b_editor = None, b_platform = None, b_machine = None, b_category = None, b_plugin = None,
      b_branch = None, b_workout = Some (w_duration w)\<rparr>"

definition SaveWorkouts :: "zones \<Rightarrow> beats_db \<Rightarrow> string \<Rightarrow> workout list \<Rightarrow> (beats_db \<times> int list) option" where
  "SaveWorkouts zs db owner ws =
     (if ws = [] then Some (db, [])
      else (let hbs = map (workout_beat owner) ws; earliest = Min (set (map beat_at hbs)) in
        Option.bind (insert_phases db hbs) (\<lambda>(db1, ids).
          map_option (\<lambda>db2. (refreshRollup zs db2 owner earliest, ids)) (recomputeGaps db1 owner earliest))))"

end
