(* ===== verification/DerivedData.thy ===== *)
theory DerivedData
  imports HeartbeatStore
begin

text \<open>
  What a correct state of the derived data is, and the lemmas that the operations on heartbeats keep
  it: the gap of every beat is the one to the beat before it, and the rollup of a sender is the
  grouping of all its beats. The maintenance after an ingest touches a window of time only; these
  lemmas show that nothing outside the window needs it.
\<close>

section \<open>The specification\<close>

fun gaps_from :: "int option \<Rightarrow> hb_row list \<Rightarrow> bool" where
  "gaps_from p [] = True"
| "gaps_from p (r # rs) = (h_gap r = gap_seconds p (h_at r) \<and> gaps_from (Some (h_at r)) rs)"

definition gaps_ok :: "hb_row list \<Rightarrow> bool" where
  "gaps_ok rs = gaps_from None (slice_stable by_time rs)"

definition sender_rollup :: "string \<Rightarrow> beats_db \<Rightarrow> day_row list" where
  "sender_rollup s db = filter (\<lambda>d. d_sender d = s) (bd_rollup db)"

definition rollup_ok :: "zones \<Rightarrow> string \<Rightarrow> beats_db \<Rightarrow> bool" where
  "rollup_ok zs s db =
     (case rollup_zone db s of
        None \<Rightarrow> False
      | Some tz \<Rightarrow> mset (sender_rollup s db) = mset (aggregate s (z_day zs tz) (sender_rows s db)))"

definition derived_ok :: "zones \<Rightarrow> string \<Rightarrow> beats_db \<Rightarrow> bool" where
  "derived_ok zs s db = (gaps_ok (sender_rows s db) \<and> rollup_ok zs s db)"

text \<open>The ids are those of a sequence, and every sender is a user.\<close>

definition row_known :: "beats_db \<Rightarrow> hb_row \<Rightarrow> bool" where
  "row_known db r = known_sender db (h_beat r)"

definition ids_ok :: "beats_db \<Rightarrow> bool" where
  "ids_ok db = (distinct (map h_id (bd_rows db)) \<and> list_all (\<lambda>r. h_id r < bd_next db) (bd_rows db))"

definition beats_ok :: "zones \<Rightarrow> beats_db \<Rightarrow> bool" where
  "beats_ok zs db = (ids_ok db \<and> list_all (\<lambda>u. derived_ok zs (fst u) db) (bd_zones db))"

definition zones_ok :: "zones \<Rightarrow> bool" where
  "zones_ok zs = (\<forall>tz. local_days (z_day zs tz) (z_start zs tz))"

section \<open>Beats in the order of time\<close>

lemma by_time_weak: "strict_weak by_time"
  by unfold_locales (auto simp: by_time_def)

interpretation tm: strict_weak by_time
  by (rule by_time_weak)

abbreviation tsorted :: "hb_row list \<Rightarrow> bool" where
  "tsorted \<equiv> sorted_wrt (\<lambda>a b. h_at a \<le> h_at b)"

lemma tsorted_slice: "tsorted (slice_stable by_time xs)"
  using tm.sorted [of xs] by (simp add: by_time_def not_less)

lemma tsorted_split:
  assumes "\<And>x y. h_at x \<le> h_at y \<Longrightarrow> P y \<Longrightarrow> P x"
  shows "tsorted ys \<Longrightarrow> filter P ys @ filter (\<lambda>r. \<not> P r) ys = ys"
proof (induction ys)
  case (Cons y ys)
  show ?case
  proof (cases "P y")
    case False
    with Cons.prems assms have "\<forall>z\<in>set ys. \<not> P z" by auto
    then have "filter P ys = []" by (simp add: filter_empty_conv)
    with False Cons show ?thesis by auto
  qed (use Cons in auto)
qed simp

lemma insert_stable_map:
  assumes "\<And>r. h_at (f r) = h_at r"
  shows "insert_stable by_time (f x) (map f ys) = map f (insert_stable by_time x ys)"
  by (induction ys) (auto simp: by_time_def assms)

lemma slice_stable_map:
  assumes "\<And>r. h_at (f r) = h_at r"
  shows "slice_stable by_time (map f xs) = map f (slice_stable by_time xs)"
  by (induction xs) (simp_all add: insert_stable_map [OF assms])

section \<open>Gaps\<close>

definition last_time :: "int option \<Rightarrow> hb_row list \<Rightarrow> int option" where
  "last_time p us = (if us = [] then p else Some (h_at (last us)))"

lemma last_time_simps [simp]:
  "last_time p [] = p" "last_time p (r # rs) = last_time (Some (h_at r)) rs"
  "last_time p (us @ vs) = last_time (last_time p us) vs"
  by (auto simp: last_time_def)

lemma gaps_from_append: "gaps_from p (us @ vs) \<longleftrightarrow> gaps_from p us \<and> gaps_from (last_time p us) vs"
  by (induction us arbitrary: p) auto

lemma last_time_max:
  "tsorted us \<Longrightarrow> r \<in> set us \<Longrightarrow> \<forall>x\<in>set us. h_at x \<le> h_at r \<Longrightarrow> last_time p us = Some (h_at r)"
proof (induction us arbitrary: p)
  case (Cons u us)
  show ?case
  proof (cases "r \<in> set us")
    case False
    with Cons.prems have "r = u" "\<forall>x\<in>set us. h_at x = h_at u" by (auto intro: antisym)
    then show ?thesis by (cases us rule: rev_cases) (auto simp: last_time_def)
  qed (use Cons in auto)
qed simp

definition lags_from :: "int option \<Rightarrow> hb_row list \<Rightarrow> (int \<times> int option) list" where
  "lags_from p seq = zip (map h_id seq) (p # map (\<lambda>r. Some (h_at r)) seq)"

lemma lags_from_simps [simp]:
  "lags_from p [] = []"
  "lags_from p (r # rs) = (h_id r, p) # lags_from (Some (h_at r)) rs"
  by (simp_all add: lags_from_def)

lemma lags_from_append: "lags_from p (us @ vs) = lags_from p us @ lags_from (last_time p us) vs"
  by (induction us arbitrary: p) auto

lemma map_fst_lags_from: "map fst (lags_from p us) = map h_id us"
  by (induction us arbitrary: p) auto

lemma lags_alt: "lags us = lags_from None us"
  by (simp add: lags_def lags_from_def)

text \<open>The rewriting of one row by the window of lags, once the guards of the statement hold.\<close>

definition regap :: "(int \<times> int option) list \<Rightarrow> hb_row \<Rightarrow> hb_row" where
  "regap w r = (case map_of w (h_id r) of None \<Rightarrow> r | Some prev \<Rightarrow> r\<lparr>h_gap := gap_seconds prev (h_at r)\<rparr>)"

lemma h_at_regap [simp]: "h_at (regap w r) = h_at r"
  by (simp add: regap_def split: option.splits)

lemma regap_absent: "h_id r \<notin> fst ` set w \<Longrightarrow> regap w r = r"
  by (simp add: regap_def map_of_eq_None_iff split: option.splits)
    (metis map_of_eq_None_iff option.distinct(1))

lemma gaps_from_regap:
  "distinct (map h_id us) \<Longrightarrow> fst ` set v \<inter> h_id ` set us = {} \<Longrightarrow>
   gaps_from p (map (regap (v @ lags_from p us)) us)"
proof (induction us arbitrary: p v)
  case (Cons u us)
  have "map_of (v @ lags_from p (u # us)) (h_id u) = Some p"
    using Cons.prems by (auto simp: map_add_def map_of_eq_None_iff split: option.splits)
      (metis map_of_SomeD IntI imageI emptyE fst_conv)+
  moreover have "gaps_from (Some (h_at u)) (map (regap ((v @ [(h_id u, p)]) @ lags_from (Some (h_at u)) us)) us)"
    using Cons.prems by (intro Cons.IH) auto
  ultimately show ?case
    by (simp add: regap_def [of _ u] del: map_of_append)
qed simp

section \<open>The window of a recomputation\<close>

definition below :: "int option \<Rightarrow> hb_row \<Rightarrow> bool" where
  "below hi r = (case hi of None \<Rightarrow> True | Some b \<Rightarrow> h_at r \<le> b)"

lemma in_span_iff: "in_span lo hi r \<longleftrightarrow> (case lo of None \<Rightarrow> True | Some a \<Rightarrow> a \<le> h_at r) \<and> below hi r"
  by (simp add: in_span_def below_def)

lemma anchor_None: "gap_anchor xs since = None \<Longrightarrow> r \<in> set xs \<Longrightarrow> since \<le> h_at r"
  by (auto simp: gap_anchor_def Let_def filter_empty_conv split: if_splits)

lemma anchor_Some:
  assumes "gap_anchor xs since = Some a"
  shows "a < since" "\<exists>r\<in>set xs. h_at r = a" "r \<in> set xs \<Longrightarrow> h_at r < since \<Longrightarrow> h_at r \<le> a"
proof -
  have ne: "filter (\<lambda>t. t < since) (map h_at xs) \<noteq> []" and a: "a = Max (set (filter (\<lambda>t. t < since) (map h_at xs)))"
    using assms by (auto simp: gap_anchor_def Let_def split: if_splits)
  have "a \<in> set (filter (\<lambda>t. t < since) (map h_at xs))"
    unfolding a using ne by (intro Max_in) (auto simp: filter_empty_conv)
  then show "a < since" "\<exists>r\<in>set xs. h_at r = a" by auto
  show "r \<in> set xs \<Longrightarrow> h_at r < since \<Longrightarrow> h_at r \<le> a"
    unfolding a by (intro Max_ge) auto
qed

lemma horizon_None: "gap_horizon xs (Some u) = None \<Longrightarrow> r \<in> set xs \<Longrightarrow> h_at r \<le> u"
  by (auto simp: gap_horizon_def Let_def filter_empty_conv not_less split: if_splits)

lemma horizon_Some:
  assumes "gap_horizon xs until = Some b"
  obtains u where "until = Some u" "u < b" "\<exists>r\<in>set xs. h_at r = b"
proof -
  obtain u where u: "until = Some u" and ne: "filter (\<lambda>t. u < t) (map h_at xs) \<noteq> []"
    and b: "b = Min (set (filter (\<lambda>t. u < t) (map h_at xs)))"
    using assms by (auto simp: gap_horizon_def Let_def split: if_splits option.splits)
  have "b \<in> set (filter (\<lambda>t. u < t) (map h_at xs))"
    unfolding b using ne by (intro Min_in) (auto simp: filter_empty_conv)
  with u show ?thesis by (intro that) auto
qed

text \<open>Sorted rows fall into those before the window, its overlap with the past, the rows to rewrite and the rest.\<close>

lemma window_parts:
  assumes ys: "tsorted ys" "set ys = set xs" and u: "\<And>u. until = Some u \<Longrightarrow> since \<le> u"
  defines "lo \<equiv> gap_anchor xs since" and "hi \<equiv> gap_horizon xs until"
  shows "\<exists>L P R H. filter (\<lambda>r. h_at r < since) ys = L @ P \<and> filter (\<lambda>r. \<not> h_at r < since) ys = R @ H \<and>
    filter (in_span lo hi) ys = P @ R \<and> (P = [] \<longrightarrow> L = []) \<and> R = filter (below hi) (R @ H) \<and>
    H = filter (\<lambda>r. \<not> below hi r) (R @ H)"
proof -
  define A where "A = filter (\<lambda>r. h_at r < since) ys"
  define B where "B = filter (\<lambda>r. \<not> h_at r < since) ys"
  define ge where "ge r = (case lo of None \<Rightarrow> True | Some a \<Rightarrow> a \<le> h_at r)" for r :: hb_row
  have AB: "ys = A @ B"
    unfolding A_def B_def by (rule tsorted_split [symmetric]) (use ys in auto)
  have srt: "tsorted A" "tsorted B"
    using ys by (auto simp: AB sorted_wrt_append)
  have "filter (\<lambda>r. \<not> ge r) A @ filter (\<lambda>r. \<not> \<not> ge r) A = A"
    by (rule tsorted_split) (use srt in \<open>auto simp: ge_def split: option.splits\<close>)
  then have A: "A = filter (\<lambda>r. \<not> ge r) A @ filter ge A" by simp
  have B: "B = filter (below hi) B @ filter (\<lambda>r. \<not> below hi r) B"
    by (rule tsorted_split [symmetric]) (use srt in \<open>auto simp: below_def split: option.splits\<close>)
  have "\<forall>r\<in>set A. below hi r"
  proof (cases hi)
    case (Some b)
    then obtain u where "until = Some u" "u < b" unfolding hi_def by (rule horizon_Some)
    with u Some show ?thesis by (force simp: A_def below_def)
  qed (simp add: below_def)
  then have "filter (in_span lo hi) A = filter ge A"
    by (intro filter_cong) (auto simp: in_span_iff ge_def)
  moreover have "\<forall>r\<in>set B. ge r"
    using anchor_Some(1) [of xs since] by (force simp: B_def ge_def lo_def split: option.splits)
  then have "filter (in_span lo hi) B = filter (below hi) B"
    by (intro filter_cong) (auto simp: in_span_iff ge_def)
  ultimately have seg: "filter (in_span lo hi) ys = filter ge A @ filter (below hi) B"
    by (simp add: AB)
  have "filter (\<lambda>r. \<not> ge r) A = []" if "filter ge A = []"
  proof (cases lo)
    case (Some a)
    then obtain r where "r \<in> set xs" "h_at r = a" "a < since"
      using anchor_Some(1,2) unfolding lo_def by blast
    with Some ys have "r \<in> set (filter ge A)" by (auto simp: A_def ge_def)
    with that show ?thesis by auto
  qed (simp add: ge_def)
  with A B seg show ?thesis
    by (intro exI [of _ "filter (\<lambda>r. \<not> ge r) A"] exI [of _ "filter ge A"] exI [of _ "filter (below hi) B"]
        exI [of _ "filter (\<lambda>r. \<not> below hi r) B"])
      (simp add: A_def [symmetric] B_def [symmetric])
qed

text \<open>
  A sequence with correct gaps changed at times from \<open>since\<close> to \<open>until\<close> only: rewriting the window
  makes every gap correct again.
\<close>

definition repair :: "hb_row list \<Rightarrow> int \<Rightarrow> int option \<Rightarrow> hb_row \<Rightarrow> hb_row" where
  "repair xs since until r = (if since \<le> h_at r then regap (gap_window xs since until) r else r)"

lemma h_at_repair [simp]: "h_at (repair xs since until r) = h_at r"
  by (simp add: repair_def)

lemma gap_window_alt:
  "gap_window xs since until =
   lags_from None (filter (in_span (gap_anchor xs since) (gap_horizon xs until)) (slice_stable by_time xs))"
  by (simp add: gap_window_def lags_alt tm.filter_slice_stable)

definition changed_within :: "int \<Rightarrow> int option \<Rightarrow> hb_row list \<Rightarrow> hb_row list \<Rightarrow> bool" where
  "changed_within since until xs ys =
     (filter (\<lambda>r. h_at r < since) ys = filter (\<lambda>r. h_at r < since) xs \<and>
      (case until of None \<Rightarrow> True | Some u \<Rightarrow> since \<le> u \<and> filter (\<lambda>r. u < h_at r) ys = filter (\<lambda>r. u < h_at r) xs))"

lemma changed_within_filter:
  assumes "changed_within since until xs ys"
  shows "(\<And>r. P r \<Longrightarrow> h_at r < since) \<Longrightarrow> filter P ys = filter P xs"
    and "until = Some u \<Longrightarrow> (\<And>r. P r \<Longrightarrow> u < h_at r) \<Longrightarrow> filter P ys = filter P xs"
proof -
  have sub: "filter P ys = filter P xs"
    if "filter S ys = filter S xs" "\<And>r. P r \<Longrightarrow> S r" for S and P :: "hb_row \<Rightarrow> bool"
  proof -
    have f: "filter P (filter S zs) = filter P zs" for zs
      unfolding filter_filter by (rule filter_cong [OF refl]) (use that(2) in blast)
    show ?thesis
      using arg_cong [where f = "filter P", OF that(1)] unfolding f .
  qed
  show "filter P ys = filter P xs" if "\<And>r. P r \<Longrightarrow> h_at r < since"
    by (rule sub [of "\<lambda>r. h_at r < since"]) (use assms that in \<open>simp_all add: changed_within_def\<close>)
  show "filter P ys = filter P xs" if "until = Some u" "\<And>r. P r \<Longrightarrow> u < h_at r"
    by (rule sub [of "\<lambda>r. u < h_at r"]) (use assms that in \<open>simp_all add: changed_within_def\<close>)
qed

lemma changed_within_slice:
  "changed_within since until xs ys \<Longrightarrow>
   changed_within since until (slice_stable by_time xs) (slice_stable by_time ys)"
  by (simp add: changed_within_def tm.filter_slice_stable split: option.splits)

lemma gaps_tail:
  assumes "gaps_ok xs" and ch: "changed_within since until xs ys"
    and b: "gap_horizon ys until = Some b"
  shows "gaps_from (Some b) (filter (\<lambda>r. b < h_at r) (slice_stable by_time ys))"
proof -
  obtain u r where u: "until = Some u" "u < b" and r: "r \<in> set ys" "h_at r = b"
    using horizon_Some [OF b] by metis
  let ?S = "slice_stable by_time"
  have "filter (\<lambda>r. b \<le> h_at r) ys = filter (\<lambda>r. b \<le> h_at r) xs"
    by (rule changed_within_filter(2) [OF ch u(1)]) (use u in auto)
  moreover from r have "r \<in> set (filter (\<lambda>r. b \<le> h_at r) ys)" by auto
  ultimately have rx: "r \<in> set xs" by auto
  have "filter (\<lambda>r. b < h_at r) (?S ys) = filter (\<lambda>r. b < h_at r) (?S xs)"
    by (rule changed_within_filter(2) [OF changed_within_slice [OF ch] u(1)]) (use u in auto)
  moreover have "?S xs = filter (\<lambda>r. h_at r \<le> b) (?S xs) @ filter (\<lambda>r. b < h_at r) (?S xs)"
    using tsorted_split [of "\<lambda>r. h_at r \<le> b" "?S xs"] tsorted_slice by (auto simp: not_le)
  moreover have "last_time None (filter (\<lambda>r. h_at r \<le> b) (?S xs)) = Some b"
    using last_time_max [of "filter (\<lambda>r. h_at r \<le> b) (?S xs)" r None] rx r
    by (auto simp: tsorted_slice sorted_wrt_filter)
  ultimately show ?thesis
    using assms(1) unfolding gaps_ok_def by (metis gaps_from_append)
qed

lemma gaps_head:
  assumes ok: "gaps_ok xs" and ch: "changed_within since until xs ys"
  shows "gaps_from None (filter (\<lambda>r. h_at r < since) (slice_stable by_time ys))"
proof -
  have "filter (\<lambda>r. h_at r < since) (slice_stable by_time ys) = filter (\<lambda>r. h_at r < since) (slice_stable by_time xs)"
    by (rule changed_within_filter(1) [OF changed_within_slice [OF ch]])
  moreover have "slice_stable by_time xs = filter (\<lambda>r. h_at r < since) (slice_stable by_time xs) @
      filter (\<lambda>r. \<not> h_at r < since) (slice_stable by_time xs)"
    by (rule tsorted_split [symmetric]) (auto simp: tsorted_slice)
  ultimately show ?thesis
    using ok unfolding gaps_ok_def by (metis gaps_from_append)
qed

lemma gaps_beyond:
  assumes ok: "gaps_ok xs" and ch: "changed_within since until xs ys"
    and S: "slice_stable by_time ys = A @ R @ H" and A: "\<forall>r\<in>set A. h_at r < since"
    and R: "R = filter (below (gap_horizon ys until)) (R @ H)"
    and H: "H = filter (\<lambda>r. \<not> below (gap_horizon ys until) r) (R @ H)"
  shows "gaps_from (last_time p (map (repair ys since until) R)) H"
proof (cases "gap_horizon ys until")
  case None
  then have "H = []" using H by (simp add: below_def)
  then show ?thesis by simp
next
  case (Some b)
  then obtain u r where u: "until = Some u" "u < b" and r: "r \<in> set ys" "h_at r = b"
    by (rule horizon_Some) blast
  with ch have su: "since \<le> u" by (simp add: changed_within_def)
  have "filter (\<lambda>x. b < h_at x) A = []"
    using A su u(2) by (force simp: filter_empty_conv)
  then have "filter (\<lambda>x. b < h_at x) (slice_stable by_time ys) = filter (\<lambda>x. \<not> below (Some b) x) (R @ H)"
    by (simp add: S below_def not_le)
  then have HT: "H = filter (\<lambda>x. b < h_at x) (slice_stable by_time ys)"
    using H Some by simp
  have "r \<notin> set (filter (\<lambda>x. b < h_at x) (slice_stable by_time ys))" using r by simp
  then have "r \<notin> set H" unfolding HT [symmetric] .
  moreover have "r \<in> set (slice_stable by_time ys)" using r by simp
  ultimately have "r \<in> set R"
    using A r su u(2) unfolding S by force
  moreover have "\<forall>x\<in>set (filter (below (gap_horizon ys until)) (R @ H)). h_at x \<le> h_at r"
    using Some r by (auto simp: below_def)
  then have "\<forall>x\<in>set R. h_at x \<le> h_at r"
    unfolding R [symmetric] .
  moreover have "tsorted R"
    using tsorted_slice [of ys] by (simp add: S sorted_wrt_append)
  ultimately have "last_time p (map (repair ys since until) R) = Some b"
    using last_time_max [of "map (repair ys since until) R" "repair ys since until r"] r
    by (simp add: sorted_wrt_map)
  then show ?thesis
    using gaps_tail [OF ok ch Some] unfolding HT [symmetric] by simp
qed

lemma gaps_repaired:
  assumes ok: "gaps_ok xs" and ch: "changed_within since until xs ys" and ids: "distinct (map h_id ys)"
  shows "gaps_ok (map (repair ys since until) ys)"
proof -
  let ?S = "slice_stable by_time ys" and ?f = "repair ys since until"
  have su: "since \<le> u" if "until = Some u" for u
    using ch that by (simp add: changed_within_def)
  obtain L P R H where A: "filter (\<lambda>r. h_at r < since) ?S = L @ P" and B: "filter (\<lambda>r. \<not> h_at r < since) ?S = R @ H"
    and seg: "filter (in_span (gap_anchor ys since) (gap_horizon ys until)) ?S = P @ R"
    and PL: "P = [] \<longrightarrow> L = []" and R: "R = filter (below (gap_horizon ys until)) (R @ H)"
    and H: "H = filter (\<lambda>r. \<not> below (gap_horizon ys until) r) (R @ H)"
    using window_parts [of ?S ys until since, OF tsorted_slice set_slice_stable su] by blast
  have S: "?S = (L @ P) @ R @ H"
    using tsorted_split [of "\<lambda>r. h_at r < since" ?S] tsorted_slice A B by auto
  have LP: "\<forall>r\<in>set (L @ P). h_at r < since"
    unfolding A [symmetric] by simp
  have RH: "\<forall>r\<in>set (R @ H). since \<le> h_at r"
    unfolding B [symmetric] by auto
  have w: "gap_window ys since until = lags_from None P @ lags_from (last_time None P) R"
    by (simp add: gap_window_alt seg lags_from_append)
  have "distinct (map h_id ?S)"
    using ids by (metis mset_map mset_slice_stable mset_eq_imp_distinct_iff)
  then have d: "distinct (map h_id (P @ R @ H))" by (simp add: S)
  have fstw: "fst ` set (lags_from p us) = h_id ` set us" for p us
    by (metis map_fst_lags_from set_map)
  have "fst ` set (gap_window ys since until) = h_id ` set (P @ R)"
    by (simp add: w fstw image_Un)
  then have "h_id r \<notin> fst ` set (gap_window ys since until)" if "r \<in> set H" for r
    using d that by auto
  then have "map ?f H = H"
    by (intro map_idI) (auto simp: repair_def simp del: image_iff intro!: regap_absent)
  moreover have "map ?f (L @ P) = L @ P"
    using LP by (intro map_idI) (force simp: repair_def)
  moreover have fR: "map ?f R = map (regap (lags_from None P @ lags_from (last_time None P) R)) R"
    using RH by (intro map_cong) (auto simp: repair_def w)
  have "gaps_from (last_time None P) (map ?f R)"
    unfolding fR using d by (intro gaps_from_regap) (auto simp: fstw)
  moreover have "last_time None (L @ P) = last_time None P"
    using PL by (auto simp: last_time_def)
  moreover have "gaps_from None (L @ P)"
    using gaps_head [OF ok ch] A by simp
  moreover have "gaps_from (last_time (last_time None P) (map ?f R)) H"
    by (rule gaps_beyond [OF ok ch S LP R H])
  ultimately have "gaps_from None (map ?f ?S)"
    unfolding S map_append by (simp only: gaps_from_append simp_thms)
  then show ?thesis by (simp add: gaps_ok_def slice_stable_map)
qed

end
