(* ===== verification/DerivedSteps.thy ===== *)
theory DerivedSteps
  imports DerivedData
begin

text \<open>
  The statements of an ingest, one at a time: what inserting leaves of the rows, what rewriting the
  gaps and rebuilding whole days of the rollup give back, and that the other senders see nothing.
\<close>

section \<open>Grouping\<close>

lemma filter_remdups: "filter P (remdups xs) = remdups (filter P xs)"
  by (simp add: remdups_filter)

lemma day_group_simps [simp]:
  "d_sender (day_group s day rs k) = s" "d_day (day_group s day rs k) = fst k"
  "d_axes (day_group s day rs k) = snd k"
  by (simp_all add: day_group_def Let_def)

lemma aggregate_sender: "d \<in> set (aggregate s day rs) \<Longrightarrow> d_sender d = s"
  by (auto simp: aggregate_def)

lemma aggregate_filter:
  "filter (\<lambda>d. Q (d_day d)) (aggregate s day rs) = aggregate s day (filter (\<lambda>r. Q (day (h_at r))) rs)"
proof -
  have key: "fst (rollup_key day r) = day (h_at r)" for r
    by (simp add: rollup_key_def)
  have "day_group s day rs k = day_group s day (filter (\<lambda>r. Q (day (h_at r))) rs) k" if "Q (fst k)" for k
  proof -
    have "filter (\<lambda>r. rollup_key day r = k) (filter (\<lambda>r. Q (day (h_at r))) rs) = filter (\<lambda>r. rollup_key day r = k) rs"
      unfolding filter_filter by (rule filter_cong [OF refl]) (use that key in auto)
    then show ?thesis by (simp add: day_group_def)
  qed
  then show ?thesis
    by (auto simp: aggregate_def filter_map comp_def key filter_remdups intro!: map_cong)
qed

lemma mset_filter_split: "mset (filter P xs) + mset (filter (\<lambda>x. \<not> P x) xs) = mset xs"
  by (induction xs) auto

text \<open>The seconds of the groups are those of the rows.\<close>

lemma sum_by_key:
  fixes f :: "'a \<Rightarrow> int"
  shows "set (map k xs) \<subseteq> set ks \<Longrightarrow> distinct ks \<Longrightarrow>
    sum_list (map (\<lambda>j. sum_list (map f (filter (\<lambda>x. k x = j) xs))) ks) = sum_list (map f xs)"
proof (induction xs)
  case (Cons x xs)
  have "sum_list (map (\<lambda>j. sum_list (map f (filter (\<lambda>y. k y = j) (x # xs)))) ks) =
      sum_list (map (\<lambda>j. (if j = k x then f x else 0) + sum_list (map f (filter (\<lambda>y. k y = j) xs))) ks)"
    by (intro arg_cong [where f = sum_list] map_cong) auto
  also have "\<dots> = sum_list (map (\<lambda>j. if j = k x then f x else 0) ks) + sum_list (map f xs)"
    using Cons by (simp add: sum_list_addf)
  also have "sum_list (map (\<lambda>j. if j = k x then f x else 0) ks) = f x"
    using Cons.prems by (simp add: sum_list_distinct_conv_sum_set)
  finally show ?case by simp
qed simp

lemma aggregate_seconds: "sum_list (map d_seconds (aggregate s day rs)) = sum_list (map row_seconds rs)"
  using sum_by_key [of "rollup_key day" rs "remdups (map (rollup_key day) rs)" row_seconds]
  by (simp add: aggregate_def comp_def day_group_def Let_def)

section \<open>Rewriting the gaps\<close>

lemma set_gap_simps [simp]:
  "of_sender t (set_gap w s since r) = of_sender t r" "h_at (set_gap w s since r) = h_at r"
  "h_id (set_gap w s since r) = h_id r" "h_beat (set_gap w s since r) = h_beat r"
  by (auto simp: set_gap_def of_sender_def split: option.splits)

lemma set_gap_repair: "of_sender s r \<Longrightarrow> set_gap (gap_window xs since until) s since r = repair xs since until r"
  by (simp add: set_gap_def repair_def regap_def)

lemma set_gap_other: "\<not> of_sender s r \<Longrightarrow> set_gap w s since r = r"
  by (simp add: set_gap_def)

lemma sender_rows_repair:
  "sender_rows t (db\<lparr>bd_rows := map (set_gap (gap_window (sender_rows s db) since until) s since) (bd_rows db)\<rparr>) =
   (if t = s then map (repair (sender_rows s db) since until) (sender_rows s db) else sender_rows t db)"
proof (cases "t = s")
  case True
  then show ?thesis
    by (auto simp: sender_rows_def filter_map comp_def set_gap_repair intro!: map_cong)
next
  case False
  have "\<not> of_sender s r" if "of_sender t r" for r
    using that False by (simp add: of_sender_def)
  with False show ?thesis
    by (auto simp: sender_rows_def filter_map comp_def set_gap_other intro!: map_idI)
qed

lemma recompute_effect:
  assumes "recomputeGapsUntil db s since until = Some db'"
  shows "sender_rows t db' =
      (if t = s then map (repair (sender_rows s db) since until) (sender_rows s db) else sender_rows t db)"
    and "bd_rollup db' = bd_rollup db" "bd_zones db' = bd_zones db" "bd_next db' = bd_next db"
    "bd_projects db' = bd_projects db" "map h_id (bd_rows db') = map h_id (bd_rows db)"
    "map h_beat (bd_rows db') = map h_beat (bd_rows db)"
proof -
  have db': "db' = db\<lparr>bd_rows := map (set_gap (gap_window (sender_rows s db) since until) s since) (bd_rows db)\<rparr>"
    using assms by (simp add: recomputeGapsUntil_def Let_def split: if_splits)
  show "sender_rows t db' = (if t = s then map (repair (sender_rows s db) since until) (sender_rows s db) else sender_rows t db)"
    unfolding db' by (rule sender_rows_repair)
qed (use assms in \<open>auto simp: recomputeGapsUntil_def Let_def comp_def split: if_splits\<close>)

section \<open>Rebuilding the days\<close>

lemma refresh_simps [simp]:
  "bd_rows (refreshRollup zs db s since) = bd_rows db" "bd_zones (refreshRollup zs db s since) = bd_zones db"
  "bd_next (refreshRollup zs db s since) = bd_next db" "bd_projects (refreshRollup zs db s since) = bd_projects db"
  "sender_rows t (refreshRollup zs db s since) = sender_rows t db"
  "rollup_zone (refreshRollup zs db s since) t = rollup_zone db t"
  by (auto simp: refreshRollup_def Let_def sender_rows_def rollup_zone_def split: option.splits)

lemma filter_other: "t \<noteq> s \<Longrightarrow> filter (\<lambda>d. d_sender d = t) (aggregate s day rs) = []"
  using aggregate_sender by (fastforce simp: filter_empty_conv)

lemma refresh_other: "t \<noteq> s \<Longrightarrow> sender_rollup t (refreshRollup zs db s since) = sender_rollup t db"
  by (auto simp: refreshRollup_def Let_def sender_rollup_def filter_other intro!: filter_cong split: option.splits)

lemma refresh_own:
  assumes "rollup_zone db s = Some tz"
  shows "sender_rollup s (refreshRollup zs db s since) =
    filter (\<lambda>d. \<not> z_day zs tz since \<le> d_day d) (sender_rollup s db) @
    aggregate s (z_day zs tz) (filter (\<lambda>r. z_start zs tz (z_day zs tz since) \<le> h_at r) (sender_rows s db))"
proof -
  have "filter (\<lambda>d. d_sender d = s) (aggregate s day rs) = aggregate s day rs" for day rs
    by (rule filter_True) (auto dest: aggregate_sender)
  then show ?thesis
    using assms by (auto simp: refreshRollup_def Let_def sender_rollup_def intro!: filter_cong)
qed

lemma refresh_ok:
  assumes z: "zones_ok zs" and tz: "rollup_zone db s = Some tz"
    and early: "mset (filter (\<lambda>d. \<not> z_day zs tz since \<le> d_day d) (sender_rollup s db)) =
      mset (aggregate s (z_day zs tz) (filter (\<lambda>r. \<not> z_day zs tz since \<le> z_day zs tz (h_at r)) (sender_rows s db)))"
  shows "rollup_ok zs s (refreshRollup zs db s since)"
proof -
  let ?d = "z_day zs tz" and ?rs = "sender_rows s db"
  have days: "local_days (z_day zs tz) (z_start zs tz)"
    using z by (simp add: zones_ok_def)
  have "mset (sender_rollup s (refreshRollup zs db s since)) =
      mset (aggregate s ?d (filter (\<lambda>r. \<not> ?d since \<le> ?d (h_at r)) ?rs)) +
      mset (aggregate s ?d (filter (\<lambda>r. ?d since \<le> ?d (h_at r)) ?rs))"
    using early by (simp add: refresh_own [OF tz] local_days.starts [OF days])
  also have "\<dots> = mset (aggregate s ?d ?rs)"
    using mset_filter_split [of "\<lambda>d. ?d since \<le> d_day d" "aggregate s ?d ?rs"]
    unfolding aggregate_filter [of "\<lambda>x. \<not> ?d since \<le> x", symmetric] aggregate_filter [of "\<lambda>x. ?d since \<le> x", symmetric]
    by (simp add: add.commute)
  finally show ?thesis
    using tz by (simp add: rollup_ok_def)
qed

text \<open>One sender's repair: its rows have changed from \<open>since\<close> to \<open>until\<close>, its rollup has not.\<close>

lemma repair_ok:
  assumes z: "zones_ok zs" and ok: "derived_ok zs s db0"
    and same: "sender_rollup s db = sender_rollup s db0" "rollup_zone db s = rollup_zone db0 s"
    and ch: "changed_within since until (sender_rows s db0) (sender_rows s db)"
    and ids: "distinct (map h_id (sender_rows s db))"
    and rg: "recomputeGapsUntil db s since until = Some db1"
  shows "derived_ok zs s (refreshRollup zs db1 s since)"
proof -
  obtain tz where tz: "rollup_zone db0 s = Some tz"
    and roll: "mset (sender_rollup s db0) = mset (aggregate s (z_day zs tz) (sender_rows s db0))"
    using ok by (auto simp: derived_ok_def rollup_ok_def split: option.splits)
  let ?d = "z_day zs tz"
  have days: "local_days (z_day zs tz) (z_start zs tz)"
    using z by (simp add: zones_ok_def)
  let ?P = "\<lambda>r. \<not> ?d since \<le> ?d (h_at r)" and ?f = "repair (sender_rows s db) since until"
  have P: "h_at r < since" if "?P r" for r :: hb_row
    using that local_days.day_mono [OF days, of since "h_at r"] by (cases "since \<le> h_at r") auto
  have tz1: "rollup_zone db1 s = Some tz"
    using recompute_effect(3) [OF rg] same(2) tz by (simp add: rollup_zone_def)
  have rows1: "sender_rows s db1 = map ?f (sender_rows s db)"
    using recompute_effect(1) [OF rg, of s] by simp
  have "filter ?P (sender_rows s db1) = map ?f (filter ?P (sender_rows s db))"
    unfolding rows1 filter_map by (simp add: comp_def)
  also have "\<dots> = filter ?P (sender_rows s db)"
    using P by (intro map_idI) (force simp: repair_def)
  also have "\<dots> = filter ?P (sender_rows s db0)"
    by (rule changed_within_filter(1) [OF ch P])
  finally have early: "filter ?P (sender_rows s db1) = filter ?P (sender_rows s db0)" .
  have "sender_rollup s db1 = sender_rollup s db0"
    using recompute_effect(2) [OF rg] same(1) by (simp add: sender_rollup_def)
  then have "mset (filter (\<lambda>d. \<not> ?d since \<le> d_day d) (sender_rollup s db1)) =
      mset (aggregate s ?d (filter ?P (sender_rows s db1)))"
    unfolding early aggregate_filter [of "\<lambda>x. \<not> ?d since \<le> x", symmetric] by (simp add: roll)
  then have "rollup_ok zs s (refreshRollup zs db1 s since)"
    by (rule refresh_ok [OF z tz1])
  moreover have "gaps_ok (sender_rows s db1)"
    unfolding rows1 using ok by (intro gaps_repaired [OF _ ch ids]) (simp add: derived_ok_def)
  ultimately show ?thesis by (simp add: derived_ok_def)
qed

end
