(* ===== verification/DerivedProps.thy ===== *)
theory DerivedProps
  imports DerivedSteps
begin

text \<open>
  The operations on heartbeats keep the derived data correct: ingesting, recording workouts and
  resyncing, and what the health report says of a correct state.
\<close>

section \<open>Inserting\<close>

lemma take_machine_simps [simp]:
  "h_id (take_machine b r) = h_id r" "h_at (take_machine b r) = h_at r" "h_gap (take_machine b r) = h_gap r"
  "b_sender (h_beat (take_machine b r)) = b_sender (h_beat r)"
  "b_entity (h_beat (take_machine b r)) = b_entity (h_beat r)"
  "same_key c (take_machine b r) = same_key c r"
  by (simp_all add: take_machine_def same_key_def)

lemma take_machine_other: "\<not> same_key b r \<Longrightarrow> take_machine b r = r"
  by (simp add: take_machine_def)

lemma filter_map_same:
  assumes "\<And>x. f x = x \<or> \<not> P x \<and> \<not> P (f x)"
  shows "filter P (map f xs) = filter P xs"
proof (induction xs)
  case (Cons x xs)
  with assms [of x] show ?case by auto
qed simp

text \<open>Rows that are not of the sender and the instant of an inserted beat are as before.\<close>

lemma insert_beat_filter:
  assumes P: "\<And>r. b_sender (h_beat r) = b_sender b \<Longrightarrow> h_at r = beat_at b \<Longrightarrow> \<not> P r"
  shows "filter P (fst (fst (insert_beat b t))) = filter P (fst t)"
proof -
  have "take_machine b r = r \<or> \<not> P r \<and> \<not> P (take_machine b r)" for r
    using P [of r] P [of "take_machine b r"] take_machine_other [of b r] by (auto simp: same_key_def)
  then show ?thesis
    using P by (auto simp: insert_beat_def intro!: filter_map_same split: option.splits)
qed

lemma batch_Cons:
  "insertHeartbeatsBatch (b # bs) t =
   (fst (insertHeartbeatsBatch bs (fst (insert_beat b t))),
    snd (insert_beat b t) # snd (insertHeartbeatsBatch bs (fst (insert_beat b t))))"
  by (simp split: prod.splits)

lemma insert_batch_filter:
  "(\<And>b r. b \<in> set bs \<Longrightarrow> b_sender (h_beat r) = b_sender b \<Longrightarrow> h_at r = beat_at b \<Longrightarrow> \<not> P r) \<Longrightarrow>
   filter P (fst (fst (insertHeartbeatsBatch bs t))) = filter P (fst t)"
proof (induction bs arbitrary: t)
  case (Cons b bs)
  have "filter P (fst (fst (insert_beat b t))) = filter P (fst t)"
    by (rule insert_beat_filter) (use Cons.prems [of b] in auto)
  with Cons.IH [of "fst (insert_beat b t)"] Cons.prems show ?case
    unfolding batch_Cons fst_conv by fastforce
qed simp

definition fresh :: "hb_row list \<times> int \<Rightarrow> bool" where
  "fresh t = (distinct (map h_id (fst t)) \<and> list_all (\<lambda>r. h_id r < snd t) (fst t))"

lemma insert_beat_fresh: "fresh t \<Longrightarrow> fresh (fst (insert_beat b t))"
  by (force simp: fresh_def insert_beat_def list_all_iff comp_def split: option.splits)

lemma insert_batch_fresh: "fresh t \<Longrightarrow> fresh (fst (insertHeartbeatsBatch bs t))"
proof (induction bs arbitrary: t)
  case (Cons b bs)
  then show ?case unfolding batch_Cons fst_conv by (simp add: insert_beat_fresh)
qed simp

lemma insert_phases_effect:
  assumes "insert_phases db hbs = Some (db1, ids)"
  shows "bd_rollup db1 = bd_rollup db" "bd_zones db1 = bd_zones db"
    and "ids_ok db \<Longrightarrow> ids_ok db1"
    and "(\<And>b r. b \<in> set hbs \<Longrightarrow> b_sender (h_beat r) = b_sender b \<Longrightarrow> h_at r = beat_at b \<Longrightarrow> \<not> P r) \<Longrightarrow>
      filter P (bd_rows db1) = filter P (bd_rows db)"
    and "list_all (known_sender db) hbs"
    and "ids = snd (insertHeartbeatsBatch hbs (bd_rows db, bd_next db))"
proof -
  let ?t = "insertHeartbeatsBatch hbs (bd_rows db, bd_next db)"
  have known: "list_all (known_sender db) hbs" and ids: "ids = snd ?t"
    and db1: "db1 = db\<lparr>bd_projects := insertProjectsBatch hbs (bd_projects db), bd_rows := fst (fst ?t), bd_next := snd (fst ?t)\<rparr>"
    using assms by (auto simp: insert_phases_def split: if_splits prod.splits)
  show "bd_rollup db1 = bd_rollup db" "bd_zones db1 = bd_zones db" "list_all (known_sender db) hbs" "ids = snd ?t"
    by (simp_all add: db1 known ids)
  show "ids_ok db \<Longrightarrow> ids_ok db1"
    using insert_batch_fresh [of "(bd_rows db, bd_next db)" hbs] by (simp add: ids_ok_def fresh_def db1)
  show "(\<And>b r. b \<in> set hbs \<Longrightarrow> b_sender (h_beat r) = b_sender b \<Longrightarrow> h_at r = beat_at b \<Longrightarrow> \<not> P r) \<Longrightarrow>
      filter P (bd_rows db1) = filter P (bd_rows db)"
    using insert_batch_filter [of hbs P "(bd_rows db, bd_next db)"] by (simp add: db1)
qed

lemma filter_sender_rows: "filter P (sender_rows s db) = filter (\<lambda>r. P r \<and> of_sender s r) (bd_rows db)"
  by (auto simp: sender_rows_def intro!: filter_cong)

lemma insert_changes:
  assumes ins: "insert_phases db hbs = Some (db1, ids)"
    and ts: "\<And>b. b \<in> set hbs \<Longrightarrow> b_sender b = Some s \<Longrightarrow> since \<le> beat_at b \<and> beat_at b \<le> u" and su: "since \<le> u"
  shows "changed_within since (Some u) (sender_rows s db) (sender_rows s db1)"
proof -
  have "filter (\<lambda>r. P r \<and> of_sender s r) (bd_rows db1) = filter (\<lambda>r. P r \<and> of_sender s r) (bd_rows db)"
    if "\<And>r. P r \<Longrightarrow> h_at r < since \<or> u < h_at r" for P :: "hb_row \<Rightarrow> bool"
    by (rule insert_phases_effect(4) [OF ins]) (use ts that in \<open>fastforce simp: of_sender_def\<close>)
  then show ?thesis
    using su by (simp add: changed_within_def filter_sender_rows)
qed

lemma insert_unchanged:
  assumes ins: "insert_phases db hbs = Some (db1, ids)" and s: "\<And>b. b \<in> set hbs \<Longrightarrow> b_sender b \<noteq> Some s"
  shows "sender_rows s db1 = sender_rows s db"
  unfolding sender_rows_def
  by (rule insert_phases_effect(4) [OF ins]) (use s in \<open>auto simp: of_sender_def\<close>)

section \<open>The senders of a batch, one after the other\<close>

definition same_for :: "string \<Rightarrow> beats_db \<Rightarrow> beats_db \<Rightarrow> bool" where
  "same_for s db db' \<longleftrightarrow> sender_rows s db' = sender_rows s db \<and> sender_rollup s db' = sender_rollup s db \<and>
     rollup_zone db' s = rollup_zone db s"

lemma same_for_refl [simp]: "same_for s db db"
  by (simp add: same_for_def)

lemma same_for_trans: "same_for s a b \<Longrightarrow> same_for s b c \<Longrightarrow> same_for s a c"
  by (simp add: same_for_def)

lemma derived_same: "same_for s db db' \<Longrightarrow> derived_ok zs s db' = derived_ok zs s db"
  by (simp add: same_for_def derived_ok_def rollup_ok_def split: option.splits)

lemma ids_ok_map: "ids_ok db \<longleftrightarrow> distinct (map h_id (bd_rows db)) \<and> (\<forall>i\<in>set (map h_id (bd_rows db)). i < bd_next db)"
  by (simp add: ids_ok_def list_all_iff)

text \<open>What a repair of one sender, with its rebuild, leaves of the rest.\<close>

lemma repair_frame:
  assumes "recomputeGapsUntil db s since until = Some db1"
  shows "t \<noteq> s \<Longrightarrow> same_for t db (refreshRollup zs db1 s since')"
    and "ids_ok (refreshRollup zs db1 s since') = ids_ok db"
    and "bd_zones (refreshRollup zs db1 s since') = bd_zones db"
    and "bd_next (refreshRollup zs db1 s since') = bd_next db"
proof -
  note e = recompute_effect [OF assms]
  show "t \<noteq> s \<Longrightarrow> same_for t db (refreshRollup zs db1 s since')"
    using e(1) [of t] e(2,3) refresh_other [of t s zs db1 since']
    by (simp add: same_for_def sender_rollup_def rollup_zone_def)
  show "ids_ok (refreshRollup zs db1 s since') = ids_ok db"
    unfolding ids_ok_map refresh_simps e(4,6) ..
qed (use recompute_effect [OF assms] in simp_all)

lemma maintain_frame:
  assumes "maintain zs hbs s db = Some db'"
  shows "t \<noteq> s \<Longrightarrow> same_for t db db'" "ids_ok db' = ids_ok db" "bd_zones db' = bd_zones db"
  using assms repair_frame by (auto simp: maintain_def Let_def)

lemma maintain_all_frame:
  "maintain_all zs hbs ss db = Some db' \<Longrightarrow>
   (t \<notin> set ss \<longrightarrow> same_for t db db') \<and> ids_ok db' = ids_ok db \<and> bd_zones db' = bd_zones db"
proof (induction ss arbitrary: db)
  case (Cons s ss)
  then obtain m where m: "maintain zs hbs s db = Some m" "maintain_all zs hbs ss m = Some db'"
    by (auto simp: bind_eq_Some_conv)
  from maintain_frame [OF m(1)] Cons.IH [OF m(2)] show ?case
    by (auto intro: same_for_trans)
qed simp

lemma maintain_all_own:
  "maintain_all zs hbs ss db = Some db' \<Longrightarrow> distinct ss \<Longrightarrow> s \<in> set ss \<Longrightarrow>
   \<exists>m m'. same_for s db m \<and> ids_ok m = ids_ok db \<and> maintain zs hbs s m = Some m' \<and> same_for s m' db'"
proof (induction ss arbitrary: db)
  case (Cons a ss)
  then obtain m where m: "maintain zs hbs a db = Some m" "maintain_all zs hbs ss m = Some db'"
    by (auto simp: bind_eq_Some_conv)
  show ?case
  proof (cases "a = s")
    case True
    with Cons.prems m maintain_all_frame [OF m(2), of s] show ?thesis
      by (intro exI [of _ db] exI [of _ m]) auto
  next
    case False
    with Cons.prems have "s \<in> set ss" "distinct ss" by auto
    from Cons.IH [OF m(2) this(2,1)] obtain m1 m1' where
      "same_for s m m1" "ids_ok m1 = ids_ok m" "maintain zs hbs s m1 = Some m1'" "same_for s m1' db'"
      by blast
    with maintain_frame [OF m(1)] False show ?thesis
      by (metis same_for_trans)
  qed
qed simp

section \<open>Correct states\<close>

lemma ids_of_sender: "ids_ok db \<Longrightarrow> distinct (map h_id (sender_rows s db))"
  by (simp add: ids_ok_def sender_rows_def distinct_map_filter)

lemma insert_same_for:
  assumes ins: "insert_phases db hbs = Some (db1, ids)" and s: "s \<notin> set (batch_senders hbs)"
  shows "same_for s db db1"
proof -
  have "b_sender b \<noteq> Some s" if "b \<in> set hbs" for b
    using s that by (force simp: batch_senders_def)
  then show ?thesis
    using insert_unchanged [OF ins] insert_phases_effect(1,2) [OF ins]
    by (simp add: same_for_def sender_rollup_def rollup_zone_def)
qed

lemma save_derived:
  assumes z: "zones_ok zs" and ids: "ids_ok db" and ok: "derived_ok zs s db"
    and ins: "insert_phases db hbs = Some (db1, is)"
    and m: "maintain_all zs hbs (batch_senders hbs) db1 = Some db2"
  shows "derived_ok zs s db2"
proof (cases "s \<in> set (batch_senders hbs)")
  case False
  then show ?thesis
    using insert_same_for [OF ins False] maintain_all_frame [OF m, of s] ok by (metis derived_same)
next
  case True
  obtain m m' where same: "same_for s db1 m" "ids_ok m = ids_ok db1" "same_for s m' db2"
    and mt: "maintain zs hbs s m = Some m'"
    using maintain_all_own [OF m _ True] by (auto simp: batch_senders_def)
  let ?ts = "sender_times hbs s"
  obtain r where r: "recomputeGapsUntil m s (Min (set ?ts)) (Some (Max (set ?ts))) = Some r"
    and m': "m' = refreshRollup zs r s (Min (set ?ts))"
    using mt by (auto simp: maintain_def Let_def)
  from True obtain b where b: "b \<in> set hbs" "b_sender b = Some s"
    by (auto simp: batch_senders_def split: option.splits)
  have ts: "Min (set ?ts) \<le> beat_at c \<and> beat_at c \<le> Max (set ?ts)" if "c \<in> set hbs" "b_sender c = Some s" for c
    using that by (auto simp: sender_times_def)
  have "changed_within (Min (set ?ts)) (Some (Max (set ?ts))) (sender_rows s db) (sender_rows s m)"
    using insert_changes [OF ins ts] ts [OF b] same(1) by (simp add: same_for_def)
  moreover have "sender_rollup s m = sender_rollup s db" "rollup_zone m s = rollup_zone db s"
    using same(1) insert_phases_effect(1,2) [OF ins] by (simp_all add: same_for_def sender_rollup_def rollup_zone_def)
  moreover have "distinct (map h_id (sender_rows s m))"
    using same(2) insert_phases_effect(3) [OF ins ids] ids_of_sender by simp
  ultimately have "derived_ok zs s m'"
    unfolding m' by (intro repair_ok [OF z ok _ _ _ _ r])
  then show ?thesis
    using derived_same [OF same(3)] by simp
qed

lemma save_ok:
  assumes z: "zones_ok zs" and ok: "beats_ok zs db" and sv: "SaveHeartbeats zs db hbs = Some (db', ids)"
  shows "beats_ok zs db'"
proof (cases "hbs = []")
  case True
  with ok sv show ?thesis by (simp add: SaveHeartbeats_def saveHeartbeats_def)
next
  case False
  then obtain db1 where ins: "insert_phases db hbs = Some (db1, ids)"
    and m: "maintain_all zs hbs (batch_senders hbs) db1 = Some db'"
    using sv by (auto simp: SaveHeartbeats_def saveHeartbeats_def bind_eq_Some_conv)
  have "ids_ok db'" "bd_zones db' = bd_zones db"
    using maintain_all_frame [OF m] insert_phases_effect(2,3) [OF ins] ok by (auto simp: beats_ok_def)
  moreover have "derived_ok zs (fst u) db'" if "u \<in> set (bd_zones db)" for u
    using save_derived [OF z _ _ ins m] ok that by (auto simp: beats_ok_def list_all_iff)
  ultimately show ?thesis by (simp add: beats_ok_def list_all_iff)
qed

lemma workouts_ok:
  assumes z: "zones_ok zs" and ok: "beats_ok zs db" and sv: "SaveWorkouts zs db owner ws = Some (db', ids)"
  shows "beats_ok zs db'"
proof (cases "ws = []")
  case True
  with ok sv show ?thesis by (simp add: SaveWorkouts_def)
next
  case False
  let ?hbs = "map (workout_beat owner) ws"
  let ?e = "Min (set (map beat_at ?hbs))"
  obtain db1 db2 where ins: "insert_phases db ?hbs = Some (db1, ids)"
    and rg: "recomputeGapsUntil db1 owner ?e None = Some db2" and db': "db' = refreshRollup zs db2 owner ?e"
    using sv False by (auto simp: SaveWorkouts_def recomputeGaps_def Let_def bind_eq_Some_conv image_image)
  note fr = repair_frame [OF rg, where zs = zs and since' = ?e, folded db']
  have ids: "ids_ok db1"
    using insert_phases_effect(3) [OF ins] ok by (simp add: beats_ok_def)
  have "derived_ok zs s db'" if s: "(s, tz) \<in> set (bd_zones db)" for s tz
  proof (cases "s = owner")
    case True
    have "changed_within ?e None (sender_rows s db) (sender_rows s db1)"
    proof -
      have "filter (\<lambda>r. h_at r < ?e \<and> of_sender s r) (bd_rows db1) = filter (\<lambda>r. h_at r < ?e \<and> of_sender s r) (bd_rows db)"
        by (rule insert_phases_effect(4) [OF ins]) (auto simp: not_less)
      then show ?thesis by (simp add: changed_within_def filter_sender_rows)
    qed
    moreover have "sender_rollup s db1 = sender_rollup s db" "rollup_zone db1 s = rollup_zone db s"
      using insert_phases_effect(1,2) [OF ins] by (simp_all add: sender_rollup_def rollup_zone_def)
    moreover have "derived_ok zs s db" using ok s by (auto simp: beats_ok_def list_all_iff)
    moreover have "recomputeGapsUntil db1 s ?e None = Some db2" "db' = refreshRollup zs db2 s ?e"
      using rg db' True by simp_all
    ultimately show ?thesis
      using repair_ok [OF z _ _ _ _ ids_of_sender [OF ids]] by metis
  next
    case False
    then have "s \<notin> set (batch_senders ?hbs)"
      by (auto simp: batch_senders_def workout_beat_def)
    then have "same_for s db db'"
      using insert_same_for [OF ins] fr(1) [OF False] same_for_trans by blast
    with ok s show ?thesis by (auto simp: beats_ok_def list_all_iff derived_same)
  qed
  moreover have "ids_ok db'" "bd_zones db' = bd_zones db"
    using fr(2,3) ids insert_phases_effect(2) [OF ins] by simp_all
  ultimately show ?thesis by (auto simp: beats_ok_def list_all_iff)
qed

end
