(* ===== verification/UploadRetry.thy ===== *)
theory UploadRetry
  imports DerivedMeaning
begin

text \<open>
  Uploading the same beats again: an editor that never saw the answer sends its batch once more. The
  second upload finds every beat by its key, answers with the same ids and leaves the tables alone.
\<close>

section \<open>A batch meets its own rows\<close>

lemma take_machine_settled: "take_machine b r = r \<longleftrightarrow> (same_key b r \<longrightarrow> b_machine (h_beat r) = b_machine b)"
proof
  assume "take_machine b r = r"
  then show "same_key b r \<longrightarrow> b_machine (h_beat r) = b_machine b"
    by (metis beat.select_convs(10) beat.surjective beat.update_convs(10) hb_row.select_convs(2)
        hb_row.surjective hb_row.update_convs(2) take_machine_def)
next
  assume "same_key b r \<longrightarrow> b_machine (h_beat r) = b_machine b"
  then show "take_machine b r = r" by (auto simp: take_machine_def)
qed

lemma same_key_fold [simp]: "same_key c (fold take_machine bs x) = same_key c x"
  by (induction bs arbitrary: x) auto

lemma h_id_fold [simp]: "h_id (fold take_machine bs x) = h_id x"
  by (induction bs arbitrary: x) auto

lemma fold_absorb: "c \<in> set bs \<Longrightarrow> same_key c x \<Longrightarrow> fold take_machine bs (take_machine b x) = fold take_machine bs x"
proof (induction bs)
  case (Cons a bs)
  show ?case
  proof (cases "same_key a x")
    case True
    then have "take_machine a (take_machine b x) = take_machine a x"
      by (simp add: take_machine_def)
        (metis (no_types, lifting) same_key_def beat.select_convs hb_row.select_convs take_machine_def take_machine_simps(6))
    then show ?thesis by simp
  next
    case False
    then have "take_machine a (take_machine b x) = take_machine b x" "take_machine a x = x"
      by (simp_all add: take_machine_other)
    with False Cons show ?thesis by auto
  qed
qed simp

lemma insert_beat_settles:
  assumes "b_sender b \<noteq> None" "x \<in> set (fst (fst (insert_beat b t)))"
  shows "take_machine b x = x"
proof (cases "find (same_key b) (fst t)")
  case None
  then have "\<forall>r\<in>set (fst t). \<not> same_key b r" by (simp add: find_None_iff)
  with None assms show ?thesis
    by (auto simp: insert_beat_def take_machine_settled)
next
  case (Some r)
  then obtain y where "x = take_machine b y"
    using assms by (auto simp: insert_beat_def)
  then show ?thesis by (simp add: take_machine_settled) (simp add: take_machine_def)
qed

lemma insert_beat_elsewhere:
  "x \<in> set (fst (fst (insert_beat b t))) \<Longrightarrow> b_sender b \<noteq> None \<Longrightarrow> \<not> same_key b x \<Longrightarrow> x \<in> set (fst t)"
  by (auto simp: insert_beat_def same_key_def take_machine_other split: option.splits)

lemma batch_elsewhere:
  "x \<in> set (fst (fst (insertHeartbeatsBatch bs t))) \<Longrightarrow> (\<And>b. b \<in> set bs \<Longrightarrow> b_sender b \<noteq> None \<and> \<not> same_key b x) \<Longrightarrow>
   x \<in> set (fst t)"
proof (induction bs arbitrary: t)
  case (Cons b bs)
  then have "x \<in> set (fst (fst (insert_beat b t)))"
    unfolding batch_Cons fst_conv by auto
  with Cons.prems(2) show ?case by (auto intro: insert_beat_elsewhere)
qed simp

lemma batch_settles:
  "x \<in> set (fst (fst (insertHeartbeatsBatch bs t))) \<Longrightarrow> (\<And>b. b \<in> set bs \<Longrightarrow> b_sender b \<noteq> None) \<Longrightarrow>
   fold take_machine bs x = x"
proof (induction bs arbitrary: t)
  case (Cons b bs)
  have x: "x \<in> set (fst (fst (insertHeartbeatsBatch bs (fst (insert_beat b t)))))"
    using Cons.prems(1) unfolding batch_Cons fst_conv .
  have IH: "fold take_machine bs x = x"
    using Cons.IH [OF x] Cons.prems(2) by auto
  show ?case
  proof (cases "\<exists>c\<in>set bs. same_key c x")
    case True
    with IH show ?thesis by (auto simp: fold_absorb)
  next
    case False
    with Cons.prems(2) have "x \<in> set (fst (fst (insert_beat b t)))"
      by (intro batch_elsewhere [OF x]) auto
    then have "take_machine b x = x"
      by (rule insert_beat_settles [rotated]) (use Cons.prems(2) in auto)
    with IH show ?thesis by simp
  qed
qed simp

section \<open>Ids\<close>

definition id_of :: "beat \<Rightarrow> hb_row list \<Rightarrow> int option" where
  "id_of b rs = map_option h_id (find (same_key b) rs)"

lemma id_of_Cons: "id_of b (r # rs) = (if same_key b r then Some (h_id r) else id_of b rs)"
  by (simp add: id_of_def)

lemma id_of_map:
  "(\<And>r. same_key b (f r) = same_key b r) \<Longrightarrow> (\<And>r. h_id (f r) = h_id r) \<Longrightarrow> id_of b (map f rs) = id_of b rs"
  by (induction rs) (auto simp: id_of_Cons id_of_def)

lemma id_of_append: "id_of b rs = Some i \<Longrightarrow> id_of b (rs @ ss) = Some i"
  by (induction rs) (auto simp: id_of_Cons id_of_def split: if_splits)

lemma id_of_insert: "id_of c (fst t) = Some i \<Longrightarrow> id_of c (fst (fst (insert_beat b t))) = Some i"
  by (auto simp: insert_beat_def id_of_map id_of_append split: option.splits)

lemma id_of_batch: "id_of c (fst t) = Some i \<Longrightarrow> id_of c (fst (fst (insertHeartbeatsBatch bs t))) = Some i"
proof (induction bs arbitrary: t)
  case (Cons b bs)
  then show ?case unfolding batch_Cons fst_conv by (simp add: id_of_insert)
qed simp

lemma id_of_inserted: "b_sender b \<noteq> None \<Longrightarrow> id_of b (fst (fst (insert_beat b t))) = Some (snd (insert_beat b t))"
proof (cases "find (same_key b) (fst t)")
  case None
  assume "b_sender b \<noteq> None"
  moreover have "find (same_key b) (xs @ [r]) = Some r" if "find (same_key b) xs = None" "same_key b r" for xs r
    using that by (induction xs) auto
  ultimately show ?thesis
    using None by (simp add: insert_beat_def id_of_def same_key_def)
next
  case (Some r)
  then show ?thesis by (simp add: insert_beat_def id_of_map) (simp add: id_of_def)
qed

lemma batch_ids:
  "(\<And>b. b \<in> set bs \<Longrightarrow> b_sender b \<noteq> None) \<Longrightarrow>
   map Some (snd (insertHeartbeatsBatch bs t)) = map (\<lambda>b. id_of b (fst (fst (insertHeartbeatsBatch bs t)))) bs"
proof (induction bs arbitrary: t)
  case (Cons b bs)
  have "id_of b (fst (fst (insertHeartbeatsBatch bs (fst (insert_beat b t))))) = Some (snd (insert_beat b t))"
    using Cons.prems by (intro id_of_batch id_of_inserted) auto
  then show ?case
    using Cons.IH [of "fst (insert_beat b t)"] Cons.prems unfolding batch_Cons fst_conv snd_conv by simp
qed simp

text \<open>A batch all of whose beats are there already.\<close>

lemma batch_known:
  "map (\<lambda>b. id_of b rs) bs = map Some is \<Longrightarrow>
   insertHeartbeatsBatch bs (rs, n) = ((map (fold take_machine bs) rs, n), is)"
proof (induction bs arbitrary: rs "is")
  case (Cons b bs)
  then obtain i js where "is": "is = i # js" and i: "id_of b rs = Some i"
    and js: "map (\<lambda>b. id_of b rs) bs = map Some js"
    by (cases "is") auto
  have "insert_beat b (rs, n) = ((map (take_machine b) rs, n), i)"
    using i by (auto simp: insert_beat_def id_of_def)
  moreover have "insertHeartbeatsBatch bs (map (take_machine b) rs, n) =
      ((map (fold take_machine bs) (map (take_machine b) rs), n), js)"
    using js by (intro Cons.IH) (simp add: id_of_map)
  ultimately show ?case by (simp add: "is" comp_def)
qed simp

section \<open>Gaps and settled rows\<close>

definition regapped :: "hb_row list \<Rightarrow> hb_row list \<Rightarrow> bool" where
  "regapped xs ys \<longleftrightarrow> (\<exists>f. ys = map f xs \<and> (\<forall>r. \<exists>g. f r = r\<lparr>h_gap := g\<rparr>))"

lemma regapped_refl [simp]: "regapped xs xs"
proof -
  have "\<exists>g. r = r\<lparr>h_gap := g\<rparr>" for r :: hb_row
    by (intro exI [of _ "h_gap r"]) simp
  then show ?thesis
    unfolding regapped_def by (intro exI [of _ id]) simp
qed

lemma regapped_trans: "regapped xs ys \<Longrightarrow> regapped ys zs \<Longrightarrow> regapped xs zs"
proof -
  assume "regapped xs ys" "regapped ys zs"
  then obtain f h where f: "ys = map f xs" "\<And>r. \<exists>g. f r = r\<lparr>h_gap := g\<rparr>"
    and h: "zs = map h ys" "\<And>r. \<exists>g. h r = r\<lparr>h_gap := g\<rparr>"
    unfolding regapped_def by blast
  have "\<exists>g. (h \<circ> f) r = r\<lparr>h_gap := g\<rparr>" for r
    using f(2) [of r] h(2) [of "f r"] by auto
  with f(1) h(1) show ?thesis
    unfolding regapped_def by (intro exI [of _ "h \<circ> f"]) simp
qed

lemma set_gap_only: "\<exists>g. set_gap w s since r = r\<lparr>h_gap := g\<rparr>"
proof (cases "set_gap w s since r = r")
  case True
  then show ?thesis by (intro exI [of _ "h_gap r"]) simp
next
  case False
  then show ?thesis by (auto simp: set_gap_def split: if_splits option.splits)
qed

lemma recompute_regapped:
  assumes "recomputeGapsUntil db s since until = Some db'"
  shows "regapped (bd_rows db) (bd_rows db')" "list_all (\<lambda>r. gap_fits (h_gap r)) (bd_rows db')"
  using assms unfolding regapped_def
  by (auto simp: recomputeGapsUntil_def Let_def set_gap_only split: if_splits)

lemma maintain_regapped:
  assumes "maintain zs hbs s db = Some db'"
  shows "regapped (bd_rows db) (bd_rows db')" "list_all (\<lambda>r. gap_fits (h_gap r)) (bd_rows db')"
    "bd_projects db' = bd_projects db" "bd_next db' = bd_next db"
  using assms recompute_regapped recompute_effect(4,5) by (auto simp: maintain_def Let_def)

lemma maintain_all_regapped:
  "maintain_all zs hbs ss db = Some db' \<Longrightarrow>
   regapped (bd_rows db) (bd_rows db') \<and> (ss \<noteq> [] \<longrightarrow> list_all (\<lambda>r. gap_fits (h_gap r)) (bd_rows db')) \<and>
   bd_projects db' = bd_projects db \<and> bd_next db' = bd_next db"
proof (induction ss arbitrary: db)
  case (Cons s ss)
  then obtain m where m: "maintain zs hbs s db = Some m" "maintain_all zs hbs ss m = Some db'"
    by (auto simp: bind_eq_Some_conv)
  from Cons.IH [OF m(2)] maintain_regapped [OF m(1)] m(2) show ?case
    by (cases ss) (auto intro: regapped_trans)
qed simp

lemma take_machine_gap: "take_machine b (r\<lparr>h_gap := g\<rparr>) = (take_machine b r)\<lparr>h_gap := g\<rparr>"
proof -
  have "same_key b (r\<lparr>h_gap := g\<rparr>) = same_key b r" by (simp add: same_key_def)
  then show ?thesis by (simp add: take_machine_def)
qed

lemma fold_gap: "fold take_machine bs (r\<lparr>h_gap := g\<rparr>) = (fold take_machine bs r)\<lparr>h_gap := g\<rparr>"
  by (induction bs arbitrary: r) (simp_all add: take_machine_gap)

lemma regapped_settled:
  assumes "regapped xs ys" "\<And>x. x \<in> set xs \<Longrightarrow> fold take_machine bs x = x"
  shows "map (fold take_machine bs) ys = ys" "id_of b ys = id_of b xs"
proof -
  obtain f where f: "ys = map f xs" "\<And>r. \<exists>g. f r = r\<lparr>h_gap := g\<rparr>"
    using assms(1) unfolding regapped_def by blast
  have "fold take_machine bs (f x) = f x" if "x \<in> set xs" for x
    using f(2) [of x] assms(2) [OF that] by (auto simp: fold_gap)
  then show "map (fold take_machine bs) ys = ys" by (simp add: f(1))
  have "same_key b (f r) = same_key b r \<and> h_id (f r) = h_id r" for r
    using f(2) [of r] by (auto simp: same_key_def)
  then show "id_of b ys = id_of b xs" by (simp add: f(1) id_of_map)
qed

section \<open>The second upload\<close>

lemma projects_known: "insertProjectsBatch hbs (insertProjectsBatch hbs ps) = insertProjectsBatch hbs ps"
  by (auto simp: insertProjectsBatch_def filter_empty_conv split: option.splits)

lemma reinsert:
  assumes ins: "insert_phases db hbs = Some (db1, is)" and sender: "\<And>b. b \<in> set hbs \<Longrightarrow> b_sender b \<noteq> None"
    and db': "regapped (bd_rows db1) (bd_rows db')" "bd_projects db' = bd_projects db1" "bd_zones db' = bd_zones db"
  shows "insert_phases db' hbs = Some (db', is)"
proof -
  let ?t = "insertHeartbeatsBatch hbs (bd_rows db, bd_next db)"
  have known: "list_all (known_sender db) hbs" and "is": "is = snd ?t"
    and db1: "bd_rows db1 = fst (fst ?t)" "bd_projects db1 = insertProjectsBatch hbs (bd_projects db)"
    using ins by (auto simp: insert_phases_def split: if_splits prod.splits)
  have settled: "fold take_machine hbs x = x" if "x \<in> set (bd_rows db1)" for x
    using batch_settles [of x hbs "(bd_rows db, bd_next db)"] that sender by (simp add: db1)
  have "id_of b (bd_rows db') = id_of b (fst (fst ?t))" for b
    unfolding db1(1) [symmetric] by (rule regapped_settled(2) [OF db'(1)]) (rule settled)
  then have "map (\<lambda>b. id_of b (bd_rows db')) hbs = map Some is"
    using batch_ids [of hbs "(bd_rows db, bd_next db)"] sender by (simp add: "is")
  then have "insertHeartbeatsBatch hbs (bd_rows db', bd_next db') =
      ((map (fold take_machine hbs) (bd_rows db'), bd_next db'), is)"
    by (rule batch_known)
  then have "insertHeartbeatsBatch hbs (bd_rows db', bd_next db') = ((bd_rows db', bd_next db'), is)"
    by (simp add: regapped_settled(1) [OF db'(1) settled])
  moreover have "list_all (known_sender db') hbs"
    using known unfolding known_sender_def [abs_def] db'(3) .
  moreover have "insertProjectsBatch hbs (bd_projects db') = bd_projects db'"
    by (simp add: db'(2) db1(2) projects_known)
  ultimately show ?thesis by (simp add: insert_phases_def)
qed

definition quiet :: "beats_db \<Rightarrow> bool" where
  "quiet db \<longleftrightarrow> ids_ok db \<and> list_all (\<lambda>r. gap_fits (h_gap r)) (bd_rows db)"

lemma recompute_quiet:
  assumes "gaps_ok (sender_rows s db)" "quiet db" "\<And>u. until = Some u \<Longrightarrow> since \<le> u"
  shows "recomputeGapsUntil db s since until = Some db"
proof -
  let ?f = "set_gap (gap_window (sender_rows s db) since until) s since"
  have "?f r = r" if "r \<in> set (bd_rows db)" for r
  proof (cases "of_sender s r")
    case True
    then have "r \<in> set (sender_rows s db)" using that by (simp add: sender_rows_def)
    then show ?thesis
      using repair_idle [OF assms(1) ids_of_sender assms(3)] assms(2) True by (simp add: set_gap_repair quiet_def)
  qed (simp add: set_gap_other)
  then have "map ?f (bd_rows db) = bd_rows db" by (rule map_idI)
  with assms(2) show ?thesis by (simp add: recomputeGapsUntil_def Let_def quiet_def)
qed

text \<open>Tables that differ in the order of the rollup rows only.\<close>

definition same_tables :: "beats_db \<Rightarrow> beats_db \<Rightarrow> bool" where
  "same_tables db db' \<longleftrightarrow> bd_rows db' = bd_rows db \<and> bd_projects db' = bd_projects db \<and> bd_zones db' = bd_zones db \<and>
     bd_next db' = bd_next db \<and> mset (bd_rollup db') = mset (bd_rollup db)"

lemma same_tables_derived: "same_tables db db' \<Longrightarrow> derived_ok zs s db' = derived_ok zs s db"
  using sender_rollup_mset [of db' db s]
  by (simp add: same_tables_def derived_ok_def rollup_ok_def sender_rows_def rollup_zone_def split: option.splits)

lemma same_tables_quiet: "same_tables db db' \<Longrightarrow> quiet db' = quiet db"
  by (simp add: same_tables_def quiet_def ids_ok_def)

lemma maintain_quiet:
  assumes z: "zones_ok zs" and ok: "derived_ok zs s db" and qt: "quiet db" and s: "s \<in> set (batch_senders hbs)"
  shows "\<exists>db'. maintain zs hbs s db = Some db' \<and> same_tables db db'"
proof -
  let ?ts = "sender_times hbs s"
  from s obtain b where "b \<in> set hbs" "b_sender b = Some s"
    by (auto simp: batch_senders_def split: option.splits)
  then have "beat_at b \<in> set ?ts" by (auto simp: sender_times_def)
  then have "Min (set ?ts) \<le> Max (set ?ts)" by (meson List.finite_set Max_ge Min_le order_trans)
  then have "recomputeGapsUntil db s (Min (set ?ts)) (Some (Max (set ?ts))) = Some db"
    using ok by (intro recompute_quiet [OF _ qt]) (auto simp: derived_ok_def)
  then have "maintain zs hbs s db = Some (refreshRollup zs db s (Min (set ?ts)))"
    by (simp add: maintain_def)
  moreover have "mset (bd_rollup (refreshRollup zs db s (Min (set ?ts)))) = mset (bd_rollup db)"
    using ok by (intro refresh_idle [OF z]) (simp add: derived_ok_def)
  ultimately show ?thesis by (simp add: same_tables_def)
qed

lemma maintain_all_quiet:
  "zones_ok zs \<Longrightarrow> quiet db \<Longrightarrow> set ss \<subseteq> set (batch_senders hbs) \<Longrightarrow> (\<And>s. s \<in> set ss \<Longrightarrow> derived_ok zs s db) \<Longrightarrow>
   \<exists>db'. maintain_all zs hbs ss db = Some db' \<and> same_tables db db'"
proof (induction ss arbitrary: db)
  case Nil
  show ?case by (simp add: same_tables_def)
next
  case (Cons s ss)
  then obtain m where m: "maintain zs hbs s db = Some m" "same_tables db m"
    using maintain_quiet [of zs s db hbs] by auto
  have "\<exists>db'. maintain_all zs hbs ss m = Some db' \<and> same_tables m db'"
    using Cons.prems m(2) by (intro Cons.IH) (auto simp: same_tables_quiet same_tables_derived)
  with m show ?case by (auto simp: same_tables_def)
qed

lemma retry_same:
  assumes z: "zones_ok zs" and ok: "beats_ok zs db" and sender: "list_all (\<lambda>b. b_sender b \<noteq> None) hbs"
    and sv: "SaveHeartbeats zs db hbs = Some (db1, ids)"
  shows "\<exists>db2. SaveHeartbeats zs db1 hbs = Some (db2, ids) \<and> same_tables db1 db2"
proof (cases "hbs = []")
  case True
  with sv show ?thesis by (simp add: SaveHeartbeats_def saveHeartbeats_def same_tables_def)
next
  case False
  then obtain m where ins: "insert_phases db hbs = Some (m, ids)"
    and mt: "maintain_all zs hbs (batch_senders hbs) m = Some db1"
    using sv by (auto simp: SaveHeartbeats_def saveHeartbeats_def bind_eq_Some_conv)
  have bs: "b_sender b \<noteq> None" if "b \<in> set hbs" for b
    using sender that by (simp add: list_all_iff)
  note fr = maintain_all_frame [OF mt] maintain_all_regapped [OF mt]
  have zones: "bd_zones db1 = bd_zones db"
    using fr insert_phases_effect(2) [OF ins] by simp
  have again: "insert_phases db1 hbs = Some (db1, ids)"
    using fr zones by (intro reinsert [OF ins bs]) auto
  have ok1: "beats_ok zs db1" by (rule save_ok [OF z ok sv])
  obtain b rest where "hbs = b # rest" "b_sender b \<noteq> None"
    using False bs by (cases hbs) auto
  then have "set (batch_senders hbs) \<noteq> {}" by (auto simp: batch_senders_def)
  then have "batch_senders hbs \<noteq> []" by auto
  then have "quiet db1" using fr ok1 by (simp add: quiet_def beats_ok_def)
  moreover have "derived_ok zs s db1" if "s \<in> set (batch_senders hbs)" for s
  proof -
    from that obtain b where "b \<in> set hbs" "b_sender b = Some s"
      by (auto simp: batch_senders_def split: option.splits)
    with insert_phases_effect(5) [OF ins] have "aget (bd_zones db) s \<noteq> None"
      by (auto simp: list_all_iff known_sender_def split: option.splits)
    then obtain tz where "(s, tz) \<in> set (bd_zones db1)" using zones aget_SomeD by fastforce
    with ok1 show ?thesis by (auto simp: beats_ok_def list_all_iff)
  qed
  ultimately obtain db2 where "maintain_all zs hbs (batch_senders hbs) db1 = Some db2" "same_tables db1 db2"
    using maintain_all_quiet [OF z, of db1 "batch_senders hbs" hbs] by auto
  with again False show ?thesis
    by (auto simp: SaveHeartbeats_def saveHeartbeats_def)
qed

end
