(* ===== verification/HeartbeatProps.thy ===== *)
theory HeartbeatProps
  imports UploadRetry
begin

text \<open>The theorems on stored heartbeats and the data derived from them.\<close>

section \<open>The health report\<close>

lemma gaps_from_known: "gaps_from (Some p) rs \<Longrightarrow> \<forall>r\<in>set rs. h_gap r \<noteq> None"
  by (induction rs arbitrary: p) (auto simp: gap_seconds_def)

lemma populated: "gaps_ok rs \<Longrightarrow> length (filter (\<lambda>r. h_gap r \<noteq> None) rs) = length rs - 1"
proof -
  assume ok: "gaps_ok rs"
  let ?S = "slice_stable by_time rs"
  have "length (filter (\<lambda>r. h_gap r \<noteq> None) rs) = length (filter (\<lambda>r. h_gap r \<noteq> None) ?S)"
    by (metis mset_filter mset_slice_stable size_mset)
  also have "\<dots> = length ?S - 1"
  proof (cases ?S)
    case (Cons r us)
    with ok have "gaps_from (Some (h_at r)) us" "h_gap r = None"
      by (simp_all add: gaps_ok_def gap_seconds_def)
    with Cons gaps_from_known show ?thesis by (simp add: filter_True)
  qed simp
  finally show ?thesis by simp
qed

definition workout_seconds :: "hb_row \<Rightarrow> int" where
  "workout_seconds r = (case b_workout (h_beat r) of None \<Rightarrow> 0 | Some d \<Rightarrow> d - gap_time r)"

lemma row_seconds_split: "row_seconds r = gap_time r + workout_seconds r"
  by (simp add: row_seconds_def gap_time_def workout_seconds_def split: option.splits)

lemma report_facts:
  assumes "derived_ok zs s db"
  shows "ds_missing (GetDerivedStatus db s) = (if sender_rows s db = [] then 0 else 1)"
    and "ds_rollup_seconds (GetDerivedStatus db s) = sum_list (map row_seconds (sender_rows s db))"
    and "ds_raw_seconds (GetDerivedStatus db s) = sum_list (map gap_time (sender_rows s db))"
proof -
  have "length rs - (length rs - 1) = (if rs = [] then 0 else 1)" for rs :: "hb_row list"
    by (cases rs) auto
  then show "ds_missing (GetDerivedStatus db s) = (if sender_rows s db = [] then 0 else 1)"
    using assms populated by (simp add: GetDerivedStatus_def Let_def derived_ok_def)
  obtain tz where "mset (sender_rollup s db) = mset (aggregate s (z_day zs tz) (sender_rows s db))"
    using assms by (auto simp: derived_ok_def rollup_ok_def split: option.splits)
  then have "sum_list (map d_seconds (sender_rollup s db)) = sum_list (map row_seconds (sender_rows s db))"
    using aggregate_seconds by (metis mset_map sum_mset_sum_list)
  then show "ds_rollup_seconds (GetDerivedStatus db s) = sum_list (map row_seconds (sender_rows s db))"
    by (simp add: GetDerivedStatus_def Let_def sender_rollup_def)
qed (simp add: GetDerivedStatus_def Let_def)

lemma report_sync:
  assumes "derived_ok zs s db"
  shows "ds_in_sync (GetDerivedStatus db s) \<longleftrightarrow> sum_list (map workout_seconds (sender_rows s db)) = 0"
proof -
  have "ds_in_sync (GetDerivedStatus db s) \<longleftrightarrow>
      ds_rollup_seconds (GetDerivedStatus db s) = ds_raw_seconds (GetDerivedStatus db s) \<and> ds_missing (GetDerivedStatus db s) \<le> 1"
    by (simp add: GetDerivedStatus_def Let_def)
  moreover have "sum_list (map row_seconds rs) = sum_list (map gap_time rs) + sum_list (map workout_seconds rs)" for rs
    by (induction rs) (simp_all add: row_seconds_split)
  ultimately show ?thesis using report_facts [OF assms] by simp
qed

section \<open>Resyncing any state\<close>

lemma resync_any:
  assumes z: "zones_ok zs" and ids: "ids_ok db" and tz: "rollup_zone db s = Some tz"
    and rows: "list_all (\<lambda>r. 0 \<le> h_at r) (sender_rows s db)"
    and roll: "list_all (\<lambda>d. z_day zs tz 0 \<le> d_day d) (sender_rollup s db)"
    and rs: "ResyncDerived zs db s = Some db'"
  shows "derived_ok zs s db'" "t \<noteq> s \<Longrightarrow> same_for t db db'" "map h_beat (bd_rows db') = map h_beat (bd_rows db)"
proof -
  obtain db1 where rg: "recomputeGapsUntil db s 0 None = Some db1" and db': "db' = refreshRollup zs db1 s 0"
    using rs by (auto simp: ResyncDerived_def recomputeGaps_def)
  have days: "local_days (z_day zs tz) (z_start zs tz)"
    using z by (simp add: zones_ok_def)
  have rows1: "sender_rows s db1 = map (repair (sender_rows s db) 0 None) (sender_rows s db)"
    using recompute_effect(1) [OF rg, of s] by simp
  have "changed_within 0 None [] (sender_rows s db)"
    using rows by (simp add: changed_within_def list_all_iff filter_empty_conv not_less)
  then have "gaps_ok (sender_rows s db1)"
    unfolding rows1 by (intro gaps_repaired [of "[]"]) (simp_all add: gaps_ok_def ids_of_sender [OF ids])
  moreover have "filter (\<lambda>d. \<not> z_day zs tz 0 \<le> d_day d) (sender_rollup s db1) = []"
    using roll recompute_effect(2) [OF rg] by (simp add: sender_rollup_def list_all_iff filter_empty_conv)
  moreover have "filter (\<lambda>r. \<not> z_day zs tz 0 \<le> z_day zs tz (h_at r)) (sender_rows s db1) = []"
    using rows local_days.day_mono [OF days] by (simp add: rows1 list_all_iff filter_empty_conv)
  then have "aggregate s (z_day zs tz) (filter (\<lambda>r. \<not> z_day zs tz 0 \<le> z_day zs tz (h_at r)) (sender_rows s db1)) = []"
    by (simp add: aggregate_def)
  moreover have "rollup_zone db1 s = Some tz"
    using tz recompute_effect(3) [OF rg] by (simp add: rollup_zone_def)
  ultimately show "derived_ok zs s db'"
    unfolding derived_ok_def db' using refresh_ok [OF z, of db1 s tz 0] by simp
  show "t \<noteq> s \<Longrightarrow> same_for t db db'"
    unfolding db' by (rule repair_frame(1) [OF rg])
  show "map h_beat (bd_rows db') = map h_beat (bd_rows db)"
    using recompute_effect(7) [OF rg] by (simp add: db')
qed

section \<open>A concrete state\<close>

definition sample_beat :: "string \<Rightarrow> string \<Rightarrow> int \<Rightarrow> beat" where
  "sample_beat s e t = \<lparr>b_sender = Some s, b_agent = [], b_entity = e, b_type = ''file'', b_time = of_int t,
     b_project = Some ''p'', b_language = None, b_editor = None, b_platform = None, b_machine = None, b_category = None,
     b_plugin = None, b_branch = None, b_workout = None\<rparr>"

definition sample_ops :: "beats_op list" where
  "sample_ops = [Ingest [sample_beat ''ann'' ''a'' 1000, sample_beat ''ann'' ''b'' 1300],
     Ingest [sample_beat ''ann'' ''c'' 1100, sample_beat ''ben'' ''d'' 500], Resync ''ann'']"

definition sample_db :: beats_db where
  "sample_db = fold (beats_apply utc_zone) sample_ops (no_beats [(''ann'', []), (''ben'', [])])"

lemma utc_ok: "zones_ok utc_zone"
  unfolding zones_ok_def using utc.local_days_axioms by blast

lemma sample_gaps: "map (\<lambda>r. (h_id r, h_gap r)) (bd_rows sample_db) =
    [(1, None), (2, Some 200), (3, Some 100), (4, None)]"
  by code_simp

section \<open>The theorems\<close>



text \<open>
  The incremental maintenance agrees with the full rebuild. In a state the operations have kept
  correct, a resync of a user rewrites every gap and every day from the epoch on and ends in the same
  rows, with the same gaps, and the same rollup rows.
\<close>

lemma incremental_equals_rebuild:
  assumes "zones_ok zs" "beats_ok zs db" "aget (bd_zones db) s \<noteq> None" "ResyncDerived zs db s = Some db'"
  shows "bd_rows db' = bd_rows db \<and> mset (bd_rollup db') = mset (bd_rollup db) \<and> beats_ok zs db'"
  using assms by (rule resync_idle)

lemma sample_ok: "beats_ok utc_zone sample_db"
  unfolding sample_db_def by (rule beats_run_ok [OF utc_ok no_beats_ok])

lemma incremental_equals_rebuild_witness:
  "\<exists>db'. ResyncDerived utc_zone sample_db ''ann'' = Some db' \<and> bd_rows db' = bd_rows sample_db"
proof -
  have "ResyncDerived utc_zone sample_db ''ann'' \<noteq> None" by code_simp
  then obtain db' where r: "ResyncDerived utc_zone sample_db ''ann'' = Some db'" by blast
  have "aget (bd_zones sample_db) ''ann'' \<noteq> None" by code_simp
  from incremental_equals_rebuild [OF utc_ok sample_ok this r] r show ?thesis by blast
qed


definition raw_db :: beats_db where
  "raw_db = (case SaveHeartbeatsRaw utc_zone (no_beats [(''ann'', [])]) [sample_beat ''ann'' ''a'' 9, sample_beat ''ann'' ''b'' 5] of
     None \<Rightarrow> no_beats [] | Some (db, _) \<Rightarrow> db)"




text \<open>
  C29 What the health report says of a correct state. One beat at most is without a gap, the seconds
  of the rollup are those of the beats, and the report is in sync exactly when the workouts add
  nothing: the rollup counts the duration of a workout, the raw side of the comparison counts the gap
  of its beat. So a user with a workout is reported out of sync, and no resync changes that.
\<close>

theorem health_report_of_correct_state:
  assumes "derived_ok zs s db"
  shows "ds_missing (GetDerivedStatus db s) \<le> 1 \<and>
    ds_rollup_seconds (GetDerivedStatus db s) = sum_list (map row_seconds (sender_rows s db)) \<and>
    (ds_in_sync (GetDerivedStatus db s) \<longleftrightarrow> sum_list (map workout_seconds (sender_rows s db)) = 0)"
  using report_facts [OF assms] report_sync [OF assms] by simp

definition run_db :: beats_db where
  "run_db = beats_apply utc_zone (Record ''ann'' [\<lparr>w_uuid = ''u'', w_kind = ''run'', w_label = None, w_start = 1200, w_duration = 1800\<rparr>]) sample_db"

theorem health_report_of_correct_state_witness:
  "derived_ok utc_zone ''ann'' run_db \<and> \<not> ds_in_sync (GetDerivedStatus run_db ''ann'') \<and>
   ds_in_sync (GetDerivedStatus sample_db ''ann'')"
proof (intro conjI)
  have ok: "beats_ok utc_zone run_db"
    unfolding run_db_def by (rule beats_apply_ok [OF utc_ok sample_ok])
  have "list_ex (\<lambda>u. fst u = ''ann'') (bd_zones run_db)" "list_ex (\<lambda>u. fst u = ''ann'') (bd_zones sample_db)"
    by code_simp+
  then have d: "derived_ok utc_zone ''ann'' run_db" and d': "derived_ok utc_zone ''ann'' sample_db"
    using ok sample_ok by (auto simp: beats_ok_def list_all_iff list_ex_iff)
  show "derived_ok utc_zone ''ann'' run_db" by (rule d)
  have "sum_list (map workout_seconds (sender_rows ''ann'' run_db)) \<noteq> 0"
    "sum_list (map workout_seconds (sender_rows ''ann'' sample_db)) = 0"
    by code_simp+
  then show "\<not> ds_in_sync (GetDerivedStatus run_db ''ann'')" "ds_in_sync (GetDerivedStatus sample_db ''ann'')"
    using health_report_of_correct_state [OF d] health_report_of_correct_state [OF d'] by simp_all
qed

end
