(* ===== verification/RenameTemplate.thy ===== *)
theory RenameTemplate
  imports Prelude
begin

text \<open>
  Replacement templates of rename rules (\<open>internal/shared/db/curation.go\<close>, \<open>rename_apply.go\<close>): the form
  they are stored in, their translation for Go's \<open>Regexp.Expand\<close>, and what the expansion gives. The
  regular expression engines are parameters: a match is its bounds and its groups, group 0 the whole.
\<close>

section \<open>Templates\<close>

abbreviation (input) backslash :: char where
  "backslash \<equiv> CHR 0x5C"

definition is_digit :: "char \<Rightarrow> bool" where
  "is_digit c \<longleftrightarrow> 48 \<le> (of_char c :: nat) \<and> (of_char c :: nat) \<le> 57"

definition digit_value :: "char \<Rightarrow> nat" where
  "digit_value c = of_char c - 48"

text \<open>Both \<open>$1\<close> and \<open>\1\<close> are accepted; the second is stored.\<close>

fun NormalizeTemplate :: "string \<Rightarrow> string" where
  "NormalizeTemplate [] = []"
| "NormalizeTemplate [c] = [c]"
| "NormalizeTemplate (c # n # cs) =
     (if c = CHR ''$'' \<and> n = CHR ''$'' then CHR ''$'' # NormalizeTemplate cs
      else if c = CHR ''$'' \<and> is_digit n then backslash # n # NormalizeTemplate cs
      else c # NormalizeTemplate (n # cs))"

fun convertTemplateToGo :: "string \<Rightarrow> string" where
  "convertTemplateToGo [] = []"
| "convertTemplateToGo [c] = (if c = CHR ''$'' then ''$$'' else [c])"
| "convertTemplateToGo (c # n # cs) =
     (if c = backslash then
        (if is_digit n then ''${'' @ [n] @ ''}''
         else if n = backslash then [backslash]
         else [n]) @ convertTemplateToGo cs
      else if c = CHR ''$'' then ''$$'' @ convertTemplateToGo (n # cs)
      else c # convertTemplateToGo (n # cs))"

text \<open>The check of the references of a template against the number of groups of the pattern.\<close>

fun backrefs_within :: "nat \<Rightarrow> string \<Rightarrow> bool" where
  "backrefs_within n [] \<longleftrightarrow> True"
| "backrefs_within n [c] \<longleftrightarrow> True"
| "backrefs_within n (c # d # cs) \<longleftrightarrow>
     (if c = backslash then (\<not> (is_digit d \<and> d \<noteq> CHR ''0'') \<or> digit_value d \<le> n) \<and> backrefs_within n cs
      else backrefs_within n (d # cs))"

section \<open>Go's expansion\<close>

record re_match =
  m_start :: nat
  m_end :: nat
  m_groups :: "string option list"

definition match_group :: "re_match \<Rightarrow> nat \<Rightarrow> string" where
  "match_group m k = (case (if k < length (m_groups m) then m_groups m ! k else None) of None \<Rightarrow> [] | Some s \<Rightarrow> s)"

definition ref_char :: "char \<Rightarrow> bool" where
  "ref_char c \<longleftrightarrow> is_digit c \<or> c = CHR ''_'' \<or>
     (65 \<le> (of_char c :: nat) \<and> (of_char c :: nat) \<le> 90) \<or> (97 \<le> (of_char c :: nat) \<and> (of_char c :: nat) \<le> 122)"

text \<open>The number a name stands for; \<open>None\<close> when it is not one (or has a leading zero).\<close>

fun name_number :: "string \<Rightarrow> nat \<Rightarrow> nat option" where
  "name_number [] n = Some n"
| "name_number (c # cs) n = (if \<not> is_digit c \<or> n \<ge> 100000000 then None else name_number cs (n * 10 + digit_value c))"

definition ref_number :: "string \<Rightarrow> nat option" where
  "ref_number name = (if 1 < length name \<and> hd name = CHR ''0'' then None else name_number name 0)"

text \<open>\<open>extract\<close>: the name after a dollar, with or without braces, and the rest.\<close>

definition extract_name :: "string \<Rightarrow> (string \<times> string) option" where
  "extract_name str =
     (let brace = (str \<noteq> [] \<and> hd str = CHR ''{''); s = (if brace then tl str else str);
          name = takeWhile ref_char s; rest = dropWhile ref_char s
      in if name = [] then None
         else if brace then (case rest of c # cs \<Rightarrow> if c = CHR ''}'' then Some (name, cs) else None | [] \<Rightarrow> None)
         else Some (name, rest))"

lemma extract_name_shorter: "extract_name s = Some (n, r) \<Longrightarrow> length r < length s"
proof -
  have l: "length (dropWhile P xs) \<le> length xs" for P :: "char \<Rightarrow> bool" and xs
    by (rule length_dropWhile_le)
  have l': "length (dropWhile P xs) < length xs" if "takeWhile P xs \<noteq> []" for P :: "char \<Rightarrow> bool" and xs
    using that l [of P "tl xs"] by (cases xs) (auto split: if_splits)
  show "extract_name s = Some (n, r) \<Longrightarrow> length r < length s"
    using l [of ref_char "tl s"] l' [of ref_char s]
    by (cases s) (auto simp: extract_name_def Let_def split: if_splits list.splits)
qed

function Expand :: "(string \<Rightarrow> string) \<Rightarrow> re_match \<Rightarrow> string \<Rightarrow> string" where
  "Expand named m [] = []"
| "Expand named m (c # cs) =
     (if c \<noteq> CHR ''$'' then c # Expand named m cs
      else if cs \<noteq> [] \<and> hd cs = CHR ''$'' then CHR ''$'' # Expand named m (tl cs)
      else (case extract_name cs of
          None \<Rightarrow> CHR ''$'' # Expand named m cs
        | Some (name, rest) \<Rightarrow> (case ref_number name of Some k \<Rightarrow> match_group m k | None \<Rightarrow> named name) @ Expand named m rest))"
  by pat_completeness auto
termination
  by (relation "measure (\<lambda>(_, _, t). length t)") (auto dest: extract_name_shorter)

section \<open>What a stored template means\<close>

text \<open>
  The replacement string of \<open>regexp_replace\<close> as documented: a digit from 1 to 9 after a backslash is a
  group, an ampersand the whole match, a second backslash a backslash. \<open>None\<close>: not documented.
\<close>

fun documented :: "re_match \<Rightarrow> string \<Rightarrow> string option" where
  "documented m [] = Some []"
| "documented m [c] = (if c = backslash then None else Some [c])"
| "documented m (c # n # cs) =
     (if c = backslash then
        (if is_digit n \<and> n \<noteq> CHR ''0'' then map_option (\<lambda>t. match_group m (digit_value n) @ t) (documented m cs)
         else if n = CHR ''&'' then map_option (\<lambda>t. match_group m 0 @ t) (documented m cs)
         else if n = backslash then map_option (\<lambda>t. backslash # t) (documented m cs)
         else None)
      else map_option (\<lambda>t. c # t) (documented m (n # cs)))"

fun has_ampersand :: "string \<Rightarrow> bool" where
  "has_ampersand [] \<longleftrightarrow> False"
| "has_ampersand [c] \<longleftrightarrow> False"
| "has_ampersand (c # n # cs) \<longleftrightarrow>
     (if c = backslash then n = CHR ''&'' \<or> has_ampersand cs else has_ampersand (n # cs))"

lemma is_digit_cases: "is_digit n \<Longrightarrow> n \<in> set ''0123456789''"
proof -
  assume d: "is_digit n"
  have "k \<in> set [48, 49, 50, 51, 52, 53, 54, 55, 56, 57]" if "48 \<le> k" "k \<le> 57" for k :: nat
    using that by (simp, arith)
  with d have "(of_char n :: nat) \<in> set [48, 49, 50, 51, 52, 53, 54, 55, 56, 57]"
    unfolding is_digit_def by blast
  moreover have "n = char_of (of_char n :: nat)" by simp
  ultimately have "n \<in> char_of ` set [48 :: nat, 49, 50, 51, 52, 53, 54, 55, 56, 57]" by blast
  then show ?thesis by (simp add: char_of_def bit_0)
qed

lemma braced_ref: "is_digit n \<Longrightarrow> extract_name (CHR ''{'' # n # CHR ''}'' # cs) = Some ([n], cs) \<and> ref_number [n] = Some (digit_value n)"
  by (drule is_digit_cases)
    (auto simp: extract_name_def ref_number_def ref_char_def is_digit_def digit_value_def)

lemma Expand_ref: "is_digit n \<Longrightarrow> Expand named m (''${'' @ [n] @ ''}'' @ t) = match_group m (digit_value n) @ Expand named m t"
  using braced_ref [of n t] by simp

lemma Expand_convert:
  "documented m t = Some r \<Longrightarrow> \<not> has_ampersand t \<Longrightarrow> Expand named m (convertTemplateToGo t) = r"
proof (induction t arbitrary: r rule: convertTemplateToGo.induct)
  case (3 c n cs)
  show ?case
  proof (cases "c = backslash")
    case True
    show ?thesis
    proof (cases "is_digit n")
      case dig: True
      with True 3 show ?thesis
        using Expand_ref [OF dig, of named m "convertTemplateToGo cs"] by (auto split: if_splits)
    next
      case False
      with True 3 show ?thesis by (auto split: if_splits)
    qed
  next
    case False
    with 3 show ?thesis by (auto split: if_splits)
  qed
qed (auto split: if_splits)

end
