(* ===== verification/RenameApply.thy ===== *)
theory RenameApply
  imports RenameTemplate GoalEval HeartbeatModel
begin

text \<open>
  Rename rules where they act: in Go on beats as they are stored (\<open>rename_apply.go\<close>), in the expression
  that aggregations select instead of a column (\<open>remapExpr\<close> in \<open>remap.go\<close>), and in the statement that
  rewrites stored rows (\<open>curation.go\<close>). The two regular expression engines are parameters; both are asked
  for the first match, without regard to case.
\<close>

record go_regexp =
  go_compiles :: "string \<Rightarrow> bool"
  go_find :: "string \<Rightarrow> string \<Rightarrow> re_match option"
  go_named :: "string \<Rightarrow> re_match \<Rightarrow> string \<Rightarrow> string"

record pg_regexp =
  pg_compiles :: "string \<Rightarrow> bool"
  pg_array_length :: "string \<Rightarrow> nat option"
  pg_find :: "string \<Rightarrow> string \<Rightarrow> re_match option"
  pg_expand :: "re_match \<Rightarrow> string \<Rightarrow> string"

definition splice :: "re_match \<Rightarrow> string \<Rightarrow> string \<Rightarrow> string" where
  "splice m repl v = take (m_start m) v @ repl @ drop (m_end m) v"

section \<open>At ingest\<close>

record compiledRenameRule =
  cr_type :: string
  cr_value :: string
  cr_pattern :: string
  cr_new :: string
  cr_template :: string

definition apply_rule :: "go_regexp \<Rightarrow> compiledRenameRule \<Rightarrow> string \<Rightarrow> string" where
  "apply_rule go r v =
     (if cr_type r = ''exact'' then (if to_lower v = to_lower (cr_value r) then cr_new r else v)
      else if cr_type r = ''regex'' then (if go_find go (cr_pattern r) v \<noteq> None then cr_new r else v)
      else if cr_type r = ''template'' then
        (case go_find go (cr_pattern r) v of
           None \<Rightarrow> v
         | Some m \<Rightarrow> splice m (Expand (go_named go (cr_pattern r) m) m (cr_template r)) v)
      else v)"

definition applyRenameRules :: "go_regexp \<Rightarrow> compiledRenameRule list \<Rightarrow> string \<Rightarrow> string" where
  "applyRenameRules go rules v = fold (apply_rule go) rules v"

definition applyRenamePtr :: "go_regexp \<Rightarrow> compiledRenameRule list \<Rightarrow> string option \<Rightarrow> string option" where
  "applyRenamePtr go rules p = map_option (applyRenameRules go rules) p"

text \<open>The rules of a sender by axis; an axis without a rule is absent from the map.\<close>

type_synonym ingest_set = "(string \<times> compiledRenameRule list) list"

definition ingestScrubbableAxis :: "string \<Rightarrow> bool" where
  "ingestScrubbableAxis a \<longleftrightarrow> a \<in> set [''entity'', ''project'', ''branch'', ''language'', ''category'', ''machine'', ''editor'', ''plugin'', ''platform'']"

definition Apply_axis :: "go_regexp \<Rightarrow> string \<Rightarrow> compiledRenameRule list \<Rightarrow> beat \<Rightarrow> beat" where
  "Apply_axis go axis rules b =
     (if axis = ''entity'' then b\<lparr>b_entity := applyRenameRules go rules (b_entity b)\<rparr>
      else if axis \<in> set axis_names then set_axis axis (applyRenamePtr go rules (axis_value axis b)) b
      else b)"

definition Apply :: "go_regexp \<Rightarrow> ingest_set \<Rightarrow> beat \<Rightarrow> beat" where
  "Apply go s b = fold (\<lambda>(axis, rules). Apply_axis go axis rules) s b"

definition compile_rule :: "rename_rule \<Rightarrow> compiledRenameRule" where
  "compile_rule r =
     (let new = (case rr_new_value r of None \<Rightarrow> [] | Some v \<Rightarrow> v) in
      \<lparr>cr_type = rr_match_type r, cr_value = rr_match r,
       cr_pattern = (if rr_match_type r = ''regex'' \<or> rr_match_type r = ''template'' then ''(?i)'' @ rr_match r else []),
       cr_new = new, cr_template = (if rr_match_type r = ''template'' then convertTemplateToGo new else [])\<rparr>)"

definition usable :: "go_regexp \<Rightarrow> rename_rule \<Rightarrow> bool" where
  "usable go r \<longleftrightarrow> ingestScrubbableAxis (rr_axis r) \<and>
     ((rr_match_type r = ''regex'' \<or> rr_match_type r = ''template'') \<longrightarrow> go_compiles go (''(?i)'' @ rr_match r))"

definition LoadIngestRenameRules :: "go_regexp \<Rightarrow> rename_rule list \<Rightarrow> string \<Rightarrow> ingest_set" where
  "LoadIngestRenameRules go rules sender =
     foldl (\<lambda>s r. aput s (rr_axis r) ((case aget s (rr_axis r) of None \<Rightarrow> [] | Some rs \<Rightarrow> rs) @ [compile_rule r])) []
       (filter (usable go)
         (filter (\<lambda>r. rr_sender r = sender \<and> rr_action r = ''rename'' \<and> rr_enabled r \<and> rr_at_ingest r \<and>
            rr_new_value r \<noteq> None) rules))"

definition ValidateIngestRenamePattern :: "go_regexp \<Rightarrow> string \<Rightarrow> string \<Rightarrow> bool" where
  "ValidateIngestRenamePattern go matchType pattern \<longleftrightarrow>
     ((matchType = ''regex'' \<or> matchType = ''template'') \<longrightarrow> go_compiles go (''(?i)'' @ pattern))"

section \<open>In a query\<close>

datatype sql_arg = Texts "string list" | OneText string

text \<open>The branches of the \<open>CASE\<close>; the numbers are those of the bound parameters.\<close>

datatype when_branch =
    WhenLowerIn nat nat
  | WhenMatches nat nat
  | WhenReplaces nat nat

record case_expr =
  ce_cond :: string
  ce_branches :: "when_branch list"

definition sorted_texts :: "string list \<Rightarrow> string list" where
  "sorted_texts xs = sort xs"

fun exact_branches ::
    "(string \<times> string) list \<Rightarrow> string list \<Rightarrow> nat \<Rightarrow> sql_arg list \<Rightarrow> when_branch list \<times> sql_arg list \<times> nat" where
  "exact_branches ex [] n args = ([], args, n)"
| "exact_branches ex (t # ts) n args =
     (let sources = sorted_texts (map fst (filter (\<lambda>p. snd p = t) ex));
          (bs, args', n') = exact_branches ex ts (n + 2) (args @ [Texts sources, OneText t])
      in (WhenLowerIn n (n + 1) # bs, args', n'))"

fun pattern_branches ::
    "(nat \<Rightarrow> nat \<Rightarrow> when_branch) \<Rightarrow> (string \<times> string) list \<Rightarrow> nat \<Rightarrow> sql_arg list \<Rightarrow> when_branch list \<times> sql_arg list \<times> nat" where
  "pattern_branches mk [] n args = ([], args, n)"
| "pattern_branches mk ((p, v) # rs) n args =
     (let (bs, args', n') = pattern_branches mk rs (n + 2) (args @ [OneText p, OneText v]) in (mk n (n + 1) # bs, args', n'))"

definition renames_empty :: "axisRenames \<Rightarrow> bool" where
  "renames_empty a \<longleftrightarrow> ren_exact a = [] \<and> ren_regex a = [] \<and> ren_template a = []"

text \<open>\<open>None\<close> is the bare column.\<close>

definition remapExpr :: "axisRenames \<Rightarrow> string \<Rightarrow> nat \<Rightarrow> sql_arg list \<Rightarrow> case_expr option \<times> sql_arg list \<times> nat" where
  "remapExpr a extraCond n args =
     (if renames_empty a then (None, args, n)
      else (let targets = sorted_texts (remdups (map snd (ren_exact a)));
                (b1, args1, n1) = exact_branches (ren_exact a) targets n args;
                (b2, args2, n2) = pattern_branches WhenMatches (ren_regex a) n1 args1;
                (b3, args3, n3) = pattern_branches WhenReplaces (ren_template a) n2 args2
            in (Some \<lparr>ce_cond = extraCond, ce_branches = b1 @ b2 @ b3\<rparr>, args3, n3)))"

text \<open>The value of the expression on a column that is not null; parameter \<open>$i\<close> is argument \<open>i\<close>.\<close>

definition text_arg :: "sql_arg list \<Rightarrow> nat \<Rightarrow> string" where
  "text_arg args i = (case args ! (i - 1) of OneText t \<Rightarrow> t | Texts _ \<Rightarrow> [])"

definition texts_arg :: "sql_arg list \<Rightarrow> nat \<Rightarrow> string list" where
  "texts_arg args i = (case args ! (i - 1) of Texts ts \<Rightarrow> ts | OneText _ \<Rightarrow> [])"

definition regexp_replace :: "pg_regexp \<Rightarrow> string \<Rightarrow> string \<Rightarrow> string \<Rightarrow> string" where
  "regexp_replace pg v p t = (case pg_find pg p v of None \<Rightarrow> v | Some m \<Rightarrow> splice m (pg_expand pg m t) v)"

fun branch_value :: "pg_regexp \<Rightarrow> sql_arg list \<Rightarrow> string \<Rightarrow> when_branch \<Rightarrow> string option" where
  "branch_value pg args v (WhenLowerIn i j) = (if to_lower v \<in> set (texts_arg args i) then Some (text_arg args j) else None)"
| "branch_value pg args v (WhenMatches i j) = (if pg_find pg (text_arg args i) v \<noteq> None then Some (text_arg args j) else None)"
| "branch_value pg args v (WhenReplaces i j) =
     (if pg_find pg (text_arg args i) v \<noteq> None then Some (regexp_replace pg v (text_arg args i) (text_arg args j)) else None)"

fun first_value :: "('a \<Rightarrow> 'b option) \<Rightarrow> 'a list \<Rightarrow> 'b option" where
  "first_value f [] = None"
| "first_value f (x # xs) = (case f x of None \<Rightarrow> first_value f xs | Some y \<Rightarrow> Some y)"

definition case_value :: "pg_regexp \<Rightarrow> (string \<Rightarrow> bool) \<Rightarrow> case_expr option \<Rightarrow> sql_arg list \<Rightarrow> string \<Rightarrow> string" where
  "case_value pg cond e args v =
     (case e of None \<Rightarrow> v
      | Some x \<Rightarrow>
          (if ce_cond x \<noteq> [] \<and> \<not> cond (ce_cond x) then v
           else (case first_value (branch_value pg args v) (ce_branches x) of None \<Rightarrow> v | Some y \<Rightarrow> y)))"

section \<open>On stored rows\<close>

text \<open>Which rows a rule matches, and what the update writes to them.\<close>

definition rulePredicate :: "pg_regexp \<Rightarrow> rename_rule \<Rightarrow> string \<Rightarrow> bool" where
  "rulePredicate pg r v =
     (if rr_match_type r = ''regex'' \<or> rr_match_type r = ''template'' then pg_find pg (rr_match r) v \<noteq> None
      else to_lower v = to_lower (rr_match r))"

definition apply_update :: "pg_regexp \<Rightarrow> rename_rule \<Rightarrow> string \<Rightarrow> string" where
  "apply_update pg r v =
     (let new = (case rr_new_value r of None \<Rightarrow> [] | Some t \<Rightarrow> t) in
      if \<not> rulePredicate pg r v then v
      else if rr_match_type r = ''template'' then regexp_replace pg v (rr_match r) new
      else new)"

end
