(* ===== verification/RenameProps.thy ===== *)
theory RenameProps
  imports RenameApply
begin

text \<open>
  A rename rule acts at three places: what the expression of a query means, and that one rule gives one
  result wherever it acts.
\<close>

section \<open>The meaning of a query expression\<close>

definition exact_value :: "(string \<times> string) list \<Rightarrow> string \<Rightarrow> string option" where
  "exact_value ex v = aget ex (to_lower v)"

definition regex_value :: "pg_regexp \<Rightarrow> (string \<times> string) list \<Rightarrow> string \<Rightarrow> string option" where
  "regex_value pg rs v = map_option snd (find (\<lambda>p. pg_find pg (fst p) v \<noteq> None) rs)"

definition template_value :: "pg_regexp \<Rightarrow> (string \<times> string) list \<Rightarrow> string \<Rightarrow> string option" where
  "template_value pg rs v =
     map_option (\<lambda>p. regexp_replace pg v (fst p) (snd p)) (find (\<lambda>p. pg_find pg (fst p) v \<noteq> None) rs)"

definition remap_value :: "pg_regexp \<Rightarrow> axisRenames \<Rightarrow> string \<Rightarrow> string" where
  "remap_value pg a v =
     (case exact_value (ren_exact a) v of Some t \<Rightarrow> t
      | None \<Rightarrow> (case regex_value pg (ren_regex a) v of Some t \<Rightarrow> t
        | None \<Rightarrow> (case template_value pg (ren_template a) v of Some t \<Rightarrow> t | None \<Rightarrow> v)))"

lemma first_value_append: "first_value f (xs @ ys) = (case first_value f xs of None \<Rightarrow> first_value f ys | Some y \<Rightarrow> Some y)"
  by (induction xs) (auto split: option.splits)

lemma first_value_cong: "(\<And>x. x \<in> set xs \<Longrightarrow> f x = g x) \<Longrightarrow> first_value f xs = first_value g xs"
  by (induction xs) (auto split: option.splits)

lemma arg_at: "text_arg (xs @ OneText t # ys) (Suc (length xs)) = t" "texts_arg (xs @ Texts ts # ys) (Suc (length xs)) = ts"
  by (simp_all add: text_arg_def texts_arg_def)

lemma arg_after: "text_arg (xs @ y # OneText t # ys) (Suc (Suc (length xs))) = t"
  using arg_at(1) [of "xs @ [y]"] by simp

lemma exact_branches_value:
  "\<exists>new. fst (snd (exact_branches ex ts (Suc (length args)) args)) = args @ new \<and>
     snd (snd (exact_branches ex ts (Suc (length args)) args)) = Suc (length (args @ new)) \<and>
     (\<forall>more. first_value (branch_value pg ((args @ new) @ more) v) (fst (exact_branches ex ts (Suc (length args)) args)) =
        first_value (\<lambda>t. if to_lower v \<in> fst ` {p \<in> set ex. snd p = t} then Some t else None) ts)"
proof (induction ts arbitrary: args)
  case (Cons t ts)
  let ?src = "sorted_texts (map fst (filter (\<lambda>p. snd p = t) ex))"
  let ?args = "args @ [Texts ?src, OneText t]"
  obtain new where new: "fst (snd (exact_branches ex ts (Suc (length ?args)) ?args)) = ?args @ new"
    "snd (snd (exact_branches ex ts (Suc (length ?args)) ?args)) = Suc (length (?args @ new))"
    "\<And>more. first_value (branch_value pg ((?args @ new) @ more) v) (fst (exact_branches ex ts (Suc (length ?args)) ?args)) =
        first_value (\<lambda>t. if to_lower v \<in> fst ` {p \<in> set ex. snd p = t} then Some t else None) ts"
    using Cons.IH [of ?args] by blast
  have "set ?src = fst ` {p \<in> set ex. snd p = t}"
    by (simp add: sorted_texts_def)
  then have "branch_value pg ((args @ [Texts ?src, OneText t] @ new) @ more) v (WhenLowerIn (Suc (length args)) (Suc (Suc (length args)))) =
      (if to_lower v \<in> fst ` {p \<in> set ex. snd p = t} then Some t else None)" for more
    using arg_at(2) [of args ?src "OneText t # new @ more"] arg_after [of args "Texts ?src" t "new @ more"] by simp
  moreover obtain bs as n where "exact_branches ex ts (Suc (length ?args)) ?args = (bs, as, n)"
    by (metis prod_cases3)
  ultimately show ?case
    using new by (intro exI [of _ "[Texts ?src, OneText t] @ new"]) (simp add: Let_def)
qed simp

lemma pattern_branches_value:
  assumes mk: "\<And>i j args. branch_value pg args v (mk i j) =
    (if pg_find pg (text_arg args i) v \<noteq> None then Some (g (text_arg args i) (text_arg args j)) else None)"
  shows "\<exists>new. fst (snd (pattern_branches mk rs (Suc (length args)) args)) = args @ new \<and>
     snd (snd (pattern_branches mk rs (Suc (length args)) args)) = Suc (length (args @ new)) \<and>
     (\<forall>more. first_value (branch_value pg ((args @ new) @ more) v) (fst (pattern_branches mk rs (Suc (length args)) args)) =
        map_option (\<lambda>p. g (fst p) (snd p)) (find (\<lambda>p. pg_find pg (fst p) v \<noteq> None) rs))"
proof (induction rs arbitrary: args)
  case (Cons p rs)
  let ?args = "args @ [OneText (fst p), OneText (snd p)]"
  obtain new where new: "fst (snd (pattern_branches mk rs (Suc (length ?args)) ?args)) = ?args @ new"
    "snd (snd (pattern_branches mk rs (Suc (length ?args)) ?args)) = Suc (length (?args @ new))"
    "\<And>more. first_value (branch_value pg ((?args @ new) @ more) v) (fst (pattern_branches mk rs (Suc (length ?args)) ?args)) =
        map_option (\<lambda>p. g (fst p) (snd p)) (find (\<lambda>p. pg_find pg (fst p) v \<noteq> None) rs)"
    using Cons.IH [of ?args] by blast
  have "branch_value pg ((args @ [OneText (fst p), OneText (snd p)] @ new) @ more) v (mk (Suc (length args)) (Suc (Suc (length args)))) =
      (if pg_find pg (fst p) v \<noteq> None then Some (g (fst p) (snd p)) else None)" for more
    using arg_at(1) [of args "fst p" "OneText (snd p) # new @ more"] arg_after [of args "OneText (fst p)" "snd p" "new @ more"]
    by (simp add: mk)
  moreover obtain bs as n where q: "pattern_branches mk rs (Suc (length ?args)) ?args = (bs, as, n)"
    by (metis prod_cases3)
  moreover obtain a b where p: "p = (a, b)" by (cases p)
  ultimately show ?case
    using new by (intro exI [of _ "[OneText a, OneText b] @ new"]) (simp add: Let_def)
qed simp

lemma exact_targets:
  assumes "distinct (map fst ex)"
  shows "first_value (\<lambda>t. if k \<in> fst ` {p \<in> set ex. snd p = t} then Some t else None) (sorted_texts (remdups (map snd ex))) = aget ex k"
proof -
  have one: "(k \<in> fst ` {p \<in> set ex. snd p = t}) = (aget ex k = Some t)" for t
    using assms aget_mem [of ex k t] aget_SomeD [of ex k t] by force
  have "first_value (\<lambda>t. if aget ex k = Some t then Some t else None) ts = aget ex k" if "\<And>t. aget ex k = Some t \<Longrightarrow> t \<in> set ts" for ts
  proof (cases "aget ex k")
    case None
    then show ?thesis by (induction ts) auto
  next
    case (Some t)
    with that have "t \<in> set ts" by blast
    with Some show ?thesis by (induction ts) auto
  qed
  then show ?thesis
    unfolding one using aget_SomeD [of ex k] by (force simp: sorted_texts_def)
qed

lemma remap_expr_value:
  assumes d: "distinct (map fst (ren_exact a))" and e: "remapExpr a extra (Suc (length args)) args = (e, args', n')"
  shows "case_value pg cond e (args' @ rest) v = (if extra \<noteq> [] \<and> \<not> cond extra then v else remap_value pg a v)"
    and "\<exists>new. args' = args @ new" and "n' = Suc (length args')"
proof -
  have "case_value pg cond e (args' @ rest) v = (if extra \<noteq> [] \<and> \<not> cond extra then v else remap_value pg a v) \<and>
      (\<exists>new. args' = args @ new) \<and> n' = Suc (length args')"
  proof (cases "renames_empty a")
    case True
    with e show ?thesis
      by (auto simp: remapExpr_def case_value_def remap_value_def renames_empty_def exact_value_def regex_value_def template_value_def)
  next
    case False
    let ?ts = "sorted_texts (remdups (map snd (ren_exact a)))"
    obtain w1 where w1: "fst (snd (exact_branches (ren_exact a) ?ts (Suc (length args)) args)) = args @ w1"
      "snd (snd (exact_branches (ren_exact a) ?ts (Suc (length args)) args)) = Suc (length (args @ w1))"
      "\<And>more. first_value (branch_value pg ((args @ w1) @ more) v) (fst (exact_branches (ren_exact a) ?ts (Suc (length args)) args)) =
         aget (ren_exact a) (to_lower v)"
      using exact_branches_value [of "ren_exact a" ?ts args pg v] unfolding exact_targets [OF d, of "to_lower v"] by blast
    let ?a1 = "args @ w1"
    obtain w2 where w2: "fst (snd (pattern_branches WhenMatches (ren_regex a) (Suc (length ?a1)) ?a1)) = ?a1 @ w2"
      "snd (snd (pattern_branches WhenMatches (ren_regex a) (Suc (length ?a1)) ?a1)) = Suc (length (?a1 @ w2))"
      "\<And>more. first_value (branch_value pg ((?a1 @ w2) @ more) v) (fst (pattern_branches WhenMatches (ren_regex a) (Suc (length ?a1)) ?a1)) =
         map_option (\<lambda>p. snd p) (find (\<lambda>p. pg_find pg (fst p) v \<noteq> None) (ren_regex a))"
      using pattern_branches_value [of pg v WhenMatches "\<lambda>p t. t" "ren_regex a" ?a1] by auto
    let ?a2 = "?a1 @ w2"
    obtain w3 where w3: "fst (snd (pattern_branches WhenReplaces (ren_template a) (Suc (length ?a2)) ?a2)) = ?a2 @ w3"
      "snd (snd (pattern_branches WhenReplaces (ren_template a) (Suc (length ?a2)) ?a2)) = Suc (length (?a2 @ w3))"
      "\<And>more. first_value (branch_value pg ((?a2 @ w3) @ more) v) (fst (pattern_branches WhenReplaces (ren_template a) (Suc (length ?a2)) ?a2)) =
         map_option (\<lambda>p. regexp_replace pg v (fst p) (snd p)) (find (\<lambda>p. pg_find pg (fst p) v \<noteq> None) (ren_template a))"
      using pattern_branches_value [of pg v WhenReplaces "regexp_replace pg v" "ren_template a" ?a2] by auto
    obtain b1 b2 b3 where b: "exact_branches (ren_exact a) ?ts (Suc (length args)) args = (b1, ?a1, Suc (length ?a1))"
      "pattern_branches WhenMatches (ren_regex a) (Suc (length ?a1)) ?a1 = (b2, ?a2, Suc (length ?a2))"
      "pattern_branches WhenReplaces (ren_template a) (Suc (length ?a2)) ?a2 = (b3, ?a2 @ w3, Suc (length (?a2 @ w3)))"
      by (metis w1(1,2) w2(1,2) w3(1,2) prod.collapse)
    have r: "e = Some \<lparr>ce_cond = extra, ce_branches = b1 @ b2 @ b3\<rparr>" "args' = ?a2 @ w3" "n' = Suc (length (?a2 @ w3))"
      using e False b by (auto simp: remapExpr_def Let_def)
    have "first_value (branch_value pg (args' @ rest) v) (b1 @ b2 @ b3) =
        (case exact_value (ren_exact a) v of Some t \<Rightarrow> Some t
         | None \<Rightarrow> (case regex_value pg (ren_regex a) v of Some t \<Rightarrow> Some t
           | None \<Rightarrow> template_value pg (ren_template a) v))"
      using w1(3) [of "w2 @ w3 @ rest"] w2(3) [of "w3 @ rest"] w3(3) [of rest] b
      by (simp add: r first_value_append exact_value_def regex_value_def template_value_def split: option.splits)
    with r show ?thesis
      by (simp add: case_value_def remap_value_def split: option.splits)
  qed
  then show "case_value pg cond e (args' @ rest) v = (if extra \<noteq> [] \<and> \<not> cond extra then v else remap_value pg a v)"
    "\<exists>new. args' = args @ new" "n' = Suc (length args')" by blast+
qed

section \<open>One rule, one result\<close>

text \<open>What the two engines have to agree on for a rule and a value, and what is documented of a replacement.\<close>

definition engines_agree :: "go_regexp \<Rightarrow> pg_regexp \<Rightarrow> string \<Rightarrow> string \<Rightarrow> bool" where
  "engines_agree go pg p v \<longleftrightarrow> go_find go (''(?i)'' @ p) v = pg_find pg p v"

definition replaces_as_documented :: "pg_regexp \<Rightarrow> bool" where
  "replaces_as_documented pg \<longleftrightarrow> (\<forall>m t r. documented m t = Some r \<longrightarrow> pg_expand pg m t = r)"

fun template_covered :: "string \<Rightarrow> bool" where
  "template_covered [] \<longleftrightarrow> True"
| "template_covered [c] \<longleftrightarrow> c \<noteq> CHR 0x5C"
| "template_covered (c # n # cs) \<longleftrightarrow>
     (if c = CHR 0x5C then (is_digit n \<and> n \<noteq> CHR ''0'' \<or> n = CHR 0x5C) \<and> template_covered cs
      else template_covered (n # cs))"

lemma template_covered_documented: "template_covered t \<Longrightarrow> (\<exists>r. documented m t = Some r) \<and> \<not> has_ampersand t"
proof (induction t rule: template_covered.induct)
  case (3 c n cs)
  have "\<not> is_digit (CHR 0x5C)" "\<not> is_digit (CHR ''&'')"
    by (simp_all add: is_digit_def)
  with 3 show ?case by (auto split: if_splits)
qed auto

definition single_rule_ok :: "go_regexp \<Rightarrow> rename_rule \<Rightarrow> bool" where
  "single_rule_ok go r \<longleftrightarrow> rr_action r = ''rename'' \<and> rr_enabled r \<and> usable go r \<and>
     rr_match_type r \<in> {''exact'', ''regex'', ''template''} \<and>
     (\<exists>t. rr_new_value r = Some t \<and> (rr_match_type r = ''template'' \<longrightarrow> template_covered t))"

lemma ingest_is_update:
  assumes r: "single_rule_ok go r" and eng: "engines_agree go pg (rr_match r) v" and pg: "replaces_as_documented pg"
  shows "apply_rule go (compile_rule r) v = apply_update pg r v"
proof -
  from r obtain t where t: "rr_new_value r = Some t" "rr_match_type r = ''template'' \<longrightarrow> template_covered t"
    and ty: "rr_match_type r \<in> {''exact'', ''regex'', ''template''}"
    by (auto simp: single_rule_ok_def)
  have "Expand named m (convertTemplateToGo t) = pg_expand pg m t" if "template_covered t" for named m
    using template_covered_documented [OF that, of m] pg Expand_convert [of m t] by (auto simp: replaces_as_documented_def)
  with t ty eng show ?thesis
    by (auto simp: apply_rule_def compile_rule_def apply_update_def rulePredicate_def engines_agree_def
        regexp_replace_def Let_def split: option.splits)
qed

lemma query_is_update:
  assumes "rr_new_value r = Some t" "rr_match_type r \<in> {''exact'', ''regex'', ''template''}"
  shows "remap_value pg (add_rename (\<lambda>_. no_renames) r (rr_axis r)) v = apply_update pg r v"
  using assms
  by (auto simp: remap_value_def add_rename_def Let_def no_renames_def exact_value_def regex_value_def template_value_def
      apply_update_def rulePredicate_def)

lemma loaded_alone:
  assumes "single_rule_ok go r"
  shows "LoadRenameSets [r\<lparr>rr_at_ingest := False\<rparr>] (rr_sender r) = add_rename (\<lambda>_. no_renames) r"
    and "LoadIngestRenameRules go [r\<lparr>rr_at_ingest := True\<rparr>] (rr_sender r) = [(rr_axis r, [compile_rule r])]"
  using assms
  by (auto simp: LoadRenameSets_def LoadIngestRenameRules_def single_rule_ok_def usable_def add_rename_def Let_def compile_rule_def)

text \<open>Several rules are another matter: at ingest each works on the result of the one before.\<close>

definition two_rules :: "bool \<Rightarrow> rename_rule list" where
  "two_rules ing = map (\<lambda>(m, n). \<lparr>rr_sender = ''u'', rr_axis = ''language'', rr_action = ''rename'', rr_match_type = ''exact'',
     rr_match = m, rr_new_value = Some n, rr_enabled = True, rr_at_ingest = ing\<rparr>) [(''a'', ''b''), (''b'', ''c'')]"

lemma two_rules_chain:
  "applyRenameRules go (snd (hd (LoadIngestRenameRules go (two_rules True) ''u''))) ''a'' = ''c''"
  "remap_value pg (LoadRenameSets (two_rules False) ''u'' ''language'') ''a'' = ''b''"
  by (simp_all add: two_rules_def LoadIngestRenameRules_def usable_def ingestScrubbableAxis_def compile_rule_def
      applyRenameRules_def apply_rule_def remap_value_def LoadRenameSets_def add_rename_def no_renames_def Let_def
      exact_value_def to_lower_def lower_char_def)

text \<open>References the documentation of the replacement knows and the translation does not.\<close>

lemma whole_match_reference:
  assumes "m_groups m = [Some ''whole'']"
  shows "documented m [CHR 0x5C, CHR ''&''] = Some ''whole''" "Expand named m (convertTemplateToGo [CHR 0x5C, CHR ''&'']) = ''&''"
    and "documented m [CHR 0x5C, CHR ''0''] = None" "Expand named m (convertTemplateToGo [CHR 0x5C, CHR ''0'']) = ''whole''"
  using assms Expand_ref [of "CHR ''0''" named m "[]"] by (simp_all add: is_digit_def match_group_def digit_value_def)

section \<open>Two small engines\<close>

text \<open>Both match the first letter of \<open>Ab\<close>, as the only group, and replace as documented.\<close>

definition first_letter :: "string \<Rightarrow> string \<Rightarrow> re_match option" where
  "first_letter p v = (if v = ''Ab'' then Some \<lparr>m_start = 0, m_end = 1, m_groups = [Some ''A'', Some ''A'']\<rparr> else None)"

definition small_go :: go_regexp where
  "small_go = \<lparr>go_compiles = (\<lambda>_. True), go_find = first_letter, go_named = (\<lambda>_ _ _. [])\<rparr>"

definition small_pg :: pg_regexp where
  "small_pg = \<lparr>pg_compiles = (\<lambda>_. True), pg_array_length = (\<lambda>_. Some 2), pg_find = first_letter, pg_expand = (\<lambda>m t. case documented m t of None \<Rightarrow> t | Some r \<Rightarrow> r)\<rparr>"

definition small_rule :: rename_rule where
  "small_rule = \<lparr>rr_sender = ''u'', rr_axis = ''project'', rr_action = ''rename'', rr_match_type = ''template'', rr_match = ''^(.)'',
     rr_new_value = Some (NormalizeTemplate ''<$1>''), rr_enabled = True, rr_at_ingest = False\<rparr>"

section \<open>The theorems\<close>

text \<open>
  C30 The expression a query selects for a renamed column. Whatever parameters are bound before and
  after it, the numbered references of the expression find their own values, and it yields: the target
  of the exact rule for the value without regard to case; otherwise the target of the first regular
  expression that matches; otherwise the replacement by the first template that matches; otherwise the
  value, as it does where the extra condition does not hold.
\<close>

theorem remap_expression_meaning:
  assumes "remapExpr (LoadRenameSets rules sender axis) extra (Suc (length args)) args = (e, args', n')"
  shows "case_value pg cond e (args' @ rest) v =
      (if extra \<noteq> [] \<and> \<not> cond extra then v else remap_value pg (LoadRenameSets rules sender axis) v) \<and>
    (\<exists>new. args' = args @ new) \<and> n' = Suc (length args')"
proof -
  have "distinct (map fst (ren_exact (foldl add_rename s rs axis)))"
    if "\<And>x. distinct (map fst (ren_exact (s x)))" for s rs
    using that by (induction rs arbitrary: s) (auto simp: add_rename_def Let_def distinct_aput)
  then have "distinct (map fst (ren_exact (LoadRenameSets rules sender axis)))"
    unfolding LoadRenameSets_def by (simp add: no_renames_def)
  from remap_expr_value [OF this assms] show ?thesis by blast
qed

theorem remap_expression_meaning_witness:
  "\<exists>e args n. remapExpr (LoadRenameSets [small_rule] ''u'' ''project'') [] (Suc (length [OneText ''u''])) [OneText ''u''] = (e, args, n) \<and>
     case_value small_pg (\<lambda>_. True) e args ''Ab'' = ''<A>b'' \<and> n = 4"
proof -
  obtain e args n where r: "remapExpr (LoadRenameSets [small_rule] ''u'' ''project'') [] (Suc (length [OneText ''u''])) [OneText ''u''] = (e, args, n)"
    by (metis prod_cases3)
  then have "n = 4"
    by (auto simp: remapExpr_def LoadRenameSets_def small_rule_def add_rename_def no_renames_def renames_empty_def sorted_texts_def Let_def)
  moreover have "remap_value small_pg (LoadRenameSets [small_rule] ''u'' ''project'') ''Ab'' = ''<A>b''"
    by code_simp
  ultimately show ?thesis
    using remap_expression_meaning [OF r, of small_pg "\<lambda>_. True" "[]" "''Ab''"] r by auto
qed



end
