(* ===== verification/IngestFlow.thy ===== *)
theory IngestFlow
  imports RenameApply DerivedData GoalStore AccountModel TtlCache
begin

text \<open>
  The ingest of beats (\<open>internal/boomtime/ingest/heartbeats.go\<close>): the time check, the enrichment, the last
  known context, the rename rules that act at ingest, the insert with or without the derived data, and
  the progress caches of goals; the backfill of stored placeholders and the redaction of entities
  (\<open>ingest/entities.go\<close>, \<open>db/entities.go\<close>). The statements that can fail on their own are switches of the
  environment. Not modelled: the forwarding of beats, metrics and sampled logs.
\<close>

section \<open>The last known context\<close>

definition real_value :: "string option \<Rightarrow> bool" where
  "real_value v \<longleftrightarrow> v \<noteq> None \<and> \<not> is_placeholder v"

definition newest_first :: "hb_row \<Rightarrow> hb_row \<Rightarrow> bool" where
  "newest_first a b \<longleftrightarrow> h_at b < h_at a"

definition last_known :: "string \<Rightarrow> string \<Rightarrow> beats_db \<Rightarrow> string option" where
  "last_known axis sender db =
     (case slice_stable newest_first (filter (\<lambda>r. real_value (axis_value axis (h_beat r))) (sender_rows sender db)) of
        [] \<Rightarrow> None
      | r # _ \<Rightarrow> axis_value axis (h_beat r))"

definition GetLastKnownContext :: "beats_db \<Rightarrow> string \<Rightarrow> string option \<times> string option \<times> string option" where
  "GetLastKnownContext db sender = (last_known ''project'' sender db, last_known ''language'' sender db, last_known ''branch'' sender db)"

section \<open>The request\<close>

record ingest_env =
  iv_zones :: zones
  iv_go :: go_regexp
  iv_rollup_skip :: bool
  iv_seed_fails :: bool
  iv_rules_fail :: bool
  iv_save_fails :: bool
  iv_goals_fail :: bool

record ingest_state =
  is_db :: beats_db
  is_rules :: "rename_rule list"
  is_goals :: "goal list"

datatype ingest_error = BadTime nat | IngestFailed

definition context_resolved :: "ingest_env \<Rightarrow> beats_db \<Rightarrow> string \<Rightarrow> beat list \<Rightarrow> beat list option" where
  "context_resolved env db owner enriched =
     (if batchHasLastPlaceholder enriched then
        (if iv_seed_fails env then None
         else (case GetLastKnownContext db owner of (p, l, br) \<Rightarrow> Some (substituteLastContext enriched p l br)))
      else Some enriched)"

definition scrubbed :: "ingest_env \<Rightarrow> rename_rule list \<Rightarrow> string \<Rightarrow> beat list \<Rightarrow> beat list" where
  "scrubbed env rules owner bs =
     (if iv_rules_fail env then bs
      else (case LoadIngestRenameRules (iv_go env) rules owner of [] \<Rightarrow> bs | s \<Rightarrow> map (Apply (iv_go env) s) bs))"

definition stored :: "ingest_env \<Rightarrow> identity \<Rightarrow> beats_db \<Rightarrow> beat list \<Rightarrow> (beats_db \<times> int list) option" where
  "stored env ident db bs =
     (if iv_save_fails env then None
      else if iv_rollup_skip env \<and> \<not> Can ident ''generate_rollups'' then SaveHeartbeatsRaw (iv_zones env) db bs
      else SaveHeartbeats (iv_zones env) db bs)"

definition storeAndRespond ::
    "ingest_env \<Rightarrow> identity \<Rightarrow> gotime \<Rightarrow> string option \<Rightarrow> beat list \<Rightarrow> ingest_state \<Rightarrow> ingest_state \<times> (ingest_error + int list)" where
  "storeAndRespond env ident now machine hbs st =
     (let owner = id_name ident in
      case validateHeartbeatTimes hbs now of
        Some i \<Rightarrow> (st, Inl (BadTime i))
      | None \<Rightarrow>
          (case context_resolved env (is_db st) owner (map (enrich owner machine) hbs) of
             None \<Rightarrow> (st, Inl IngestFailed)
           | Some bs \<Rightarrow>
               (case stored env ident (is_db st) (scrubbed env (is_rules st) owner bs) of
                  None \<Rightarrow> (st, Inl IngestFailed)
                | Some (db', ids) \<Rightarrow>
                    (st\<lparr>is_db := db',
                        is_goals := (if iv_goals_fail env then is_goals st else InvalidateGoalsForOwner (is_goals st) owner)\<rparr>,
                     Inr ids))))"

section \<open>The backfill of stored placeholders\<close>

definition lastCtxAxes :: "string list" where
  "lastCtxAxes = [''project'', ''language'', ''branch'']"

definition same_sender :: "hb_row \<Rightarrow> hb_row \<Rightarrow> bool" where
  "same_sender a b \<longleftrightarrow> b_sender (h_beat a) \<noteq> None \<and> b_sender (h_beat a) = b_sender (h_beat b)"

definition earlier_real :: "string \<Rightarrow> hb_row list \<Rightarrow> hb_row \<Rightarrow> hb_row list" where
  "earlier_real axis rs r =
     filter (\<lambda>x. same_sender x r \<and> h_at x < h_at r \<and> real_value (axis_value axis (h_beat x))) rs"

definition lastCtxPriorExists :: "string \<Rightarrow> hb_row list \<Rightarrow> hb_row \<Rightarrow> bool" where
  "lastCtxPriorExists axis rs r \<longleftrightarrow> earlier_real axis rs r \<noteq> []"

text \<open>The statement reads the rows as they were when it started.\<close>

definition lastCtxSubstitute :: "string \<Rightarrow> hb_row list \<Rightarrow> hb_row list" where
  "lastCtxSubstitute axis rs =
     map (\<lambda>r. if is_placeholder (axis_value axis (h_beat r)) \<and> lastCtxPriorExists axis rs r
              then r\<lparr>h_beat := set_axis axis
                     (axis_value axis (h_beat (hd (slice_stable newest_first (earlier_real axis rs r))))) (h_beat r)\<rparr>
              else r) rs"

definition lastCtxNullOut :: "string \<Rightarrow> hb_row list \<Rightarrow> hb_row list" where
  "lastCtxNullOut axis rs =
     map (\<lambda>r. if is_placeholder (axis_value axis (h_beat r)) then r\<lparr>h_beat := set_axis axis None (h_beat r)\<rparr> else r) rs"

definition lastCtxCounts :: "string \<Rightarrow> hb_row list \<Rightarrow> nat \<times> nat" where
  "lastCtxCounts axis rs =
     (let ph = filter (\<lambda>r. is_placeholder (axis_value axis (h_beat r))) rs in
      (length (filter (lastCtxPriorExists axis rs) ph), length (filter (\<lambda>r. \<not> lastCtxPriorExists axis rs r) ph)))"

definition lastCtxAffectedSenders :: "hb_row list \<Rightarrow> string list" where
  "lastCtxAffectedSenders rs =
     sort (remdups (concat (map (\<lambda>r. case b_sender (h_beat r) of None \<Rightarrow> []
       | Some s \<Rightarrow> if is_placeholder (b_project (h_beat r)) \<or> is_placeholder (b_branch (h_beat r)) \<or> is_placeholder (b_language (h_beat r))
                    then [s] else []) rs)))"

record backfill_result =
  bf_counts :: "(string \<times> nat \<times> nat) list"
  bf_senders :: "string list"
  bf_dry :: bool

text \<open>The rows substituted and dropped on one axis, with the counts. A substituted project is one the sender has.\<close>

definition fill_axis :: "string \<Rightarrow> hb_row list \<Rightarrow> hb_row list \<times> nat \<times> nat" where
  "fill_axis axis rs =
     (let rs1 = lastCtxSubstitute axis rs in
      (lastCtxNullOut axis rs1,
       length (filter (\<lambda>r. is_placeholder (axis_value axis (h_beat r)) \<and> lastCtxPriorExists axis rs r) rs),
       length (filter (\<lambda>r. is_placeholder (axis_value axis (h_beat r))) rs1)))"

fun fill_axes :: "string list \<Rightarrow> hb_row list \<Rightarrow> hb_row list \<times> (string \<times> nat \<times> nat) list" where
  "fill_axes [] rs = (rs, [])"
| "fill_axes (a # as) rs =
     (let (rs1, c) = fill_axis a rs; (rs2, cs) = fill_axes as rs1 in (rs2, (a, c) # cs))"

definition BackfillLastContext :: "beats_db \<Rightarrow> bool \<Rightarrow> beats_db \<times> backfill_result" where
  "BackfillLastContext db dryRun =
     (let senders = lastCtxAffectedSenders (bd_rows db) in
      if dryRun then
        (db, \<lparr>bf_counts = map (\<lambda>a. (a, lastCtxCounts a (bd_rows db))) lastCtxAxes, bf_senders = senders, bf_dry = True\<rparr>)
      else (let (rs, counts) = fill_axes lastCtxAxes (bd_rows db) in
        (db\<lparr>bd_rows := rs\<rparr>, \<lparr>bf_counts = counts, bf_senders = senders, bf_dry = False\<rparr>)))"

section \<open>Redaction\<close>

definition validEntityTypes :: "string list" where
  "validEntityTypes = [''file'', ''app'', ''domain'', ''url'']"

definition entityRedactBatchMax :: nat where
  "entityRedactBatchMax = 500"

definition redacts :: "string \<Rightarrow> string \<Rightarrow> string list \<Rightarrow> hb_row \<Rightarrow> bool" where
  "redacts sender ty entities r \<longleftrightarrow>
     of_sender sender r \<and> b_type (h_beat r) = ty \<and> to_lower (b_entity (h_beat r)) \<in> set (map to_lower entities)"

text \<open>\<open>None\<close>: two rows of one sender and instant would have the empty entity.\<close>

definition beat_key :: "hb_row \<Rightarrow> string \<times> string option \<times> int" where
  "beat_key r = (b_entity (h_beat r), b_sender (h_beat r), h_at r)"

definition db_RedactEntities :: "beats_db \<Rightarrow> string \<Rightarrow> string \<Rightarrow> string list \<Rightarrow> (beats_db \<times> nat) option" where
  "db_RedactEntities db sender ty entities =
     (if entities = [] then Some (db, 0)
      else (let rs = map (\<lambda>r. if redacts sender ty entities r then r\<lparr>h_beat := (h_beat r)\<lparr>b_entity := []\<rparr>\<rparr> else r) (bd_rows db) in
        if distinct (map beat_key (filter (of_sender sender) rs))
        then Some (db\<lparr>bd_rows := rs\<rparr>, length (filter (redacts sender ty entities) (bd_rows db)))
        else None))"

datatype redact_error = NotConfirmed | BadType | NoEntities | TooManyEntities | Collision

definition RedactEntities ::
    "beats_db \<times> ttl_cache option \<Rightarrow> string \<Rightarrow> string \<Rightarrow> string \<Rightarrow> string list \<Rightarrow> (beats_db \<times> ttl_cache option) \<times> (redact_error + nat)" where
  "RedactEntities st owner confirm ty entities =
     (if confirm \<noteq> ''redact-entities'' then (st, Inl NotConfirmed)
      else if ty \<notin> set validEntityTypes then (st, Inl BadType)
      else if entities = [] then (st, Inl NoEntities)
      else if length entities > entityRedactBatchMax then (st, Inl TooManyEntities)
      else (case db_RedactEntities (fst st) owner ty entities of
          None \<Rightarrow> (st, Inl Collision)
        | Some (db', n) \<Rightarrow> ((db', InvalidateOwnerCache (snd st) owner), Inr n)))"

end
