(* ===== verification/IngestProps.thy ===== *)
theory IngestProps
  imports IngestFlow DerivedProps
begin

text \<open>
  What an ingest request does: the placeholders of a batch, what is never stored, and what a request
  leaves of other accounts.
\<close>

section \<open>The order of a batch\<close>

abbreviation (input) earlier_time :: "nat \<times> beat \<Rightarrow> nat \<times> beat \<Rightarrow> bool" where
  "earlier_time \<equiv> (\<lambda>a b. b_time (snd a) < b_time (snd b))"

definition precedes :: "nat \<times> beat \<Rightarrow> nat \<times> beat \<Rightarrow> bool" where
  "precedes a b \<longleftrightarrow> b_time (snd a) < b_time (snd b) \<or> b_time (snd a) = b_time (snd b) \<and> fst a < fst b"

lemma precedes_trans: "precedes a b \<Longrightarrow> precedes b c \<Longrightarrow> precedes a c"
  by (auto simp: precedes_def)

lemma precedes_irrefl: "\<not> precedes a a"
  by (simp add: precedes_def)

lemma insert_precedes:
  "sorted_wrt precedes ys \<Longrightarrow> \<forall>y\<in>set ys. fst x < fst y \<Longrightarrow> sorted_wrt precedes (insert_stable earlier_time x ys)"
proof (induction ys)
  case (Cons y ys)
  show ?case
  proof (cases "b_time (snd y) < b_time (snd x)")
    case True
    with Cons show ?thesis by (auto simp: precedes_def)
  next
    case False
    with Cons.prems have "precedes x y" by (auto simp: precedes_def)
    with Cons.prems False show ?thesis by (auto intro: precedes_trans)
  qed
qed simp

lemma slice_precedes: "sorted_wrt (\<lambda>a b. fst a < fst b) xs \<Longrightarrow> sorted_wrt precedes (slice_stable earlier_time xs)"
proof (induction xs)
  case (Cons x xs)
  then have "sorted_wrt precedes (slice_stable earlier_time xs)" "\<forall>y\<in>set (slice_stable earlier_time xs). fst x < fst y"
    by simp_all
  then show ?case using insert_precedes by simp
qed simp

definition in_order :: "beat list \<Rightarrow> (nat \<times> beat) list" where
  "in_order bs = slice_stable earlier_time (zip [0..<length bs] bs)"

lemma in_order_facts:
  "sorted_wrt precedes (in_order bs)" "set (in_order bs) = {(i, bs ! i) | i. i < length bs}" "distinct (map fst (in_order bs))"
proof -
  have "sorted_wrt (\<lambda>a b. fst a < fst b) (zip [0..<length bs] bs)"
    by (simp add: sorted_wrt_iff_nth_less)
  then show "sorted_wrt precedes (in_order bs)"
    unfolding in_order_def by (rule slice_precedes)
  show "set (in_order bs) = {(i, bs ! i) | i. i < length bs}"
    by (force simp: in_order_def set_zip)
  have "mset (map fst (in_order bs)) = mset (map fst (zip [0..<length bs] bs))"
    unfolding in_order_def mset_map by simp
  then show "distinct (map fst (in_order bs))"
    by (metis distinct_upt length_upt map_fst_zip minus_nat.diff_0 mset_eq_imp_distinct_iff)
qed

section \<open>The running value\<close>

definition advances :: "string option \<Rightarrow> bool" where
  "advances v \<longleftrightarrow> real_value v \<and> v \<noteq> Some []"

definition run_axis :: "string \<Rightarrow> string option \<Rightarrow> (nat \<times> beat) list \<Rightarrow> string option" where
  "run_axis axis seed us = foldl (\<lambda>r x. snd (substituteAxis (axis_value axis (snd x)) r)) seed us"

lemma substitute_next: "snd (substituteAxis v r) = (if advances v then v else r)"
  by (auto simp: substituteAxis_def advances_def real_value_def is_placeholder_def split: option.splits)

lemma substitute_field: "fst (substituteAxis v r) = (if is_placeholder v then r else v)"
  by (auto simp: substituteAxis_def is_placeholder_def split: option.splits)

lemma run_axis_last:
  "run_axis axis seed us =
   (case rev (filter (\<lambda>x. advances (axis_value axis (snd x))) us) of [] \<Rightarrow> seed | x # _ \<Rightarrow> axis_value axis (snd x))"
  by (induction us rule: rev_induct) (simp_all add: run_axis_def substitute_next)

definition resolved_beat :: "string option \<Rightarrow> string option \<Rightarrow> string option \<Rightarrow> (nat \<times> beat) list \<Rightarrow> beat \<Rightarrow> beat" where
  "resolved_beat p l br us b =
     b\<lparr>b_project := fst (substituteAxis (b_project b) (run_axis ''project'' p us)),
       b_language := fst (substituteAxis (b_language b) (run_axis ''language'' l us)),
       b_branch := fst (substituteAxis (b_branch b) (run_axis ''branch'' br us))\<rparr>"

lemma axis_value_simps [simp]:
  "axis_value ''project'' b = b_project b" "axis_value ''language'' b = b_language b" "axis_value ''branch'' b = b_branch b"
  by (simp_all add: axis_value_def)

lemma substitute_loop_at:
  "i \<notin> fst ` set us \<Longrightarrow> aget (substitute_loop (us @ (i, b) # vs) p l br) i = Some (resolved_beat p l br us b)"
proof (induction us arbitrary: p l br)
  case Nil
  then show ?case
    by (simp add: resolved_beat_def run_axis_def split: prod.splits)
next
  case (Cons u us)
  then show ?case
    by (cases u) (auto simp: resolved_beat_def run_axis_def split: prod.splits)
qed

lemma substitute_at:
  assumes i: "i < length bs"
  obtains us vs where "in_order bs = us @ (i, bs ! i) # vs"
    "substituteLastContext bs p l br ! i = resolved_beat p l br us (bs ! i)"
proof -
  have "(i, bs ! i) \<in> set (in_order bs)" using i by (simp add: in_order_facts(2))
  then obtain us vs where s: "in_order bs = us @ (i, bs ! i) # vs" by (meson split_list)
  then have "i \<notin> fst ` set us" using in_order_facts(3) [of bs] by auto
  from substitute_loop_at [OF this, of "bs ! i" vs p l br]
  have "substituteLastContext bs p l br ! i = resolved_beat p l br us (bs ! i)"
    unfolding substituteLastContext_def in_order_def [symmetric] s using i by (simp add: by_index_def)
  with s show ?thesis by (rule that)
qed

lemma split_members:
  assumes "in_order bs = us @ (i, bs ! i) # vs" "i < length bs"
  shows "(j, c) \<in> set us \<longleftrightarrow> j < length bs \<and> c = bs ! j \<and> precedes (j, bs ! j) (i, bs ! i)"
proof -
  have srt: "sorted_wrt precedes (us @ (i, bs ! i) # vs)" using in_order_facts(1) [of bs] assms by simp
  have mem: "set (us @ (i, bs ! i) # vs) = {(j, bs ! j) | j. j < length bs}" using in_order_facts(2) [of bs] assms by simp
  show ?thesis
  proof
    assume "(j, c) \<in> set us"
    then have "(j, c) \<in> {(j, bs ! j) | j. j < length bs}" "precedes (j, c) (i, bs ! i)"
      using srt mem by (auto simp: sorted_wrt_append)
    then show "j < length bs \<and> c = bs ! j \<and> precedes (j, bs ! j) (i, bs ! i)" by auto
  next
    assume j: "j < length bs \<and> c = bs ! j \<and> precedes (j, bs ! j) (i, bs ! i)"
    then have "(j, c) \<in> set (us @ (i, bs ! i) # vs)" unfolding mem by auto
    moreover have "(j, c) \<notin> set ((i, bs ! i) # vs)"
      using j srt precedes_irrefl precedes_trans by (fastforce simp: sorted_wrt_append)
    ultimately show "(j, c) \<in> set us" by auto
  qed
qed

lemma run_axis_none:
  "(\<And>x. x \<in> set us \<Longrightarrow> \<not> advances (axis_value axis (snd x))) \<Longrightarrow> run_axis axis seed us = seed"
proof -
  assume "\<And>x. x \<in> set us \<Longrightarrow> \<not> advances (axis_value axis (snd x))"
  then have "filter (\<lambda>x. advances (axis_value axis (snd x))) us = []" by (simp add: filter_empty_conv)
  then show ?thesis by (simp add: run_axis_last)
qed

lemma run_axis_some:
  assumes srt: "sorted_wrt precedes us" and x: "x \<in> set us" "advances (axis_value axis (snd x))"
    and last: "\<And>y. y \<in> set us \<Longrightarrow> precedes x y \<Longrightarrow> \<not> advances (axis_value axis (snd y))"
  shows "run_axis axis seed us = axis_value axis (snd x)"
proof -
  let ?f = "filter (\<lambda>y. advances (axis_value axis (snd y)))"
  obtain ws zs where us: "us = ws @ x # zs" using x(1) by (meson split_list)
  with srt have "\<forall>y\<in>set zs. precedes x y" by (simp add: sorted_wrt_append)
  then have "?f zs = []" using last us by (auto simp: filter_empty_conv)
  then have "rev (?f us) = x # rev (?f ws)" using x(2) by (simp add: us)
  then show ?thesis by (simp add: run_axis_last)
qed

section \<open>Clean beats\<close>

definition clean_beat :: "beat \<Rightarrow> bool" where
  "clean_beat b \<longleftrightarrow> \<not> is_placeholder (b_project b) \<and> \<not> is_placeholder (b_language b) \<and> \<not> is_placeholder (b_branch b)"

definition clean_db :: "beats_db \<Rightarrow> bool" where
  "clean_db db \<longleftrightarrow> list_all (\<lambda>r. clean_beat (h_beat r)) (bd_rows db)"

lemma last_known_clean: "\<not> is_placeholder (last_known axis s db)"
proof (cases "slice_stable newest_first (filter (\<lambda>r. real_value (axis_value axis (h_beat r))) (sender_rows s db))")
  case Nil
  then show ?thesis by (simp add: last_known_def is_placeholder_def)
next
  case (Cons r rs)
  then have "r \<in> set (filter (\<lambda>r. real_value (axis_value axis (h_beat r))) (sender_rows s db))"
    by (metis list.set_intros(1) set_slice_stable)
  with Cons show ?thesis by (simp add: last_known_def real_value_def)
qed

lemma run_axis_clean: "\<not> is_placeholder seed \<Longrightarrow> \<not> is_placeholder (run_axis axis seed us)"
proof -
  assume seed: "\<not> is_placeholder seed"
  show ?thesis
  proof (cases "rev (filter (\<lambda>x. advances (axis_value axis (snd x))) us)")
    case (Cons x xs)
    then have "x \<in> set (filter (\<lambda>x. advances (axis_value axis (snd x))) us)"
      by (metis list.set_intros(1) set_rev)
    then have "\<not> is_placeholder (axis_value axis (snd x))" by (simp add: advances_def real_value_def)
    with Cons show ?thesis by (simp add: run_axis_last)
  qed (simp add: run_axis_last seed)
qed

lemma length_substitute [simp]: "length (substituteLastContext bs p l br) = length bs"
  by (simp add: substituteLastContext_def by_index_def)

lemma resolved_fields [simp]:
  "b_sender (resolved_beat p l br us b) = b_sender b" "b_time (resolved_beat p l br us b) = b_time b"
  by (simp_all add: resolved_beat_def)

lemma substitute_all:
  assumes "\<And>us b. b \<in> set bs \<Longrightarrow> P (resolved_beat p l br us b)" "b \<in> set (substituteLastContext bs p l br)"
  shows "P b"
proof -
  obtain i where i: "i < length bs" "b = substituteLastContext bs p l br ! i"
    using assms(2) by (metis in_set_conv_nth length_substitute)
  from substitute_at [OF i(1)] obtain us where "b = resolved_beat p l br us (bs ! i)"
    using i(2) by metis
  with assms(1) i(1) show ?thesis by simp
qed

lemma context_clean:
  assumes "context_resolved env db owner bs = Some bs'" "b \<in> set bs'"
  shows "clean_beat b"
proof (cases "batchHasLastPlaceholder bs")
  case True
  with assms have "b \<in> set (substituteLastContext bs (last_known ''project'' owner db) (last_known ''language'' owner db) (last_known ''branch'' owner db))"
    by (auto simp: context_resolved_def GetLastKnownContext_def split: if_splits)
  then show ?thesis
    by (rule substitute_all [rotated])
      (auto simp: clean_beat_def resolved_beat_def substitute_field run_axis_clean last_known_clean)
next
  case False
  with assms show ?thesis
    by (auto simp: context_resolved_def batchHasLastPlaceholder_def list_ex_iff clean_beat_def)
qed

lemma context_senders:
  assumes c: "context_resolved env db owner bs = Some bs'" and s: "\<And>b. b \<in> set bs \<Longrightarrow> b_sender b = Some s"
  shows "length bs' = length bs \<and> (\<forall>b\<in>set bs'. b_sender b = Some s)"
proof (cases "batchHasLastPlaceholder bs")
  case True
  have "b_sender b = Some s" if "b \<in> set (substituteLastContext bs p l br)" for b p l br
    by (rule substitute_all [OF _ that]) (simp add: s)
  with True c show ?thesis
    by (auto simp: context_resolved_def GetLastKnownContext_def split: if_splits)
qed (use c s in \<open>auto simp: context_resolved_def\<close>)

lemma set_axis_sender [simp]: "b_sender (set_axis a v b) = b_sender b"
  by (simp add: set_axis_def)

lemma Apply_sender [simp]: "b_sender (Apply go s b) = b_sender b"
proof -
  have "b_sender (Apply_axis go a rs b) = b_sender b" for a rs b
    by (simp add: Apply_axis_def)
  then show ?thesis
    by (induction s arbitrary: b) (auto simp: Apply_def)
qed

lemma scrubbed_cases:
  "scrubbed env rules owner bs = bs \<or> scrubbed env rules owner bs = map (Apply (iv_go env) (LoadIngestRenameRules (iv_go env) rules owner)) bs"
  by (auto simp: scrubbed_def split: list.splits)

section \<open>Storing\<close>

lemma length_batch: "length (snd (insertHeartbeatsBatch bs t)) = length bs"
proof (induction bs arbitrary: t)
  case (Cons b bs)
  then show ?case unfolding batch_Cons snd_conv by simp
qed simp

lemma insert_batch_all:
  assumes "\<And>r. r \<in> set (fst t) \<Longrightarrow> P (h_beat r)" "\<And>b. b \<in> set bs \<Longrightarrow> P b"
    and tm: "\<And>b r. P (h_beat r) \<Longrightarrow> P (h_beat (take_machine b r))" and "r \<in> set (fst (fst (insertHeartbeatsBatch bs t)))"
  shows "P (h_beat r)"
  using assms(1,2,4)
proof (induction bs arbitrary: t)
  case (Cons b bs)
  have "P (h_beat x)" if "x \<in> set (fst (fst (insert_beat b t)))" for x
    using that Cons.prems(1,2) tm by (auto simp: insert_beat_def split: option.splits)
  moreover have "r \<in> set (fst (fst (insertHeartbeatsBatch bs (fst (insert_beat b t)))))"
    using Cons.prems(3) unfolding batch_Cons fst_conv .
  ultimately show ?case
    using Cons.IH [of "fst (insert_beat b t)"] Cons.prems(2) by auto
qed simp

lemma maintain_all_beats: "maintain_all zs hbs ss db = Some db' \<Longrightarrow> map h_beat (bd_rows db') = map h_beat (bd_rows db)"
proof (induction ss arbitrary: db)
  case (Cons s ss)
  then obtain m where m: "maintain zs hbs s db = Some m" "maintain_all zs hbs ss m = Some db'"
    by (auto simp: bind_eq_Some_conv)
  then have "map h_beat (bd_rows m) = map h_beat (bd_rows db)"
    using recompute_effect(7) by (auto simp: maintain_def Let_def)
  with Cons.IH [OF m(2)] show ?case by simp
qed simp

lemma saved_cases:
  assumes "saveHeartbeats zs rollup db bs = Some (db', ids)" "bs \<noteq> []"
  shows "\<exists>db1. insert_phases db bs = Some (db1, ids) \<and> map h_beat (bd_rows db') = map h_beat (bd_rows db1) \<and>
    (\<forall>t. t \<notin> set (batch_senders bs) \<longrightarrow> same_for t db1 db')"
proof -
  obtain db1 where ins: "insert_phases db bs = Some (db1, ids)"
    and db': "if rollup then maintain_all zs bs (batch_senders bs) db1 = Some db' else db' = db1"
    using assms by (auto simp: saveHeartbeats_def bind_eq_Some_conv split: if_splits)
  show ?thesis
  proof (cases rollup)
    case True
    with db' have m: "maintain_all zs bs (batch_senders bs) db1 = Some db'" by simp
    show ?thesis
      using ins maintain_all_beats [OF m] maintain_all_frame [OF m] by blast
  qed (use ins db' in auto)
qed

lemma saved_length: "saveHeartbeats zs rollup db bs = Some (db', ids) \<Longrightarrow> length ids = length bs"
proof (cases "bs = []")
  case False
  assume "saveHeartbeats zs rollup db bs = Some (db', ids)"
  from saved_cases [OF this False] obtain db1 where "insert_phases db bs = Some (db1, ids)" by blast
  from insert_phases_effect(6) [OF this] show ?thesis by (simp add: length_batch)
qed (simp add: saveHeartbeats_def)

lemma saved_others:
  assumes sv: "saveHeartbeats zs rollup db bs = Some (db', ids)" and s: "\<And>b. b \<in> set bs \<Longrightarrow> b_sender b = Some s" and t: "t \<noteq> s"
  shows "same_for t db db'"
proof (cases "bs = []")
  case False
  from saved_cases [OF sv False] obtain db1 where ins: "insert_phases db bs = Some (db1, ids)"
    and same: "\<forall>t. t \<notin> set (batch_senders bs) \<longrightarrow> same_for t db1 db'" by blast
  have "t \<notin> set (batch_senders bs)" using s t by (auto simp: batch_senders_def split: option.splits)
  with insert_same_for [OF ins] same show ?thesis using same_for_trans by blast
qed (use sv in \<open>simp add: saveHeartbeats_def\<close>)

lemma saved_beats:
  assumes sv: "saveHeartbeats zs rollup db bs = Some (db', ids)"
    and old: "\<And>r. r \<in> set (bd_rows db) \<Longrightarrow> P (h_beat r)" and new: "\<And>b. b \<in> set bs \<Longrightarrow> P b"
    and tm: "\<And>b r. P (h_beat r) \<Longrightarrow> P (h_beat (take_machine b r))" and r: "r \<in> set (bd_rows db')"
  shows "P (h_beat r)"
proof (cases "bs = []")
  case False
  from saved_cases [OF sv False] obtain db1 where ins: "insert_phases db bs = Some (db1, ids)"
    and beats: "map h_beat (bd_rows db') = map h_beat (bd_rows db1)" by blast
  have rows1: "bd_rows db1 = fst (fst (insertHeartbeatsBatch bs (bd_rows db, bd_next db)))"
    using ins by (auto simp: insert_phases_def split: if_splits prod.splits)
  have "h_beat r \<in> set (map h_beat (bd_rows db1))"
    using r unfolding beats [symmetric] by simp
  then obtain x where x: "x \<in> set (bd_rows db1)" "h_beat r = h_beat x" by auto
  have "P (h_beat x)"
    by (rule insert_batch_all [of "(bd_rows db, bd_next db)" P bs]) (use old new tm x in \<open>simp_all add: rows1\<close>)
  with x show ?thesis by simp
qed (use sv old r in \<open>simp add: saveHeartbeats_def\<close>)

end
