(* ===== verification/IngestTheorems.thy ===== *)
theory IngestTheorems
  imports IngestProps HeartbeatProps
begin

text \<open>The theorems on the ingest of beats.\<close>

definition same_axis :: "string \<Rightarrow> nat \<Rightarrow> nat \<Rightarrow> beat list \<Rightarrow> bool" where
  "same_axis axis j i bs \<longleftrightarrow> precedes (j, bs ! j) (i, bs ! i) \<and> advances (axis_value axis (bs ! j))"

lemma resolved_axis:
  "axis = ''project'' \<and> seed = p \<or> axis = ''language'' \<and> seed = l \<or> axis = ''branch'' \<and> seed = br \<Longrightarrow>
   axis_value axis (resolved_beat p l br us b) = fst (substituteAxis (axis_value axis b) (run_axis axis seed us))"
  by (auto simp: resolved_beat_def)

lemma resolved_rest:
  "resolved_beat p l br us b =
   b\<lparr>b_project := b_project (resolved_beat p l br us b), b_language := b_language (resolved_beat p l br us b),
     b_branch := b_branch (resolved_beat p l br us b)\<rparr>"
  by (simp add: resolved_beat_def)

lemma placeholder_resolved:
  assumes i: "i < length bs" and ax: "axis = ''project'' \<and> seed = p \<or> axis = ''language'' \<and> seed = l \<or> axis = ''branch'' \<and> seed = br"
    and ph: "is_placeholder (axis_value axis (bs ! i))"
  shows "(\<And>j. j < length bs \<Longrightarrow> \<not> same_axis axis j i bs) \<Longrightarrow> axis_value axis (substituteLastContext bs p l br ! i) = seed"
    and "j < length bs \<Longrightarrow> same_axis axis j i bs \<Longrightarrow>
      (\<And>k. k < length bs \<Longrightarrow> same_axis axis k i bs \<Longrightarrow> \<not> precedes (j, bs ! j) (k, bs ! k)) \<Longrightarrow>
      axis_value axis (substituteLastContext bs p l br ! i) = axis_value axis (bs ! j)"
proof -
  obtain us vs where s: "in_order bs = us @ (i, bs ! i) # vs"
    and r: "substituteLastContext bs p l br ! i = resolved_beat p l br us (bs ! i)"
    by (rule substitute_at [OF i])
  note mem = split_members [OF s i]
  have v: "axis_value axis (substituteLastContext bs p l br ! i) = run_axis axis seed us"
    using resolved_axis [OF ax] ph by (simp add: r substitute_field)
  show "axis_value axis (substituteLastContext bs p l br ! i) = seed" if "\<And>j. j < length bs \<Longrightarrow> \<not> same_axis axis j i bs"
    unfolding v by (rule run_axis_none) (use that mem in \<open>auto simp: same_axis_def\<close>)
  have srt: "sorted_wrt precedes us"
    using in_order_facts(1) [of bs] by (simp add: s sorted_wrt_append)
  show "axis_value axis (substituteLastContext bs p l br ! i) = axis_value axis (bs ! j)"
    if j: "j < length bs" "same_axis axis j i bs"
      and last: "\<And>k. k < length bs \<Longrightarrow> same_axis axis k i bs \<Longrightarrow> \<not> precedes (j, bs ! j) (k, bs ! k)"
  proof -
    have "\<not> advances (axis_value axis (snd y))" if y: "y \<in> set us" "precedes (j, bs ! j) y" for y
    proof -
      obtain k where k: "y = (k, bs ! k)" "k < length bs" "precedes (k, bs ! k) (i, bs ! i)"
        using y(1) mem by (metis surj_pair)
      with last [of k] y(2) show ?thesis by (auto simp: same_axis_def)
    qed
    moreover have "(j, bs ! j) \<in> set us" "advances (axis_value axis (snd (j, bs ! j)))"
      using j mem by (simp_all add: same_axis_def)
    ultimately show ?thesis
      unfolding v using run_axis_some [OF srt, of "(j, bs ! j)" axis seed] by simp
  qed
qed

text \<open>
  C32 The last known context of a batch. The substitution keeps the order and every other field of the
  beats. On each of the three axes a value that is not a placeholder stays; a placeholder becomes the
  value of the latest beat of the batch before it that has a real one, in the order of time and, at one
  instant, of the batch; and if there is none, the value the database gave for the sender.
\<close>

theorem placeholder_becomes_last_value:
  assumes "i < length bs"
    and "axis = ''project'' \<and> seed = p \<or> axis = ''language'' \<and> seed = l \<or> axis = ''branch'' \<and> seed = br"
  shows "let bs' = substituteLastContext bs p l br; v = axis_value axis (bs ! i); v' = axis_value axis (bs' ! i) in
    length bs' = length bs \<and>
    bs' ! i = (bs ! i)\<lparr>b_project := b_project (bs' ! i), b_language := b_language (bs' ! i), b_branch := b_branch (bs' ! i)\<rparr> \<and>
    (\<not> is_placeholder v \<longrightarrow> v' = v) \<and>
    (is_placeholder v \<longrightarrow> (\<forall>j<length bs. \<not> same_axis axis j i bs) \<longrightarrow> v' = seed) \<and>
    (is_placeholder v \<longrightarrow> (\<forall>j<length bs. same_axis axis j i bs \<longrightarrow>
       (\<forall>k<length bs. same_axis axis k i bs \<longrightarrow> \<not> precedes (j, bs ! j) (k, bs ! k)) \<longrightarrow> v' = axis_value axis (bs ! j)))"
proof -
  obtain us where r: "substituteLastContext bs p l br ! i = resolved_beat p l br us (bs ! i)"
    by (rule substitute_at [OF assms(1)])
  have "\<not> is_placeholder (axis_value axis (bs ! i)) \<Longrightarrow> axis_value axis (substituteLastContext bs p l br ! i) = axis_value axis (bs ! i)"
    using resolved_axis [OF assms(2)] by (simp add: r substitute_field)
  then show ?thesis
    using placeholder_resolved [OF assms] resolved_rest [of p l br us "bs ! i"] unfolding Let_def r length_substitute by metis
qed

definition ctx_batch :: "beat list" where
  "ctx_batch = map (\<lambda>(t, p). (sample_beat ''ann'' ''e'' t)\<lparr>b_project := Some p\<rparr>)
     [(30, ''<<LAST_PROJECT>>''), (10, ''<<LAST_PROJECT>>''), (20, ''boom'')]"

theorem placeholder_becomes_last_value_witness:
  "map b_project (substituteLastContext ctx_batch (Some ''old'') None None) = [Some ''boom'', Some ''old'', Some ''boom''] \<and>
   b_project (substituteLastContext ctx_batch (Some ''old'') None None ! 0) = b_project (ctx_batch ! 2)"
proof
  show "map b_project (substituteLastContext ctx_batch (Some ''old'') None None) = [Some ''boom'', Some ''old'', Some ''boom'']"
    by code_simp
  have l: "0 < length ctx_batch" "length ctx_batch = 3" by (simp_all add: ctx_batch_def)
  have ph: "is_placeholder (b_project (ctx_batch ! 0))" and j: "same_axis ''project'' 2 0 ctx_batch"
    and no: "\<not> precedes (2, ctx_batch ! 2) (0, ctx_batch ! 0) \<or> \<not> same_axis ''project'' 0 0 ctx_batch"
      "\<not> same_axis ''project'' 1 0 ctx_batch"
    by code_simp+
  have "\<forall>k<length ctx_batch. same_axis ''project'' k 0 ctx_batch \<longrightarrow> \<not> precedes (2, ctx_batch ! 2) (k, ctx_batch ! k)"
  proof (intro allI impI)
    fix k assume k: "k < length ctx_batch" "same_axis ''project'' k 0 ctx_batch"
    then have "k = 0 \<or> k = 1 \<or> k = 2" using l by arith
    with k no show "\<not> precedes (2, ctx_batch ! 2) (k, ctx_batch ! k)"
      using precedes_irrefl by (auto simp: same_axis_def precedes_irrefl)
  qed
  then show "b_project (substituteLastContext ctx_batch (Some ''old'') None None ! 0) = b_project (ctx_batch ! 2)"
    using placeholder_becomes_last_value [OF l(1), of "''project''" "Some ''old''" "Some ''old''" None None] ph j l(2)
    by (simp add: Let_def)
qed

lemma clean_take_machine: "clean_beat (h_beat r) \<Longrightarrow> clean_beat (h_beat (take_machine b r))"
  by (simp add: clean_beat_def take_machine_def)

lemma stored_cases: "stored env ident db bs = Some (db', ids) \<Longrightarrow> \<exists>rollup. saveHeartbeats (iv_zones env) rollup db bs = Some (db', ids)"
  by (auto simp: stored_def SaveHeartbeats_def SaveHeartbeatsRaw_def split: if_splits)

lemma request_cases:
  assumes "storeAndRespond env ident now machine hbs st = (st', Inr ids)"
  shows "\<exists>bs db'. context_resolved env (is_db st) (id_name ident) (map (enrich (id_name ident) machine) hbs) = Some bs \<and>
    stored env ident (is_db st) (scrubbed env (is_rules st) (id_name ident) bs) = Some (db', ids) \<and>
    st' = st\<lparr>is_db := db', is_goals := (if iv_goals_fail env then is_goals st else InvalidateGoalsForOwner (is_goals st) (id_name ident))\<rparr>"
  using assms by (auto simp: storeAndRespond_def Let_def split: option.splits)


definition sample_env :: ingest_env where
  "sample_env = \<lparr>iv_zones = utc_zone, iv_go = \<lparr>go_compiles = (\<lambda>_. True), go_find = (\<lambda>_ _. None), go_named = (\<lambda>_ _ _. [])\<rparr>,
     iv_rollup_skip = False, iv_seed_fails = False, iv_rules_fail = False, iv_save_fails = False, iv_goals_fail = False\<rparr>"

definition ctx_request :: "ingest_state \<times> (ingest_error + int list)" where
  "ctx_request = storeAndRespond sample_env (AllCapsIdentity ''ann'') (seconds 1000000000) None
     [(sample_beat ''x'' ''e'' 990000000)\<lparr>b_project := Some ''<<LAST_PROJECT>>''\<rparr>]
     \<lparr>is_db = sample_db, is_rules = [], is_goals = []\<rparr>"


section \<open>Whom a request touches\<close>

lemma enrich_sender [simp]: "b_sender (enrich owner machine b) = Some owner"
  by (simp add: enrich_def Let_def)

lemma scrubbed_senders:
  assumes c: "context_resolved env db owner (map (enrich owner machine) hbs) = Some bs"
  shows "length (scrubbed env rules owner bs) = length hbs" "b \<in> set (scrubbed env rules owner bs) \<Longrightarrow> b_sender b = Some owner"
proof -
  have s: "length bs = length hbs \<and> (\<forall>b\<in>set bs. b_sender b = Some owner)"
    using context_senders [OF c, of owner] by (metis (no_types, lifting) ex_map_conv length_map enrich_sender)
  show "length (scrubbed env rules owner bs) = length hbs"
    using s scrubbed_cases [of env rules owner bs] by (metis length_map)
  show "b \<in> set (scrubbed env rules owner bs) \<Longrightarrow> b_sender b = Some owner"
    using s scrubbed_cases [of env rules owner bs] by auto
qed

lemma other_goals: "filter (\<lambda>g. g_owner g \<noteq> owner) (InvalidateGoalsForOwner gs owner) = filter (\<lambda>g. g_owner g \<noteq> owner) gs"
  unfolding InvalidateGoalsForOwner_def update_where_def by (rule filter_map_same) auto

lemma own_goals: "g \<in> set (InvalidateGoalsForOwner gs owner) \<Longrightarrow> g_owner g = owner \<Longrightarrow> g_progress g = None"
proof -
  assume "g \<in> set (InvalidateGoalsForOwner gs owner)" and o: "g_owner g = owner"
  then obtain x where x: "g = (if g_owner x = owner \<and> g_progress x \<noteq> None then x\<lparr>g_progress := None, g_evaluated := None\<rparr> else x)"
    unfolding InvalidateGoalsForOwner_def update_where_def set_map by blast
  show ?thesis
  proof (cases "g_owner x = owner \<and> g_progress x \<noteq> None")
    case True
    with x show ?thesis by simp
  next
    case False
    with x have "g = x" by argo
    with False o show ?thesis by simp
  qed
qed



end
