(* ===== verification/CurationModel.thy ===== *)
theory CurationModel
  imports RenameApply HeartbeatStore TtlCache
begin

text \<open>
  Curation rules (\<open>internal/boomtime/curation/curation.go\<close>, \<open>internal/shared/db/curation.go\<close>): hide, rename
  and pin rules per account, their life cycle, and the two requests that rewrite or delete stored beats
  for good. The Postgres expression engine is a parameter; callers are known and ids already numbers.
  The previews run the same statements as selections and are not modelled.
\<close>

section \<open>Rules\<close>

record cur_rule =
  cu_id :: int
  cu_rule :: rename_rule
  cu_created :: gotime

record cur_state =
  cs_rules :: "cur_rule list"
  cs_next :: int
  cs_db :: beats_db
  cs_cache :: "ttl_cache option"

abbreviation cu_sender :: "cur_rule \<Rightarrow> string" where
  "cu_sender r \<equiv> rr_sender (cu_rule r)"

definition exploreColumns :: "string list" where
  "exploreColumns = [''day'', ''type'', ''entity'', ''isWrite'', ''userAgent''] @ axis_names"

definition nonTextCurationAxis :: "string \<Rightarrow> bool" where
  "nonTextCurationAxis a \<longleftrightarrow> a = ''day'' \<or> a = ''isWrite''"

section \<open>The table\<close>

definition by_newest_id :: "cur_rule \<Rightarrow> cur_rule \<Rightarrow> bool" where
  "by_newest_id a b \<longleftrightarrow> cu_id b < cu_id a"

definition ListCurationRules :: "cur_rule list \<Rightarrow> string \<Rightarrow> cur_rule list" where
  "ListCurationRules rs sender = slice_stable by_newest_id (filter (\<lambda>r. cu_sender r = sender) rs)"

definition LoadPinnedSet :: "cur_rule list \<Rightarrow> string \<Rightarrow> string \<Rightarrow> string list" where
  "LoadPinnedSet rs owner axis =
     sort (map (rr_match \<circ> cu_rule)
       (filter (\<lambda>r. cu_sender r = owner \<and> rr_action (cu_rule r) = ''pin'' \<and> rr_axis (cu_rule r) = axis \<and> rr_enabled (cu_rule r)) rs))"

text \<open>The unique key of the table.\<close>

definition rule_key :: "rename_rule \<Rightarrow> string \<times> string \<times> string \<times> string \<times> string" where
  "rule_key r = (rr_sender r, rr_axis r, rr_action r, rr_match_type r, rr_match r)"

definition CreateCurationRuleWithIngest :: "gotime \<Rightarrow> rename_rule \<Rightarrow> cur_rule list \<times> int \<Rightarrow> (cur_rule list \<times> int) \<times> cur_rule" where
  "CreateCurationRuleWithIngest now r0 t =
     (let r = r0\<lparr>rr_match_type := (if rr_match_type r0 = [] then ''exact'' else rr_match_type r0), rr_enabled := True\<rparr> in
      case find (\<lambda>c. rule_key (cu_rule c) = rule_key r) (fst t) of
        Some c \<Rightarrow> (let c' = c\<lparr>cu_rule := (cu_rule c)\<lparr>rr_new_value := rr_new_value r, rr_enabled := True, rr_at_ingest := rr_at_ingest r\<rparr>\<rparr> in
                   ((map (\<lambda>x. if rule_key (cu_rule x) = rule_key r then c' else x) (fst t), snd t), c'))
      | None \<Rightarrow> (let c = \<lparr>cu_id = snd t, cu_rule = r, cu_created = now\<rparr> in ((fst t @ [c], snd t + 1), c)))"

definition GetCurationRule :: "cur_rule list \<Rightarrow> int \<Rightarrow> cur_rule option" where
  "GetCurationRule rs i = find (\<lambda>r. cu_id r = i) rs"

definition owned_rule :: "string \<Rightarrow> int \<Rightarrow> cur_rule \<Rightarrow> bool" where
  "owned_rule sender i r \<longleftrightarrow> cu_id r = i \<and> cu_sender r = sender"

definition set_enabled :: "(bool \<Rightarrow> bool) \<Rightarrow> string \<Rightarrow> int \<Rightarrow> cur_rule \<Rightarrow> cur_rule" where
  "set_enabled f sender i r =
     (if owned_rule sender i r then r\<lparr>cu_rule := (cu_rule r)\<lparr>rr_enabled := f (rr_enabled (cu_rule r))\<rparr>\<rparr> else r)"

definition ToggleCurationRule :: "cur_rule list \<Rightarrow> string \<Rightarrow> int \<Rightarrow> cur_rule list \<times> bool option" where
  "ToggleCurationRule rs sender i =
     (map (set_enabled (\<lambda>b. \<not> b) sender i) rs, map_option (\<lambda>r. \<not> rr_enabled (cu_rule r)) (find (owned_rule sender i) rs))"

definition SetCurationRuleEnabled :: "cur_rule list \<Rightarrow> string \<Rightarrow> int \<Rightarrow> bool \<Rightarrow> cur_rule list \<times> bool" where
  "SetCurationRuleEnabled rs sender i b = (map (set_enabled (\<lambda>_. b) sender i) rs, list_ex (owned_rule sender i) rs)"

definition DeleteCurationRule :: "cur_rule list \<Rightarrow> string \<Rightarrow> int \<Rightarrow> cur_rule list \<times> nat" where
  "DeleteCurationRule rs sender i = (filter (\<lambda>r. \<not> owned_rule sender i r) rs, length (filter (owned_rule sender i) rs))"

section \<open>Checks\<close>

definition ValidateTemplate :: "pg_regexp \<Rightarrow> string \<Rightarrow> string \<Rightarrow> bool" where
  "ValidateTemplate pg pattern template \<longleftrightarrow> pg_compiles pg pattern \<and>
     backrefs_within (case pg_array_length pg pattern of None \<Rightarrow> 0 | Some k \<Rightarrow> k - 1) template"

section \<open>Rewriting and deleting beats\<close>

definition rule_hits :: "pg_regexp \<Rightarrow> rename_rule \<Rightarrow> hb_row \<Rightarrow> bool" where
  "rule_hits pg r x \<longleftrightarrow>
     (case axis_value (rr_axis r) (h_beat x) of None \<Rightarrow> False | Some v \<Rightarrow> rulePredicate pg r v)"

definition rewrite_beat :: "pg_regexp \<Rightarrow> rename_rule \<Rightarrow> hb_row \<Rightarrow> hb_row" where
  "rewrite_beat pg r x =
     x\<lparr>h_beat := set_axis (rr_axis r) (map_option (apply_update pg r) (axis_value (rr_axis r) (h_beat x))) (h_beat x)\<rparr>"

text \<open>A project of a beat has to be in the table of projects, or the statement fails.\<close>

definition projects_known_to :: "beats_db \<Rightarrow> hb_row list \<Rightarrow> bool" where
  "projects_known_to db rs \<longleftrightarrow>
     list_all (\<lambda>x. case (b_sender (h_beat x), b_project (h_beat x)) of (Some s, Some p) \<Rightarrow> (s, p) \<in> set (bd_projects db) | _ \<Rightarrow> True) rs"

definition ApplyRenameRule :: "pg_regexp \<Rightarrow> cur_state \<Rightarrow> string \<Rightarrow> cur_rule \<Rightarrow> (cur_state \<times> nat) option" where
  "ApplyRenameRule pg st sender c =
     (let r = cu_rule c; db = cs_db st in
      if \<not> RollupAxes (rr_axis r) \<or> rr_action r \<noteq> ''rename'' \<or> rr_new_value r = None then None
      else (let rs = map (\<lambda>x. if of_sender sender x \<and> rule_hits pg r x then rewrite_beat pg r x else x) (bd_rows db);
                (rules, n) = DeleteCurationRule (cs_rules st) sender (cu_id c)
            in if \<not> projects_known_to db rs \<or> n = 0 then None
               else Some (st\<lparr>cs_db := db\<lparr>bd_rows := rs\<rparr>, cs_rules := rules\<rparr>,
                          length (filter (\<lambda>x. of_sender sender x \<and> rule_hits pg r x) (bd_rows db)))))"

definition PurgeHiddenRule :: "pg_regexp \<Rightarrow> cur_state \<Rightarrow> string \<Rightarrow> cur_rule \<Rightarrow> (cur_state \<times> nat) option" where
  "PurgeHiddenRule pg st sender c =
     (let r = cu_rule c; db = cs_db st in
      if \<not> RollupAxes (rr_axis r) \<or> rr_action r \<noteq> ''hide'' then None
      else (let (rules, n) = DeleteCurationRule (cs_rules st) sender (cu_id c)
            in if n = 0 then None
               else Some (st\<lparr>cs_db := db\<lparr>bd_rows := filter (\<lambda>x. \<not> (of_sender sender x \<and> rule_hits pg r x)) (bd_rows db)\<rparr>,
                             cs_rules := rules\<rparr>,
                          length (filter (\<lambda>x. of_sender sender x \<and> rule_hits pg r x) (bd_rows db)))))"

section \<open>The handlers\<close>

record cur_request =
  cq_axis :: string
  cq_action :: string
  cq_match_type :: string
  cq_match :: string
  cq_new :: "string option"
  cq_at_ingest :: bool

datatype cur_error =
    UnknownAxis | BadAction | NoMatchValue | BadMatchType | TemplateNotRename | NoNewValue | DayRenamed | NonTextAxis
  | BadPattern | BadTemplate | IngestNotRename | IngestPattern
  | RuleNotFound | WrongAction | RuleDisabled | UnwritableAxis | CurationFailed

datatype cur_answer = ARule cur_rule | ADeleted | AEnabled bool | ARows nat

definition effective_type :: "cur_request \<Rightarrow> string" where
  "effective_type q = (if cq_match_type q = [] then ''exact'' else cq_match_type q)"

definition effective_new :: "cur_request \<Rightarrow> string option" where
  "effective_new q =
     (if cq_action q = ''rename'' \<and> effective_type q = ''template'' then map_option NormalizeTemplate (cq_new q) else cq_new q)"

definition create_refusal :: "go_regexp \<Rightarrow> pg_regexp \<Rightarrow> cur_request \<Rightarrow> cur_error option" where
  "create_refusal go pg q =
     (let ty = effective_type q; new = (case effective_new q of None \<Rightarrow> [] | Some v \<Rightarrow> v); ren = (cq_action q = ''rename'') in
      first_error
       [if cq_axis q \<notin> set exploreColumns then Some UnknownAxis else None,
        if cq_action q \<notin> set [''hide'', ''rename'', ''pin''] then Some BadAction else None,
        if cq_match q = [] then Some NoMatchValue else None,
        if ty \<notin> set [''exact'', ''regex'', ''template''] then Some BadMatchType else None,
        if ty = ''template'' \<and> \<not> ren then Some TemplateNotRename else None,
        if ren \<and> (cq_new q = None \<or> cq_new q = Some []) then Some NoNewValue else None,
        if ren \<and> cq_axis q = ''day'' then Some DayRenamed else None,
        if nonTextCurationAxis (cq_axis q) then Some NonTextAxis else None,
        if ty = ''regex'' \<and> \<not> pg_compiles pg (cq_match q) then Some BadPattern else None,
        if ty = ''template'' \<and> \<not> ValidateTemplate pg (cq_match q) new then Some BadTemplate else None,
        if cq_at_ingest q \<and> \<not> ren then Some IngestNotRename else None,
        if cq_at_ingest q \<and> \<not> ValidateIngestRenamePattern go ty (cq_match q) then Some IngestPattern else None])"

definition CreateCuration :: "go_regexp \<Rightarrow> pg_regexp \<Rightarrow> gotime \<Rightarrow> string \<Rightarrow> cur_request \<Rightarrow> cur_state \<Rightarrow> cur_state \<times> (cur_error + cur_answer)" where
  "CreateCuration go pg now owner q st =
     (case create_refusal go pg q of
        Some e \<Rightarrow> (st, Inl e)
      | None \<Rightarrow>
          (case CreateCurationRuleWithIngest now
             \<lparr>rr_sender = owner, rr_axis = cq_axis q, rr_action = cq_action q, rr_match_type = effective_type q, rr_match = cq_match q,
              rr_new_value = effective_new q, rr_enabled = True, rr_at_ingest = cq_at_ingest q\<rparr> (cs_rules st, cs_next st) of
             ((rs, n), c) \<Rightarrow>
               (st\<lparr>cs_rules := rs, cs_next := n, cs_cache := InvalidateOwnerCache (cs_cache st) owner\<rparr>, Inr (ARule c))))"

definition DeleteCuration :: "string \<Rightarrow> int \<Rightarrow> cur_state \<Rightarrow> cur_state \<times> (cur_error + cur_answer)" where
  "DeleteCuration owner i st =
     (case DeleteCurationRule (cs_rules st) owner i of (rs, n) \<Rightarrow>
        if n = 0 then (st, Inl RuleNotFound)
        else (st\<lparr>cs_rules := rs, cs_cache := InvalidateOwnerCache (cs_cache st) owner\<rparr>, Inr ADeleted))"

definition ToggleCuration :: "string \<Rightarrow> int \<Rightarrow> bool option \<Rightarrow> cur_state \<Rightarrow> cur_state \<times> (cur_error + cur_answer)" where
  "ToggleCuration owner i desired st =
     (case desired of
        Some b \<Rightarrow>
          (case SetCurationRuleEnabled (cs_rules st) owner i b of (rs, found) \<Rightarrow>
            if \<not> found then (st, Inl RuleNotFound)
            else (st\<lparr>cs_rules := rs, cs_cache := InvalidateOwnerCache (cs_cache st) owner\<rparr>, Inr (AEnabled b)))
      | None \<Rightarrow>
          (case ToggleCurationRule (cs_rules st) owner i of
             (rs, None) \<Rightarrow> (st, Inl RuleNotFound)
           | (rs, Some b) \<Rightarrow> (st\<lparr>cs_rules := rs, cs_cache := InvalidateOwnerCache (cs_cache st) owner\<rparr>, Inr (AEnabled b))))"

definition resolveCurationRule :: "cur_state \<Rightarrow> string \<Rightarrow> int \<Rightarrow> cur_rule option" where
  "resolveCurationRule st owner i =
     (case GetCurationRule (cs_rules st) i of None \<Rightarrow> None | Some r \<Rightarrow> if cu_sender r = owner then Some r else None)"

definition destructive ::
    "string \<Rightarrow> (cur_state \<Rightarrow> string \<Rightarrow> cur_rule \<Rightarrow> (cur_state \<times> nat) option) \<Rightarrow> string \<Rightarrow> int \<Rightarrow> cur_state \<Rightarrow>
     cur_state \<times> (cur_error + cur_answer)" where
  "destructive action run owner i st =
     (case resolveCurationRule st owner i of
        None \<Rightarrow> (st, Inl RuleNotFound)
      | Some c \<Rightarrow>
          if rr_action (cu_rule c) \<noteq> action then (st, Inl WrongAction)
          else if \<not> rr_enabled (cu_rule c) then (st, Inl RuleDisabled)
          else if \<not> RollupAxes (rr_axis (cu_rule c)) then (st, Inl UnwritableAxis)
          else (case run st owner c of
              None \<Rightarrow> (st, Inl CurationFailed)
            | Some (st', n) \<Rightarrow> (st'\<lparr>cs_cache := InvalidateOwnerCache (cs_cache st') owner\<rparr>, Inr (ARows n))))"

definition ApplyRename :: "pg_regexp \<Rightarrow> string \<Rightarrow> int \<Rightarrow> cur_state \<Rightarrow> cur_state \<times> (cur_error + cur_answer)" where
  "ApplyRename pg = destructive ''rename'' (ApplyRenameRule pg)"

definition PurgeHidden :: "pg_regexp \<Rightarrow> string \<Rightarrow> int \<Rightarrow> cur_state \<Rightarrow> cur_state \<times> (cur_error + cur_answer)" where
  "PurgeHidden pg = destructive ''hide'' (PurgeHiddenRule pg)"

datatype cur_op =
    OpCreate cur_request | OpDelete int | OpToggle int "bool option" | OpApply int | OpPurge int

fun curate :: "go_regexp \<Rightarrow> pg_regexp \<Rightarrow> gotime \<Rightarrow> string \<Rightarrow> cur_op \<Rightarrow> cur_state \<Rightarrow> cur_state \<times> (cur_error + cur_answer)" where
  "curate go pg now owner (OpCreate q) st = CreateCuration go pg now owner q st"
| "curate go pg now owner (OpDelete i) st = DeleteCuration owner i st"
| "curate go pg now owner (OpToggle i b) st = ToggleCuration owner i b st"
| "curate go pg now owner (OpApply i) st = ApplyRename pg owner i st"
| "curate go pg now owner (OpPurge i) st = PurgeHidden pg owner i st"

end
