(* ===== verification/CurationProps.thy ===== *)
theory CurationProps
  imports CurationModel DerivedProps
begin

text \<open>What the requests on curation rules keep, and what the destructive ones do.\<close>

section \<open>Stored rules\<close>

definition rule_valid :: "go_regexp \<Rightarrow> pg_regexp \<Rightarrow> rename_rule \<Rightarrow> bool" where
  "rule_valid go pg r \<longleftrightarrow>
     rr_axis r \<in> set exploreColumns \<and> \<not> nonTextCurationAxis (rr_axis r) \<and>
     rr_action r \<in> set [''hide'', ''rename'', ''pin''] \<and> rr_match r \<noteq> [] \<and>
     rr_match_type r \<in> set [''exact'', ''regex'', ''template''] \<and>
     (rr_match_type r = ''template'' \<longrightarrow> rr_action r = ''rename'') \<and>
     (rr_match_type r = ''regex'' \<longrightarrow> pg_compiles pg (rr_match r)) \<and>
     (rr_action r = ''rename'' \<longrightarrow> rr_new_value r \<noteq> None \<and> rr_new_value r \<noteq> Some []) \<and>
     (rr_match_type r = ''template'' \<longrightarrow> ValidateTemplate pg (rr_match r) (case rr_new_value r of None \<Rightarrow> [] | Some v \<Rightarrow> v)) \<and>
     (rr_at_ingest r \<longrightarrow> rr_action r = ''rename'' \<and> ValidateIngestRenamePattern go (rr_match_type r) (rr_match r))"

definition rules_ok :: "go_regexp \<Rightarrow> pg_regexp \<Rightarrow> cur_state \<Rightarrow> bool" where
  "rules_ok go pg st \<longleftrightarrow>
     list_all (\<lambda>c. rule_valid go pg (cu_rule c)) (cs_rules st) \<and> distinct (map (rule_key \<circ> cu_rule) (cs_rules st)) \<and>
     distinct (map cu_id (cs_rules st)) \<and> list_all (\<lambda>c. cu_id c < cs_next st) (cs_rules st)"

lemma NormalizeTemplate_Nil [simp]: "NormalizeTemplate s = [] \<longleftrightarrow> s = []"
  by (induction s rule: NormalizeTemplate.induct) auto

definition request_rule :: "string \<Rightarrow> cur_request \<Rightarrow> rename_rule" where
  "request_rule owner q = \<lparr>rr_sender = owner, rr_axis = cq_axis q, rr_action = cq_action q, rr_match_type = effective_type q,
     rr_match = cq_match q, rr_new_value = effective_new q, rr_enabled = True, rr_at_ingest = cq_at_ingest q\<rparr>"

lemma accepted_valid: "create_refusal go pg q = None \<Longrightarrow> rule_valid go pg (request_rule owner q)"
  by (auto simp: create_refusal_def Let_def first_error_None rule_valid_def request_rule_def effective_new_def split: if_splits)

lemma rule_valid_enabled [simp]: "rule_valid go pg (r\<lparr>rr_enabled := b\<rparr>) = rule_valid go pg r"
  by (simp add: rule_valid_def)

lemma set_enabled_simps [simp]:
  "cu_id (set_enabled f s i c) = cu_id c" "rule_key (cu_rule (set_enabled f s i c)) = rule_key (cu_rule c)"
  "rule_valid go pg (cu_rule (set_enabled f s i c)) = rule_valid go pg (cu_rule c)"
  "rr_sender (cu_rule (set_enabled f s i c)) = rr_sender (cu_rule c)"
  by (simp_all add: set_enabled_def rule_key_def)

text \<open>A rewriting of every rule in place that keeps its key, id and validity.\<close>

lemma rules_ok_map:
  assumes "rules_ok go pg st" "\<And>c. c \<in> set (cs_rules st) \<Longrightarrow> cu_id (f c) = cu_id c \<and> rule_key (cu_rule (f c)) = rule_key (cu_rule c) \<and>
    rule_valid go pg (cu_rule (f c))"
  shows "rules_ok go pg (st\<lparr>cs_rules := map f (cs_rules st)\<rparr>)"
proof -
  have "map (rule_key \<circ> cu_rule) (map f (cs_rules st)) = map (rule_key \<circ> cu_rule) (cs_rules st)"
    "map cu_id (map f (cs_rules st)) = map cu_id (cs_rules st)"
    using assms(2) by simp_all
  with assms show ?thesis by (simp add: rules_ok_def list_all_iff del: map_map)
qed

lemma rules_ok_filter: "rules_ok go pg st \<Longrightarrow> rules_ok go pg (st\<lparr>cs_rules := filter P (cs_rules st)\<rparr>)"
  by (simp add: rules_ok_def list_all_iff distinct_map_filter)

lemma rules_ok_other [simp]:
  "rules_ok go pg (st\<lparr>cs_cache := x\<rparr>) = rules_ok go pg st" "rules_ok go pg (st\<lparr>cs_db := d\<rparr>) = rules_ok go pg st"
  by (simp_all add: rules_ok_def)

lemma rules_ok_eq: "cs_rules a = cs_rules b \<Longrightarrow> cs_next a = cs_next b \<Longrightarrow> rules_ok go pg a = rules_ok go pg b"
  by (simp add: rules_ok_def)

section \<open>Creating\<close>

lemma insert_cases:
  assumes "CreateCurationRuleWithIngest now r (rs, n) = ((rs', n'), c)" "rr_match_type r \<noteq> []" "rr_enabled r"
  shows "(\<forall>x\<in>set rs. rule_key (cu_rule x) \<noteq> rule_key r) \<and> rs' = rs @ [c] \<and> n' = n + 1 \<and> c = \<lparr>cu_id = n, cu_rule = r, cu_created = now\<rparr> \<or>
    (\<exists>x\<in>set rs. rule_key (cu_rule x) = rule_key r \<and> cu_id c = cu_id x \<and> cu_rule c = r) \<and> n' = n \<and>
      rs' = map (\<lambda>x. if rule_key (cu_rule x) = rule_key r then c else x) rs"
proof -
  have r: "r\<lparr>rr_match_type := (if rr_match_type r = [] then ''exact'' else rr_match_type r), rr_enabled := True\<rparr> = r"
    using assms(2,3) by simp
  note c = assms(1) [unfolded CreateCurationRuleWithIngest_def r Let_def fst_conv snd_conv]
  show ?thesis
  proof (cases "find (\<lambda>c. rule_key (cu_rule c) = rule_key r) rs")
    case None
    then have "\<forall>x\<in>set rs. rule_key (cu_rule x) \<noteq> rule_key r" by (simp add: find_None_iff)
    moreover have "rs' = rs @ [c]" "n' = n + 1" "c = \<lparr>cu_id = n, cu_rule = r, cu_created = now\<rparr>"
      using c None by auto
    ultimately show ?thesis by blast
  next
    case (Some x)
    then have x: "x \<in> set rs" "rule_key (cu_rule x) = rule_key r"
      by (auto simp: find_Some_iff)
    then have e: "(cu_rule x)\<lparr>rr_new_value := rr_new_value r, rr_enabled := True, rr_at_ingest := rr_at_ingest r\<rparr> = r"
      using assms(3) by (simp add: rule_key_def)
    have "c = x\<lparr>cu_rule := r\<rparr>" "n' = n" "rs' = map (\<lambda>x. if rule_key (cu_rule x) = rule_key r then c else x) rs"
      using c Some e by auto
    with x show ?thesis by auto
  qed
qed

lemma create_rules_ok:
  assumes ok: "rules_ok go pg st" and r: "rule_valid go pg r" "rr_enabled r"
    and c: "CreateCurationRuleWithIngest now r (cs_rules st, cs_next st) = ((rs', n'), c)"
  shows "rules_ok go pg (st\<lparr>cs_rules := rs', cs_next := n'\<rparr>)"
proof -
  have "rr_match_type r \<noteq> []" using r by (auto simp: rule_valid_def)
  from insert_cases [OF c this r(2)] show ?thesis
  proof (elim disjE conjE bexE)
    assume n: "\<forall>x\<in>set (cs_rules st). rule_key (cu_rule x) \<noteq> rule_key r" "rs' = cs_rules st @ [c]" "n' = cs_next st + 1"
      "c = \<lparr>cu_id = cs_next st, cu_rule = r, cu_created = now\<rparr>"
    then have "rule_key r \<notin> set (map (rule_key \<circ> cu_rule) (cs_rules st))" "cs_next st \<notin> set (map cu_id (cs_rules st))"
      using ok by (auto simp: rules_ok_def list_all_iff)
    then show ?thesis
      using ok n r by (fastforce simp: rules_ok_def list_all_iff)
  next
    fix x assume x: "x \<in> set (cs_rules st)" "rule_key (cu_rule x) = rule_key r" "cu_id c = cu_id x" "cu_rule c = r" "n' = cs_next st"
      and rs': "rs' = map (\<lambda>x. if rule_key (cu_rule x) = rule_key r then c else x) (cs_rules st)"
    have "y = x" if "y \<in> set (cs_rules st)" "rule_key (cu_rule y) = rule_key r" for y
      using ok that x by (auto simp: rules_ok_def distinct_map inj_on_def)
    note uniq = this
    have "rules_ok go pg (st\<lparr>cs_rules := rs'\<rparr>)"
      unfolding rs'
    proof (rule rules_ok_map [OF ok])
      fix y assume y: "y \<in> set (cs_rules st)"
      show "cu_id (if rule_key (cu_rule y) = rule_key r then c else y) = cu_id y \<and>
          rule_key (cu_rule (if rule_key (cu_rule y) = rule_key r then c else y)) = rule_key (cu_rule y) \<and>
          rule_valid go pg (cu_rule (if rule_key (cu_rule y) = rule_key r then c else y))"
      proof (cases "rule_key (cu_rule y) = rule_key r")
        case True
        with uniq y have "y = x" by blast
        with True x r show ?thesis by simp
      next
        case False
        with ok y show ?thesis by (simp add: rules_ok_def list_all_iff)
      qed
    qed
    with x show ?thesis by (simp add: rules_ok_def)
  qed
qed

lemma create_others:
  assumes c: "CreateCurationRuleWithIngest now r (rs, n) = ((rs', n'), c)" and r: "rr_match_type r \<noteq> []" "rr_enabled r"
  shows "filter (\<lambda>x. cu_sender x \<noteq> rr_sender r) rs' = filter (\<lambda>x. cu_sender x \<noteq> rr_sender r) rs"
proof -
  have k: "cu_sender x = rr_sender r" if "rule_key (cu_rule x) = rule_key r" for x
    using that by (simp add: rule_key_def)
  from insert_cases [OF c r] show ?thesis
  proof (elim disjE conjE bexE)
    assume "rs' = rs @ [c]" "c = \<lparr>cu_id = n, cu_rule = r, cu_created = now\<rparr>"
    then show ?thesis by simp
  next
    fix x assume c: "cu_rule c = r" and rs': "rs' = map (\<lambda>x. if rule_key (cu_rule x) = rule_key r then c else x) rs"
    show ?thesis
      unfolding rs'
    proof (rule filter_map_same)
      fix y
      show "(if rule_key (cu_rule y) = rule_key r then c else y) = y \<or>
          \<not> cu_sender y \<noteq> rr_sender r \<and> \<not> cu_sender (if rule_key (cu_rule y) = rule_key r then c else y) \<noteq> rr_sender r"
        using k [of y] c by (cases "rule_key (cu_rule y) = rule_key r") simp_all
    qed
  qed
qed

section \<open>Destructive requests\<close>

lemma destructive_cases:
  assumes "destructive action run owner i st = (st', Inr a)"
  shows "\<exists>c st1 n. c \<in> set (cs_rules st) \<and> owned_rule owner i c \<and> rr_action (cu_rule c) = action \<and> rr_enabled (cu_rule c) \<and>
    RollupAxes (rr_axis (cu_rule c)) \<and> run st owner c = Some (st1, n) \<and> a = ARows n \<and>
    st' = st1\<lparr>cs_cache := InvalidateOwnerCache (cs_cache st1) owner\<rparr>"
proof -
  obtain c st1 n where "resolveCurationRule st owner i = Some c" "rr_action (cu_rule c) = action" "rr_enabled (cu_rule c)"
    "RollupAxes (rr_axis (cu_rule c))" "run st owner c = Some (st1, n)" "a = ARows n"
    "st' = st1\<lparr>cs_cache := InvalidateOwnerCache (cs_cache st1) owner\<rparr>"
    using assms by (auto simp: destructive_def split: option.splits if_splits)
  moreover from this(1) have "c \<in> set (cs_rules st)" "owned_rule owner i c"
    by (auto simp: resolveCurationRule_def GetCurationRule_def owned_rule_def find_Some_iff split: option.splits if_splits)
  ultimately show ?thesis by blast
qed

lemma apply_rule_effect:
  assumes "ApplyRenameRule pg st owner c = Some (st', n)"
  shows "st' = st\<lparr>cs_db := (cs_db st)\<lparr>bd_rows := map (\<lambda>x. if of_sender owner x \<and> rule_hits pg (cu_rule c) x then rewrite_beat pg (cu_rule c) x else x) (bd_rows (cs_db st))\<rparr>,
      cs_rules := filter (\<lambda>r. \<not> owned_rule owner (cu_id c) r) (cs_rules st)\<rparr>"
    and "n = length (filter (\<lambda>x. of_sender owner x \<and> rule_hits pg (cu_rule c) x) (bd_rows (cs_db st)))"
  using assms by (auto simp: ApplyRenameRule_def Let_def DeleteCurationRule_def split: if_splits)

lemma purge_rule_effect:
  assumes "PurgeHiddenRule pg st owner c = Some (st', n)"
  shows "st' = st\<lparr>cs_db := (cs_db st)\<lparr>bd_rows := filter (\<lambda>x. \<not> (of_sender owner x \<and> rule_hits pg (cu_rule c) x)) (bd_rows (cs_db st))\<rparr>,
      cs_rules := filter (\<lambda>r. \<not> owned_rule owner (cu_id c) r) (cs_rules st)\<rparr>"
    and "n = length (filter (\<lambda>x. of_sender owner x \<and> rule_hits pg (cu_rule c) x) (bd_rows (cs_db st)))"
  using assms by (auto simp: PurgeHiddenRule_def Let_def DeleteCurationRule_def split: if_splits)

lemma of_sender_rewrite [simp]: "of_sender s (rewrite_beat pg r x) = of_sender s x"
  by (simp add: of_sender_def rewrite_beat_def set_axis_def)

lemma sender_exclusive: "of_sender s x \<Longrightarrow> t \<noteq> s \<Longrightarrow> \<not> of_sender t x"
  by (simp add: of_sender_def)

end
