(* ===== verification/CurationTheorems.thy ===== *)
theory CurationTheorems
  imports CurationProps HeartbeatProps RenameProps
begin

text \<open>The theorems on the requests on curation rules.\<close>

section \<open>Whom a request touches\<close>

definition untouched :: "string \<Rightarrow> cur_state \<Rightarrow> cur_state \<Rightarrow> bool" where
  "untouched owner st st' \<longleftrightarrow>
     filter (\<lambda>c. cu_sender c \<noteq> owner) (cs_rules st') = filter (\<lambda>c. cu_sender c \<noteq> owner) (cs_rules st) \<and>
     (\<forall>s. s \<noteq> owner \<longrightarrow> sender_rows s (cs_db st') = sender_rows s (cs_db st)) \<and>
     bd_rollup (cs_db st') = bd_rollup (cs_db st) \<and> bd_projects (cs_db st') = bd_projects (cs_db st)"

lemma untouched_rules:
  "filter (\<lambda>c. cu_sender c \<noteq> owner) rs = filter (\<lambda>c. cu_sender c \<noteq> owner) (cs_rules st) \<Longrightarrow>
   untouched owner st (st\<lparr>cs_rules := rs, cs_cache := x\<rparr>)"
  "filter (\<lambda>c. cu_sender c \<noteq> owner) rs = filter (\<lambda>c. cu_sender c \<noteq> owner) (cs_rules st) \<Longrightarrow>
   untouched owner st (st\<lparr>cs_rules := rs, cs_next := n, cs_cache := x\<rparr>)"
  by (simp_all add: untouched_def)

lemma others_deleted: "filter (\<lambda>c. cu_sender c \<noteq> s) (filter (\<lambda>r. \<not> owned_rule s i r) rs) = filter (\<lambda>c. cu_sender c \<noteq> s) rs"
  by (auto simp: owned_rule_def intro: filter_cong)

lemma others_enabled: "filter (\<lambda>c. cu_sender c \<noteq> s) (map (set_enabled f s i) rs) = filter (\<lambda>c. cu_sender c \<noteq> s) rs"
  by (rule filter_map_same) (auto simp: set_enabled_def owned_rule_def)

lemma others_rewritten:
  assumes "s \<noteq> owner"
  shows "filter (of_sender s) (map (\<lambda>x. if of_sender owner x \<and> H x then rewrite_beat pg r x else x) xs) = filter (of_sender s) xs"
proof (rule filter_map_same)
  fix x
  show "(if of_sender owner x \<and> H x then rewrite_beat pg r x else x) = x \<or>
      \<not> of_sender s x \<and> \<not> of_sender s (if of_sender owner x \<and> H x then rewrite_beat pg r x else x)"
    using sender_exclusive [of owner x s] assms by (cases "of_sender owner x \<and> H x") simp_all
qed

lemma others_purged:
  assumes "s \<noteq> owner"
  shows "filter (of_sender s) (filter (\<lambda>x. \<not> (of_sender owner x \<and> H x)) xs) = filter (of_sender s) xs"
  using sender_exclusive [of owner _ s] assms by (auto intro: filter_cong)

lemma destructive_refused: "destructive action run owner i st = (st', Inl e) \<Longrightarrow> st' = st"
  by (auto simp: destructive_def split: option.splits if_splits)

lemma apply_untouched:
  assumes "destructive ''rename'' (ApplyRenameRule pg) owner i st = (st', Inr a)"
  shows "untouched owner st st' \<and> cs_cache st' = InvalidateOwnerCache (cs_cache st) owner"
proof -
  obtain c st1 n where r: "ApplyRenameRule pg st owner c = Some (st1, n)"
    and st': "st' = st1\<lparr>cs_cache := InvalidateOwnerCache (cs_cache st1) owner\<rparr>"
    using destructive_cases [OF assms] by blast
  show ?thesis
    unfolding st' apply_rule_effect(1) [OF r]
    by (simp add: untouched_def sender_rows_def others_deleted others_rewritten del: filter_filter)
qed

lemma purge_untouched:
  assumes "destructive ''hide'' (PurgeHiddenRule pg) owner i st = (st', Inr a)"
  shows "untouched owner st st' \<and> cs_cache st' = InvalidateOwnerCache (cs_cache st) owner"
proof -
  obtain c st1 n where r: "PurgeHiddenRule pg st owner c = Some (st1, n)"
    and st': "st' = st1\<lparr>cs_cache := InvalidateOwnerCache (cs_cache st1) owner\<rparr>"
    using destructive_cases [OF assms] by blast
  show ?thesis
    unfolding st' purge_rule_effect(1) [OF r]
    by (simp add: untouched_def sender_rows_def others_deleted others_purged del: filter_filter de_Morgan_conj)
qed

lemma create_answers:
  assumes "CreateCuration go pg now owner q st = (st', Inr a)"
  shows "\<exists>rs n c. create_refusal go pg q = None \<and>
    CreateCurationRuleWithIngest now (request_rule owner q) (cs_rules st, cs_next st) = ((rs, n), c) \<and> a = ARule c \<and>
    st' = st\<lparr>cs_rules := rs, cs_next := n, cs_cache := InvalidateOwnerCache (cs_cache st) owner\<rparr>"
proof (cases "create_refusal go pg q")
  case None
  obtain rs n c where r: "CreateCurationRuleWithIngest now (request_rule owner q) (cs_rules st, cs_next st) = ((rs, n), c)"
    by (metis prod.collapse)
  show ?thesis
    using assms None r by (auto simp: CreateCuration_def request_rule_def)
next
  case (Some e)
  with assms show ?thesis by (simp add: CreateCuration_def)
qed

lemma curate_error: "curate go pg now owner opn st = (st', Inl e) \<Longrightarrow> st' = st"
  by (cases opn)
    (auto simp: CreateCuration_def DeleteCuration_def ToggleCuration_def ApplyRename_def PurgeHidden_def
      split: option.splits prod.splits if_splits dest: destructive_refused)

lemma request_rule_facts [simp]:
  "rr_sender (request_rule owner q) = owner" "rr_enabled (request_rule owner q)" "rr_match_type (request_rule owner q) \<noteq> []"
  by (simp_all add: request_rule_def effective_type_def)


text \<open>The request of the example: a rename and a hide rule of one account, then both made permanent.\<close>

definition cur_start :: cur_state where
  "cur_start = \<lparr>cs_rules = [], cs_next = 1, cs_db = sample_db, cs_cache = None\<rparr>"

definition cur_request_of :: "string \<Rightarrow> string \<Rightarrow> string \<Rightarrow> string option \<Rightarrow> cur_op" where
  "cur_request_of axis action v new = OpCreate \<lparr>cq_axis = axis, cq_action = action, cq_match_type = [], cq_match = v, cq_new = new, cq_at_ingest = False\<rparr>"

definition curate_by :: "go_regexp \<Rightarrow> pg_regexp \<Rightarrow> string \<times> gotime \<times> cur_op \<Rightarrow> cur_state \<Rightarrow> cur_state" where
  "curate_by go pg x st = (case x of (owner, now, opn) \<Rightarrow> fst (curate go pg now owner opn st))"

definition hide_all :: cur_state where
  "hide_all = curate_by small_go small_pg (''ann'', 0, cur_request_of ''project'' ''hide'' ''p'' None) cur_start"


section \<open>The table stays well formed\<close>

lemma set_enabled_rules_ok: "rules_ok go pg st \<Longrightarrow> rules_ok go pg (st\<lparr>cs_rules := map (set_enabled f s i) (cs_rules st)\<rparr>)"
  by (rule rules_ok_map) (simp_all add: rules_ok_def list_all_iff)

lemma destructive_rules_ok:
  assumes "rules_ok go pg st" "destructive action run owner i st = (st', Inr a)"
    and "\<And>c st1 n. run st owner c = Some (st1, n) \<Longrightarrow> cs_rules st1 = filter (\<lambda>r. \<not> owned_rule owner (cu_id c) r) (cs_rules st) \<and> cs_next st1 = cs_next st"
  shows "rules_ok go pg st'"
proof -
  obtain c st1 n where r: "run st owner c = Some (st1, n)" and st': "st' = st1\<lparr>cs_cache := InvalidateOwnerCache (cs_cache st1) owner\<rparr>"
    using destructive_cases [OF assms(2)] by blast
  have "rules_ok go pg (st\<lparr>cs_rules := filter (\<lambda>r. \<not> owned_rule owner (cu_id c) r) (cs_rules st)\<rparr>)"
    by (rule rules_ok_filter [OF assms(1)])
  then show ?thesis
    using assms(3) [OF r] by (simp add: rules_ok_def st')
qed

lemma apply_keeps: "ApplyRenameRule pg st owner c = Some (st1, n) \<Longrightarrow>
    cs_rules st1 = filter (\<lambda>r. \<not> owned_rule owner (cu_id c) r) (cs_rules st) \<and> cs_next st1 = cs_next st"
  by (drule apply_rule_effect(1)) simp

lemma purge_keeps: "PurgeHiddenRule pg st owner c = Some (st1, n) \<Longrightarrow>
    cs_rules st1 = filter (\<lambda>r. \<not> owned_rule owner (cu_id c) r) (cs_rules st) \<and> cs_next st1 = cs_next st"
  by (drule purge_rule_effect(1)) simp

lemma toggle_cases:
  "ToggleCuration owner i b st = (st', Inr a) \<Longrightarrow>
   \<exists>f x. st' = st\<lparr>cs_rules := map (set_enabled f owner i) (cs_rules st), cs_cache := x\<rparr>"
  by (fastforce simp: ToggleCuration_def SetCurationRuleEnabled_def ToggleCurationRule_def
      split: option.splits prod.splits if_splits)

lemma curate_rules_ok:
  assumes ok: "rules_ok go pg st" and c: "curate go pg now owner opn st = (st', Inr a)"
  shows "rules_ok go pg st'"
proof (cases opn)
  case (OpCreate q)
  with c obtain rs n r where q: "create_refusal go pg q = None"
    and r: "CreateCurationRuleWithIngest now (request_rule owner q) (cs_rules st, cs_next st) = ((rs, n), r)"
    and st': "st' = st\<lparr>cs_rules := rs, cs_next := n, cs_cache := InvalidateOwnerCache (cs_cache st) owner\<rparr>"
    using create_answers [of go pg now owner q st st' a] by auto
  show ?thesis
    using create_rules_ok [OF ok accepted_valid [OF q] request_rule_facts(2) r] by (simp add: st' rules_ok_def)
next
  case (OpDelete i)
  with c have "st' = st\<lparr>cs_rules := filter (\<lambda>r. \<not> owned_rule owner i r) (cs_rules st), cs_cache := InvalidateOwnerCache (cs_cache st) owner\<rparr>"
    by (auto simp: DeleteCuration_def DeleteCurationRule_def split: if_splits)
  then show ?thesis using rules_ok_filter [OF ok, of "\<lambda>r. \<not> owned_rule owner i r"] by simp
next
  case (OpToggle i b)
  with c obtain f x where "st' = st\<lparr>cs_rules := map (set_enabled f owner i) (cs_rules st), cs_cache := x\<rparr>"
    using toggle_cases [of owner i b st st' a] by auto
  then show ?thesis using set_enabled_rules_ok [OF ok, of f owner i] by simp
next
  case (OpApply i)
  with c show ?thesis
    using destructive_rules_ok [OF ok, of "''rename''" "ApplyRenameRule pg"] apply_keeps by (simp add: ApplyRename_def)
next
  case (OpPurge i)
  with c show ?thesis
    using destructive_rules_ok [OF ok, of "''hide''" "PurgeHiddenRule pg"] purge_keeps by (simp add: PurgeHidden_def)
qed

lemma curate_by_rules_ok: "rules_ok go pg st \<Longrightarrow> rules_ok go pg (curate_by go pg x st)"
proof -
  assume ok: "rules_ok go pg st"
  obtain owner now opn where x: "x = (owner, now, opn)" by (cases x)
  show ?thesis
  proof (cases "curate go pg now owner opn st")
    case (Pair st' out)
    then show ?thesis
      using ok curate_rules_ok [OF ok, of now owner opn st'] curate_error [of go pg now owner opn st st']
      by (cases out) (auto simp: curate_by_def x)
  qed
qed

text \<open>
  C36 The rules in the table. Whatever requests were served, for whatever accounts, on a table empty at
  first: every rule has a known axis of text, a known action and match type, a pattern Postgres compiles, a
  template only on a rename and with references the pattern has; a rename has a value to write; a rule
  that acts at ingest is a rename whose pattern Go compiles too; and no two rules of an account have the
  same axis, action, match type and value.
\<close>

theorem curation_rules_wellformed:
  fixes requests :: "(string \<times> gotime \<times> cur_op) list"
  shows "rules_ok go pg (fold (curate_by go pg) requests \<lparr>cs_rules = [], cs_next = n, cs_db = db, cs_cache = cch\<rparr>)"
proof -
  have "rules_ok go pg st \<Longrightarrow> rules_ok go pg (fold (curate_by go pg) requests st)" for st
    by (induction requests arbitrary: st) (simp_all add: curate_by_rules_ok)
  moreover have "rules_ok go pg \<lparr>cs_rules = [], cs_next = n, cs_db = db, cs_cache = cch\<rparr>"
    by (simp add: rules_ok_def)
  ultimately show ?thesis by blast
qed

section \<open>Making a rule permanent\<close>

lemma owned_by_id:
  assumes "rules_ok go pg st" "c \<in> set (cs_rules st)" "owned_rule owner i c"
  shows "filter (\<lambda>r. \<not> owned_rule owner i r) (cs_rules st) = filter (\<lambda>r. cu_id r \<noteq> i) (cs_rules st)"
proof (rule filter_cong [OF refl])
  fix r assume "r \<in> set (cs_rules st)"
  then have "cu_id r = i \<Longrightarrow> r = c"
    using assms by (auto simp: rules_ok_def owned_rule_def distinct_map inj_on_def)
  then show "(\<not> owned_rule owner i r) = (cu_id r \<noteq> i)"
    using assms(3) by (auto simp: owned_rule_def)
qed

lemma set_axis_same [simp]: "set_axis axis (axis_value axis b) b = b"
  by (simp add: set_axis_def axis_value_def)

lemma set_axis_known: "axis_value axis b = v \<Longrightarrow> set_axis axis v b = b"
  by auto

lemma find_other_id: "find (\<lambda>r. cu_id r = i) (filter (\<lambda>r. cu_id r \<noteq> i) rs) = None"
  by (simp add: find_None_iff)

lemma alone_query_value:
  assumes "rule_valid go pg r" "rr_action r = ''rename''" "rr_enabled r"
  shows "remap_value pg (LoadRenameSets [r\<lparr>rr_at_ingest := False\<rparr>] (rr_sender r) (rr_axis r)) v = apply_update pg r v"
proof -
  obtain t where t: "rr_new_value r = Some t" "rr_match_type r \<in> {''exact'', ''regex'', ''template''}"
    using assms(1,2) by (auto simp: rule_valid_def)
  have "LoadRenameSets [r\<lparr>rr_at_ingest := False\<rparr>] (rr_sender r) = add_rename (\<lambda>_. no_renames) r"
    using assms(2,3) t by (simp add: LoadRenameSets_def add_rename_def Let_def)
  with query_is_update [OF t] show ?thesis by simp
qed


definition cur_template :: "string \<times> gotime \<times> cur_op" where
  "cur_template = (''ann'', 0, OpCreate \<lparr>cq_axis = ''editor'', cq_action = ''rename'', cq_match_type = ''template'', cq_match = ''^(.)'',
     cq_new = Some ''<$1>'', cq_at_ingest = False\<rparr>)"

definition with_editor :: "string \<Rightarrow> beats_db \<Rightarrow> beats_db" where
  "with_editor e db = db\<lparr>bd_rows := map (\<lambda>r. r\<lparr>h_beat := (h_beat r)\<lparr>b_editor := Some e\<rparr>\<rparr>) (bd_rows db)\<rparr>"

definition cur_renaming :: cur_state where
  "cur_renaming = curate_by small_go small_pg cur_template (cur_start\<lparr>cs_db := with_editor ''Ab'' sample_db\<rparr>)"


text \<open>
  A purge deletes exactly the beats its rule matches. Neither request recomputes derived data: after the
  purge of a whole project the rollup still has its seconds, and no rule hides them any more.
\<close>

lemma purge_deletes:
  assumes "PurgeHidden pg owner i st = (st', Inr (ARows n))"
  shows "\<exists>c\<in>set (cs_rules st). owned_rule owner i c \<and> rr_action (cu_rule c) = ''hide'' \<and> rr_enabled (cu_rule c) \<and>
    bd_rows (cs_db st') = filter (\<lambda>x. \<not> (of_sender owner x \<and> rule_hits pg (cu_rule c) x)) (bd_rows (cs_db st)) \<and>
    n = length (bd_rows (cs_db st)) - length (bd_rows (cs_db st'))"
proof -
  obtain c st1 where c: "c \<in> set (cs_rules st)" "owned_rule owner i c" "rr_action (cu_rule c) = ''hide''" "rr_enabled (cu_rule c)"
    and r: "PurgeHiddenRule pg st owner c = Some (st1, n)"
    and st': "st' = st1\<lparr>cs_cache := InvalidateOwnerCache (cs_cache st1) owner\<rparr>"
    using destructive_cases [of "''hide''" "PurgeHiddenRule pg" owner i st st' "ARows n"] assms unfolding PurgeHidden_def by blast
  have rows: "bd_rows (cs_db st') = filter (\<lambda>x. \<not> (of_sender owner x \<and> rule_hits pg (cu_rule c) x)) (bd_rows (cs_db st))"
    unfolding st' purge_rule_effect(1) [OF r] by simp
  moreover have "n = length (bd_rows (cs_db st)) - length (bd_rows (cs_db st'))"
    unfolding rows purge_rule_effect(2) [OF r]
    using sum_length_filter_compl [of "\<lambda>x. of_sender owner x \<and> rule_hits pg (cu_rule c) x" "bd_rows (cs_db st)"] by linarith
  ultimately show ?thesis using c by blast
qed

lemma purged_project_stays_in_rollup:
  "let st = fst (curate small_go small_pg 0 ''ann'' (OpPurge 1) hide_all) in
   sender_rows ''ann'' (cs_db st) = [] \<and> cs_rules st = [] \<and>
   map (\<lambda>d. (d_axes d, d_seconds d)) (sender_rollup ''ann'' (cs_db st)) =
     map (\<lambda>d. (d_axes d, d_seconds d)) (sender_rollup ''ann'' sample_db) \<and> sender_rollup ''ann'' (cs_db st) \<noteq> []"
  by code_simp

text \<open>A rename to a project without beats is refused by the key of the table of projects.\<close>

lemma rename_to_new_project_fails:
  "let st = curate_by small_go small_pg (''ann'', 0, cur_request_of ''project'' ''rename'' ''p'' (Some ''q'')) cur_start in
   snd (curate small_go small_pg 0 ''ann'' (OpApply 1) st) = Inl CurationFailed"
  by code_simp

text \<open>A rename at ingest on an axis ingest does not rewrite is accepted and acts nowhere.\<close>

lemma inert_ingest_rule:
  assumes "rr_at_ingest r" "\<not> ingestScrubbableAxis (rr_axis r)"
  shows "LoadIngestRenameRules go [r] s = []" "LoadRenameSets [r] s = (\<lambda>_. no_renames)"
  using assms by (simp_all add: LoadIngestRenameRules_def usable_def LoadRenameSets_def)

lemma inert_ingest_rule_accepted:
  "create_refusal small_go small_pg \<lparr>cq_axis = ''type'', cq_action = ''rename'', cq_match_type = [], cq_match = ''file'', cq_new = Some ''doc'', cq_at_ingest = True\<rparr> = None"
  by code_simp

end
