(* ===== verification/SpaceModel.thy ===== *)
theory SpaceModel
  imports CurationModel
begin

text \<open>
  Spaces (\<open>internal/shared/db/spaces.go\<close>, \<open>internal/boomtime/spaces/handler.go\<close>): named filters of an
  account, each a list of membership rules, and the loading of the filter a dashboard asks for
  (\<open>LoadSpace\<close> in \<open>internal/shared/apihelpers\<close>). Callers are known and ids already numbers, except the
  query parameter of \<open>LoadSpace\<close>, whose parsing is a parameter. The preview only reads.
\<close>

section \<open>The tables\<close>

record space =
  sp_id :: int
  sp_owner :: string
  sp_name :: string
  sp_position :: int

record space_rule =
  su_id :: int
  su_space :: int
  su_axis :: string
  su_value :: string
  su_type :: string

record space_state =
  ss_spaces :: "space list"
  ss_rules :: "space_rule list"
  ss_next :: int
  ss_next_rule :: int
  ss_cache :: "ttl_cache option"

definition by_position :: "space \<Rightarrow> space \<Rightarrow> bool" where
  "by_position a b \<longleftrightarrow> sp_position a < sp_position b \<or> sp_position a = sp_position b \<and> sp_id a < sp_id b"

definition by_rule_id :: "space_rule \<Rightarrow> space_rule \<Rightarrow> bool" where
  "by_rule_id a b \<longleftrightarrow> su_id a < su_id b"

definition rules_of :: "space_state \<Rightarrow> int \<Rightarrow> space_rule list" where
  "rules_of st i = slice_stable by_rule_id (filter (\<lambda>r. su_space r = i) (ss_rules st))"

definition ListSpaces :: "space_state \<Rightarrow> string \<Rightarrow> (space \<times> nat) list" where
  "ListSpaces st owner =
     map (\<lambda>s. (s, length (rules_of st (sp_id s)))) (slice_stable by_position (filter (\<lambda>s. sp_owner s = owner) (ss_spaces st)))"

definition owned_space :: "string \<Rightarrow> int \<Rightarrow> space \<Rightarrow> bool" where
  "owned_space owner i s \<longleftrightarrow> sp_id s = i \<and> sp_owner s = owner"

definition GetSpace :: "space_state \<Rightarrow> string \<Rightarrow> int \<Rightarrow> (space \<times> space_rule list) option" where
  "GetSpace st owner i = map_option (\<lambda>s. (s, rules_of st i)) (find (owned_space owner i) (ss_spaces st))"

text \<open>\<open>None\<close>: the account has a space of that name.\<close>

definition next_position :: "space_state \<Rightarrow> string \<Rightarrow> int" where
  "next_position st owner =
     (let ps = map sp_position (filter (\<lambda>s. sp_owner s = owner) (ss_spaces st)) in if ps = [] then 0 else Max (set ps) + 1)"

definition name_taken :: "space list \<Rightarrow> string \<Rightarrow> string \<Rightarrow> bool" where
  "name_taken ss owner name \<longleftrightarrow> list_ex (\<lambda>s. sp_owner s = owner \<and> sp_name s = name) ss"

definition db_CreateSpace :: "space_state \<Rightarrow> string \<Rightarrow> string \<Rightarrow> (space_state \<times> space) option" where
  "db_CreateSpace st owner name =
     (if name_taken (ss_spaces st) owner name then None
      else (let s = \<lparr>sp_id = ss_next st, sp_owner = owner, sp_name = name, sp_position = next_position st owner\<rparr>
            in Some (st\<lparr>ss_spaces := ss_spaces st @ [s], ss_next := ss_next st + 1\<rparr>, s)))"

text \<open>\<open>None\<close>: another space of the account has the new name.\<close>

definition RenameSpace :: "space_state \<Rightarrow> string \<Rightarrow> int \<Rightarrow> string option \<Rightarrow> int option \<Rightarrow> (space_state \<times> nat) option" where
  "RenameSpace st owner i name pos =
     (let f = (\<lambda>s. if owned_space owner i s
                   then s\<lparr>sp_name := (case name of None \<Rightarrow> sp_name s | Some n \<Rightarrow> n),
                          sp_position := (case pos of None \<Rightarrow> sp_position s | Some p \<Rightarrow> p)\<rparr> else s);
          hit = filter (owned_space owner i) (ss_spaces st)
      in if hit \<noteq> [] \<and> (case name of None \<Rightarrow> False | Some n \<Rightarrow> name_taken (filter (\<lambda>s. sp_id s \<noteq> i) (ss_spaces st)) owner n) then None
         else Some (st\<lparr>ss_spaces := map f (ss_spaces st)\<rparr>, length hit))"

definition db_DeleteSpace :: "space_state \<Rightarrow> string \<Rightarrow> int \<Rightarrow> space_state \<times> nat" where
  "db_DeleteSpace st owner i =
     (let hit = filter (owned_space owner i) (ss_spaces st) in
      (st\<lparr>ss_spaces := filter (\<lambda>s. \<not> owned_space owner i s) (ss_spaces st),
          ss_rules := filter (\<lambda>r. su_space r \<notin> sp_id ` set hit) (ss_rules st)\<rparr>, length hit))"

definition spaceOwned :: "space_state \<Rightarrow> string \<Rightarrow> int \<Rightarrow> bool" where
  "spaceOwned st owner i \<longleftrightarrow> list_ex (owned_space owner i) (ss_spaces st)"

datatype 'a add_result = AddError | AddMissing | Added 'a

definition db_AddSpaceRule ::
    "pg_regexp \<Rightarrow> space_state \<Rightarrow> string \<Rightarrow> int \<Rightarrow> string \<Rightarrow> string \<Rightarrow> string \<Rightarrow> space_state \<times> space_rule add_result" where
  "db_AddSpaceRule pg st owner i axis v ty0 =
     (let ty = (if ty0 = [] then ''exact'' else ty0) in
      if ty \<notin> set [''exact'', ''regex''] then (st, AddError)
      else if axis \<notin> set exploreColumns then (st, AddError)
      else if v = [] then (st, AddError)
      else if ty = ''regex'' \<and> \<not> pg_compiles pg v then (st, AddError)
      else if \<not> spaceOwned st owner i then (st, AddMissing)
      else (let r = \<lparr>su_id = ss_next_rule st, su_space = i, su_axis = axis, su_value = v, su_type = ty\<rparr>
            in (st\<lparr>ss_rules := ss_rules st @ [r], ss_next_rule := ss_next_rule st + 1\<rparr>, Added r)))"

definition db_DeleteSpaceRule :: "space_state \<Rightarrow> string \<Rightarrow> int \<Rightarrow> int \<Rightarrow> space_state \<times> nat" where
  "db_DeleteSpaceRule st owner i rid =
     (let hit = (\<lambda>r. su_id r = rid \<and> su_space r = i \<and> spaceOwned st owner (su_space r)) in
      (st\<lparr>ss_rules := filter (\<lambda>r. \<not> hit r) (ss_rules st)\<rparr>, length (filter hit (ss_rules st))))"

section \<open>The handlers\<close>

datatype space_error = NameRequired | NameTaken | NotUpdated | SpaceNotFound | UnknownSpaceAxis | ValueRequired | BadRuleType | NotAdded | SpaceRuleNotFound

datatype space_answer = ASpaces "(space \<times> nat) list" | ASpace space "space_rule list" | ASpaceRule space_rule | ADone

definition drop_cache :: "space_state \<Rightarrow> string \<Rightarrow> space_state" where
  "drop_cache st owner = st\<lparr>ss_cache := InvalidateOwnerCache (ss_cache st) owner\<rparr>"

definition CreateSpace :: "string \<Rightarrow> string \<Rightarrow> space_state \<Rightarrow> space_state \<times> (space_error + space_answer)" where
  "CreateSpace owner name st =
     (if name = [] then (st, Inl NameRequired)
      else (case db_CreateSpace st owner name of
          None \<Rightarrow> (st, Inl NameTaken)
        | Some (st', s) \<Rightarrow> (drop_cache st' owner, Inr (ASpace s []))))"

definition UpdateSpace :: "string \<Rightarrow> int \<Rightarrow> string option \<Rightarrow> int option \<Rightarrow> space_state \<Rightarrow> space_state \<times> (space_error + space_answer)" where
  "UpdateSpace owner i name pos st =
     (case RenameSpace st owner i name pos of
        None \<Rightarrow> (st, Inl NotUpdated)
      | Some (st', n) \<Rightarrow> if n = 0 then (st', Inl SpaceNotFound) else (drop_cache st' owner, Inr ADone))"

definition DeleteSpace :: "string \<Rightarrow> int \<Rightarrow> space_state \<Rightarrow> space_state \<times> (space_error + space_answer)" where
  "DeleteSpace owner i st =
     (case db_DeleteSpace st owner i of (st', n) \<Rightarrow>
        if n = 0 then (st', Inl SpaceNotFound) else (drop_cache st' owner, Inr ADone))"

definition ReadSpace :: "string \<Rightarrow> int \<Rightarrow> space_state \<Rightarrow> space_state \<times> (space_error + space_answer)" where
  "ReadSpace owner i st =
     (case GetSpace st owner i of None \<Rightarrow> (st, Inl SpaceNotFound) | Some (s, rs) \<Rightarrow> (st, Inr (ASpace s rs)))"

definition AddSpaceRule ::
    "pg_regexp \<Rightarrow> string \<Rightarrow> int \<Rightarrow> string \<Rightarrow> string \<Rightarrow> string \<Rightarrow> space_state \<Rightarrow> space_state \<times> (space_error + space_answer)" where
  "AddSpaceRule pg owner i axis v ty0 st =
     (let ty = (if ty0 = [] then ''exact'' else ty0) in
      if axis \<notin> set exploreColumns then (st, Inl UnknownSpaceAxis)
      else if v = [] then (st, Inl ValueRequired)
      else if ty \<notin> set [''exact'', ''regex''] then (st, Inl BadRuleType)
      else (case db_AddSpaceRule pg st owner i axis v ty of
          (st', AddError) \<Rightarrow> (st', Inl NotAdded)
        | (st', AddMissing) \<Rightarrow> (st', Inl SpaceNotFound)
        | (st', Added r) \<Rightarrow> (drop_cache st' owner, Inr (ASpaceRule r))))"

definition DeleteSpaceRule :: "string \<Rightarrow> int \<Rightarrow> int \<Rightarrow> space_state \<Rightarrow> space_state \<times> (space_error + space_answer)" where
  "DeleteSpaceRule owner i rid st =
     (case db_DeleteSpaceRule st owner i rid of (st', n) \<Rightarrow>
        if n = 0 then (st', Inl SpaceRuleNotFound) else (drop_cache st' owner, Inr ADone))"

datatype space_op =
    SpList | SpCreate string | SpUpdate int "string option" "int option" | SpDelete int | SpGet int
  | SpAddRule int string string string | SpDeleteRule int int

fun serve_space :: "pg_regexp \<Rightarrow> string \<Rightarrow> space_op \<Rightarrow> space_state \<Rightarrow> space_state \<times> (space_error + space_answer)" where
  "serve_space pg owner SpList st = (st, Inr (ASpaces (ListSpaces st owner)))"
| "serve_space pg owner (SpCreate name) st = CreateSpace owner name st"
| "serve_space pg owner (SpUpdate i name pos) st = UpdateSpace owner i name pos st"
| "serve_space pg owner (SpDelete i) st = DeleteSpace owner i st"
| "serve_space pg owner (SpGet i) st = ReadSpace owner i st"
| "serve_space pg owner (SpAddRule i axis v ty) st = AddSpaceRule pg owner i axis v ty st"
| "serve_space pg owner (SpDeleteRule i rid) st = DeleteSpaceRule owner i rid st"

section \<open>The filter of a dashboard\<close>

record axisMembers =
  am_exact :: "string list"
  am_regex :: "string list"

type_synonym member_sets = "(string \<times> axisMembers) list"

definition no_members :: axisMembers where
  "no_members = \<lparr>am_exact = [], am_regex = []\<rparr>"

definition members_of :: "member_sets \<Rightarrow> string \<Rightarrow> axisMembers" where
  "members_of ms axis = (case aget ms axis of None \<Rightarrow> no_members | Some a \<Rightarrow> a)"

definition add_member :: "member_sets \<Rightarrow> space_rule \<Rightarrow> member_sets" where
  "add_member ms r =
     (let a = members_of ms (su_axis r) in
      if su_axis r \<notin> set exploreColumns then ms
      else aput ms (su_axis r)
        (if su_type r = ''regex'' then a\<lparr>am_regex := am_regex a @ [su_value r]\<rparr>
         else a\<lparr>am_exact := am_exact a @ [to_lower (su_value r)]\<rparr>))"

definition LoadMemberSets :: "space_state \<Rightarrow> int \<Rightarrow> member_sets" where
  "LoadMemberSets st i = foldl add_member [] (rules_of st i)"

definition some_members :: "axisMembers \<Rightarrow> bool" where
  "some_members a \<longleftrightarrow> am_exact a \<noteq> [] \<or> am_regex a \<noteq> []"

definition AnyMember :: "member_sets \<Rightarrow> bool" where
  "AnyMember ms \<longleftrightarrow> list_ex (\<lambda>(_, a). some_members a) ms"

definition HasMemberOutside :: "member_sets \<Rightarrow> (string \<Rightarrow> bool) \<Rightarrow> bool" where
  "HasMemberOutside ms avail \<longleftrightarrow> list_ex (\<lambda>(axis, a). some_members a \<and> \<not> avail axis) ms"

text \<open>The rules and whether a space was asked for.\<close>

definition LoadSpace :: "(string \<Rightarrow> int option) \<Rightarrow> space_state \<Rightarrow> string \<Rightarrow> string \<Rightarrow> member_sets \<times> bool" where
  "LoadSpace atoi st owner param =
     (if param = [] then ([], False)
      else (case atoi param of
          None \<Rightarrow> ([], False)
        | Some i \<Rightarrow>
            if owner = [] then ([], True)
            else (case GetSpace st owner i of None \<Rightarrow> ([], True) | Some _ \<Rightarrow> (LoadMemberSets st i, True))))"

end
