(* ===== verification/SpaceProps.thy ===== *)
theory SpaceProps
  imports SpaceModel DerivedProps
begin

text \<open>A request on spaces neither changes nor shows what belongs to another account.\<close>

definition own_view :: "string \<Rightarrow> space_state \<Rightarrow> space_state" where
  "own_view owner st = st\<lparr>ss_spaces := filter (\<lambda>s. sp_owner s = owner) (ss_spaces st),
     ss_rules := filter (\<lambda>r. spaceOwned st owner (su_space r)) (ss_rules st)\<rparr>"

definition spaces_untouched :: "string \<Rightarrow> space_state \<Rightarrow> space_state \<Rightarrow> bool" where
  "spaces_untouched owner st st' \<longleftrightarrow>
     filter (\<lambda>s. sp_owner s \<noteq> owner) (ss_spaces st') = filter (\<lambda>s. sp_owner s \<noteq> owner) (ss_spaces st) \<and>
     (\<forall>i. \<not> spaceOwned st owner i \<longrightarrow> rules_of st' i = rules_of st i)"

section \<open>What is shown\<close>

lemma owned_filter: "filter (owned_space owner i) (filter (\<lambda>s. sp_owner s = owner) ss) = filter (owned_space owner i) ss"
  by (auto simp: owned_space_def intro: filter_cong)

lemma owned_find: "find (owned_space owner i) (filter (\<lambda>s. sp_owner s = owner) ss) = find (owned_space owner i) ss"
  by (induction ss) (auto simp: owned_space_def)

lemma own_view_simps [simp]:
  "ss_spaces (own_view owner st) = filter (\<lambda>s. sp_owner s = owner) (ss_spaces st)"
  "ss_next (own_view owner st) = ss_next st" "ss_next_rule (own_view owner st) = ss_next_rule st"
  "spaceOwned (own_view owner st) owner i = spaceOwned st owner i"
  by (auto simp: own_view_def spaceOwned_def list_ex_iff owned_space_def)

lemma own_rules: "spaceOwned st owner i \<Longrightarrow> rules_of (own_view owner st) i = rules_of st i"
  by (auto simp: rules_of_def own_view_def intro!: arg_cong [where f = "slice_stable by_rule_id"] filter_cong)

lemma own_name_taken: "name_taken (filter (\<lambda>s. sp_owner s = owner) ss) owner n = name_taken ss owner n"
  by (auto simp: name_taken_def list_ex_iff)

lemma own_position: "next_position (own_view owner st) owner = next_position st owner"
  by (simp add: next_position_def)

lemma own_list: "ListSpaces (own_view owner st) owner = ListSpaces st owner"
proof -
  have "rules_of (own_view owner st) (sp_id s) = rules_of st (sp_id s)"
    if "s \<in> set (slice_stable by_position (filter (\<lambda>s. sp_owner s = owner) (ss_spaces st)))" for s
    using that by (intro own_rules) (auto simp: spaceOwned_def list_ex_iff owned_space_def)
  then show ?thesis by (simp add: ListSpaces_def)
qed

lemma found_owned: "find (owned_space owner i) (ss_spaces st) = Some s \<Longrightarrow> spaceOwned st owner i"
  by (auto simp: spaceOwned_def list_ex_iff find_Some_iff)

lemma own_get: "GetSpace (own_view owner st) owner i = GetSpace st owner i"
proof (cases "find (owned_space owner i) (ss_spaces st)")
  case (Some s)
  then have "spaceOwned st owner i" by (rule found_owned)
  with Some show ?thesis by (simp add: GetSpace_def owned_find own_rules)
qed (simp add: GetSpace_def owned_find)

lemma own_create: "map_option snd (db_CreateSpace (own_view owner st) owner name) = map_option snd (db_CreateSpace st owner name)"
  by (simp add: db_CreateSpace_def own_name_taken own_position Let_def)

lemma own_rename: "map_option snd (RenameSpace (own_view owner st) owner i name pos) = map_option snd (RenameSpace st owner i name pos)"
proof -
  have "name_taken (filter (\<lambda>s. sp_id s \<noteq> i) (filter (\<lambda>s. sp_owner s = owner) ss)) owner n = name_taken (filter (\<lambda>s. sp_id s \<noteq> i) ss) owner n"
    for ss n
    by (auto simp: name_taken_def list_ex_iff)
  then show ?thesis
    by (simp add: RenameSpace_def owned_filter Let_def del: filter_filter split: option.splits)
qed

lemma own_delete: "snd (db_DeleteSpace (own_view owner st) owner i) = snd (db_DeleteSpace st owner i)"
  by (simp add: db_DeleteSpace_def owned_filter Let_def del: filter_filter)

lemma own_add: "snd (db_AddSpaceRule pg (own_view owner st) owner i axis v ty) = snd (db_AddSpaceRule pg st owner i axis v ty)"
  by (simp add: db_AddSpaceRule_def Let_def)

lemma own_delete_rule: "snd (db_DeleteSpaceRule (own_view owner st) owner i rid) = snd (db_DeleteSpaceRule st owner i rid)"
  by (auto simp: db_DeleteSpaceRule_def Let_def own_view_def spaceOwned_def owned_space_def list_ex_iff
      intro!: arg_cong [where f = length] filter_cong)

lemma own_answer: "snd (serve_space pg owner opn (own_view owner st)) = snd (serve_space pg owner opn st)"
proof (cases opn)
  case (SpCreate name)
  then show ?thesis
    using own_create [of owner st name] by (auto simp: CreateSpace_def split: option.splits)
next
  case (SpUpdate i name pos)
  then show ?thesis
    using own_rename [of owner st i name pos]
    by (cases "RenameSpace st owner i name pos"; cases "RenameSpace (own_view owner st) owner i name pos") (auto simp: UpdateSpace_def)
next
  case (SpDelete i)
  then show ?thesis
    using own_delete [of owner st i]
    by (cases "db_DeleteSpace st owner i"; cases "db_DeleteSpace (own_view owner st) owner i") (auto simp: DeleteSpace_def)
next
  case (SpAddRule i axis v ty)
  then show ?thesis
    using own_add [of pg owner st i axis v "if ty = [] then ''exact'' else ty"]
    by (cases "db_AddSpaceRule pg st owner i axis v (if ty = [] then ''exact'' else ty)";
        cases "db_AddSpaceRule pg (own_view owner st) owner i axis v (if ty = [] then ''exact'' else ty)")
      (auto simp: AddSpaceRule_def Let_def split: add_result.splits)
next
  case (SpDeleteRule i rid)
  then show ?thesis
    using own_delete_rule [of owner st i rid]
    by (cases "db_DeleteSpaceRule st owner i rid"; cases "db_DeleteSpaceRule (own_view owner st) owner i rid")
      (auto simp: DeleteSpaceRule_def)
qed (simp_all add: own_list ReadSpace_def own_get split: option.splits)

lemma own_scope: "LoadSpace atoi (own_view owner st) owner param = LoadSpace atoi st owner param"
proof -
  have "rules_of (own_view owner st) i = rules_of st i" if "GetSpace st owner i = Some x" for i x
    using that found_owned [of owner i st] by (intro own_rules) (auto simp: GetSpace_def)
  then show ?thesis
    by (auto simp: LoadSpace_def own_get LoadMemberSets_def split: option.splits)
qed

section \<open>What is changed\<close>

lemma others_kept: "filter (\<lambda>s. sp_owner s \<noteq> owner) (filter (\<lambda>s. \<not> owned_space owner i s) ss) = filter (\<lambda>s. sp_owner s \<noteq> owner) ss"
  by (auto simp: owned_space_def intro: filter_cong)

lemma no_hit_same:
  assumes "filter (owned_space owner i) ss = []"
  shows "map (\<lambda>s. if owned_space owner i s then f s else s) ss = ss"
  using assms by (intro map_idI) (auto simp: filter_empty_conv)

lemma none_hit: "filter P xs = [] \<Longrightarrow> filter (\<lambda>x. \<not> P x) xs = xs"
  by (simp add: filter_empty_conv)

lemma served_cases:
  assumes "serve_space pg owner opn st = (st', out)"
  shows "case out of Inl e \<Rightarrow> st' = st | Inr a \<Rightarrow> spaces_untouched owner st st' \<and>
    (ss_cache st' = ss_cache st \<or> ss_cache st' = InvalidateOwnerCache (ss_cache st) owner)"
proof (cases opn)
  case (SpUpdate i name pos)
  have "filter (\<lambda>s. sp_owner s \<noteq> owner) (map (\<lambda>s. if owned_space owner i s then s\<lparr>sp_name := n s, sp_position := p s\<rparr> else s) ss) =
      filter (\<lambda>s. sp_owner s \<noteq> owner) ss" for n p ss
    by (rule filter_map_same) (auto simp: owned_space_def)
  with assms SpUpdate no_hit_same [of owner i "ss_spaces st"] show ?thesis
    by (auto simp: UpdateSpace_def RenameSpace_def Let_def drop_cache_def spaces_untouched_def rules_of_def split: option.splits if_splits)
next
  case (SpDelete i)
  have "filter (\<lambda>r. su_space r = j) (filter (\<lambda>r. su_space r \<notin> sp_id ` set (filter (owned_space owner i) (ss_spaces st))) (ss_rules st)) =
      filter (\<lambda>r. su_space r = j) (ss_rules st)" if "\<not> spaceOwned st owner j" for j
    using that unfolding filter_filter by (intro filter_cong) (auto simp: spaceOwned_def list_ex_iff owned_space_def)
  note kept = this others_kept [of owner i "ss_spaces st"]
  show ?thesis
  proof (cases "filter (owned_space owner i) (ss_spaces st) = []")
    case True
    with assms SpDelete none_hit [OF True] show ?thesis
      by (simp add: DeleteSpace_def db_DeleteSpace_def) auto
  next
    case False
    with assms SpDelete kept show ?thesis
      by (auto simp: DeleteSpace_def db_DeleteSpace_def Let_def drop_cache_def spaces_untouched_def rules_of_def simp del: filter_filter)
  qed
next
  case (SpDeleteRule i rid)
  have "filter (\<lambda>r. su_space r = j) (filter (\<lambda>r. \<not> (su_id r = rid \<and> su_space r = i \<and> spaceOwned st owner (su_space r))) (ss_rules st)) =
      filter (\<lambda>r. su_space r = j) (ss_rules st)" if "\<not> spaceOwned st owner j" for j
    using that unfolding filter_filter by (intro filter_cong) auto
  with assms SpDeleteRule none_hit [of "\<lambda>r. su_id r = rid \<and> su_space r = i \<and> spaceOwned st owner (su_space r)" "ss_rules st"] show ?thesis
    by (auto simp: DeleteSpaceRule_def db_DeleteSpaceRule_def Let_def drop_cache_def spaces_untouched_def rules_of_def
        simp del: filter_filter de_Morgan_conj split: if_splits)
next
  case (SpAddRule i axis v ty)
  with assms show ?thesis
    by (auto simp: AddSpaceRule_def db_AddSpaceRule_def Let_def drop_cache_def spaces_untouched_def rules_of_def
        split: if_splits add_result.splits)
qed (use assms in \<open>auto simp: CreateSpace_def db_CreateSpace_def ReadSpace_def Let_def drop_cache_def spaces_untouched_def rules_of_def
    split: option.splits if_splits\<close>)

text \<open>
  C40 Spaces of different accounts. A refused request changes nothing; a served one leaves the spaces of
  every other account and their rules as they were. The answer, and the filter a dashboard loads for any
  value of its parameter, are those of a database that holds nothing but the spaces of the caller: a
  space of someone else cannot be told from one that does not exist.
\<close>

theorem spaces_isolated:
  "(case serve_space pg owner opn st of
      (st', Inl e) \<Rightarrow> st' = st
    | (st', Inr a) \<Rightarrow> spaces_untouched owner st st' \<and>
        (ss_cache st' = ss_cache st \<or> ss_cache st' = InvalidateOwnerCache (ss_cache st) owner)) \<and>
   snd (serve_space pg owner opn (own_view owner st)) = snd (serve_space pg owner opn st) \<and>
   LoadSpace atoi (own_view owner st) owner param = LoadSpace atoi st owner param"
proof (intro conjI own_answer own_scope)
  show "case serve_space pg owner opn st of (st', Inl e) \<Rightarrow> st' = st | (st', Inr a) \<Rightarrow> spaces_untouched owner st st' \<and>
        (ss_cache st' = ss_cache st \<or> ss_cache st' = InvalidateOwnerCache (ss_cache st) owner)"
    using served_cases [of pg owner opn st] by (auto split: prod.splits sum.splits)
qed

end
