(* ===== verification/ScopeModel.thy ===== *)
theory ScopeModel
  imports SpaceModel QueryBehaviour
begin

text \<open>
  The conditions a dashboard adds to a statement: hidden values excluded (\<open>internal/shared/db/predicates.go\<close>),
  the members of a space kept (\<open>spaces.go\<close>), both spliced in behind the range (\<open>splice.go\<close>). A
  condition is a tree over columns and numbered parameters; it has three values, as in SQL, where a
  column may be null.
\<close>

section \<open>Conditions\<close>

datatype cond =
    CLowerIn string nat
  | CLowerEq string nat
  | CMatches string nat
  | CILike string nat
  | CText string
  | CFalse
  | CAnd cond cond
  | CNot cond
  | COr "cond list"

section \<open>Hidden values\<close>

type_synonym hidden_sets = "(string \<times> string list) list"

definition Values :: "hidden_sets \<Rightarrow> string \<Rightarrow> string list" where
  "Values hs axis = (case aget hs axis of None \<Rightarrow> [] | Some vs \<Rightarrow> vs)"

definition AnyHidden :: "hidden_sets \<Rightarrow> bool" where
  "AnyHidden hs \<longleftrightarrow> list_ex (\<lambda>(_, vs). vs \<noteq> []) hs"

definition HasHiddenOutside :: "hidden_sets \<Rightarrow> (string \<Rightarrow> bool) \<Rightarrow> bool" where
  "HasHiddenOutside hs avail \<longleftrightarrow> list_ex (\<lambda>(axis, vs). vs \<noteq> [] \<and> \<not> avail axis) hs"

definition LoadHiddenSets :: "cur_rule list \<Rightarrow> string \<Rightarrow> hidden_sets" where
  "LoadHiddenSets rs sender =
     foldl (\<lambda>hs r. aput hs (rr_axis r) (Values hs (rr_axis r) @ [to_lower (rr_match r)])) []
       (filter (\<lambda>r. rr_sender r = sender \<and> rr_action r = ''hide'' \<and> rr_enabled r \<and> rr_axis r \<in> set hiddenAxes) (map cu_rule rs))"

text \<open>The columns of a query by axis; an axis it does not have is the empty string.\<close>

fun exclude_axes ::
    "hidden_sets \<Rightarrow> (string \<Rightarrow> string) \<Rightarrow> string \<Rightarrow> string list \<Rightarrow> nat \<Rightarrow> sql_arg list \<Rightarrow> cond list \<times> sql_arg list \<times> nat" where
  "exclude_axes hs cols scope [] n args = ([], args, n)"
| "exclude_axes hs cols scope (axis # rest) n args =
     (if Values hs axis = [] \<or> cols axis = [] then exclude_axes hs cols scope rest n args
      else (let c = CLowerIn (cols axis) n;
                (cs, args', n') = exclude_axes hs cols scope rest (n + 1) (args @ [Texts (Values hs axis)])
            in (CNot (if scope \<noteq> [] then CAnd (CText scope) c else c) # cs, args', n')))"

definition exclusionPredicate ::
    "hidden_sets \<Rightarrow> (string \<Rightarrow> string) \<Rightarrow> string \<Rightarrow> nat \<Rightarrow> sql_arg list \<Rightarrow> cond list \<times> sql_arg list \<times> nat" where
  "exclusionPredicate hs cols scope n args = exclude_axes hs cols scope hiddenAxes n args"

section \<open>Members of a space\<close>

definition literal_char :: "char \<Rightarrow> bool" where
  "literal_char c \<longleftrightarrow> (let k = (of_char c :: nat) in
     97 \<le> k \<and> k \<le> 122 \<or> 65 \<le> k \<and> k \<le> 90 \<or> 48 \<le> k \<and> k \<le> 57 \<or> c = CHR ''-'' \<or> c = CHR ''_'' \<or> c = CHR ''/'' \<or> c = CHR '':'')"

definition isLiteralRun :: "string \<Rightarrow> bool" where
  "isLiteralRun s \<longleftrightarrow> list_all literal_char s"

datatype regex_op = OpRegex | OpLike | OpEq

definition rewriteAnchoredRegex :: "string \<Rightarrow> regex_op \<times> string" where
  "rewriteAnchoredRegex pattern =
     (if pattern = [] \<or> hd pattern \<noteq> CHR ''^'' then (OpRegex, pattern)
      else (let body0 = tl pattern; exact = (body0 \<noteq> [] \<and> last body0 = CHR ''$''); body = (if exact then butlast body0 else body0)
            in if body = [] \<or> \<not> isLiteralRun body then (OpRegex, pattern)
               else if exact then (OpEq, body)
               else (OpLike, body @ ''%'')))"

fun regex_arms :: "string \<Rightarrow> string list \<Rightarrow> nat \<Rightarrow> sql_arg list \<Rightarrow> cond list \<times> sql_arg list \<times> nat" where
  "regex_arms col [] n args = ([], args, n)"
| "regex_arms col (p # ps) n args =
     (let (opr, bound) = rewriteAnchoredRegex p;
          (cs, args', n') = regex_arms col ps (n + 1) (args @ [OneText bound])
      in ((case opr of OpEq \<Rightarrow> CLowerEq col n | OpLike \<Rightarrow> CILike col n | OpRegex \<Rightarrow> CMatches col n) # cs, args', n'))"

definition axis_arms :: "axisMembers \<Rightarrow> string \<Rightarrow> nat \<Rightarrow> sql_arg list \<Rightarrow> cond list \<times> sql_arg list \<times> nat" where
  "axis_arms a col n args =
     (if am_exact a = [] then regex_arms col (am_regex a) n args
      else (let (cs, args', n') = regex_arms col (am_regex a) (n + 1) (args @ [Texts (am_exact a)])
            in (CLowerIn col n # cs, args', n')))"

fun member_arms :: "member_sets \<Rightarrow> (string \<Rightarrow> string) \<Rightarrow> string list \<Rightarrow> nat \<Rightarrow> sql_arg list \<Rightarrow> cond list \<times> sql_arg list \<times> nat" where
  "member_arms ms cols [] n args = ([], args, n)"
| "member_arms ms cols (axis # rest) n args =
     (if cols axis = [] \<or> \<not> some_members (members_of ms axis) then member_arms ms cols rest n args
      else (let (c1, args1, n1) = axis_arms (members_of ms axis) (cols axis) n args;
                (c2, args2, n2) = member_arms ms cols rest n1 args1
            in (c1 @ c2, args2, n2)))"

text \<open>No conjunct, or one.\<close>

definition inclusionPredicate ::
    "member_sets \<Rightarrow> (string \<Rightarrow> string) \<Rightarrow> string \<Rightarrow> nat \<Rightarrow> sql_arg list \<Rightarrow> cond list \<times> sql_arg list \<times> nat" where
  "inclusionPredicate ms cols pass n args =
     (case member_arms ms cols hiddenAxes n args of
        ([], args', n') \<Rightarrow> ([], args', n')
      | (arms, args', n') \<Rightarrow> ([COr (if pass \<noteq> [] then CText pass # arms else arms)], args', n'))"

definition spaceScopePredicate ::
    "member_sets \<Rightarrow> (string \<Rightarrow> string) \<Rightarrow> string \<Rightarrow> nat \<Rightarrow> sql_arg list \<Rightarrow> bool \<Rightarrow> cond list \<times> sql_arg list \<times> nat" where
  "spaceScopePredicate ms cols pass n args requested =
     (if \<not> requested then ([], args, n)
      else (case (if AnyMember ms then inclusionPredicate ms cols pass n args else ([], args, n)) of
          ([], args', n') \<Rightarrow> ([if pass \<noteq> [] then COr [CText pass, CFalse] else CFalse], args', n')
        | r \<Rightarrow> r))"

text \<open>
  The conjuncts spliced in behind the range of the statement. The second splice goes to the same place,
  so the space comes first in the text, with the later parameters.
\<close>

definition applyScopes ::
    "hidden_sets \<Rightarrow> member_sets \<Rightarrow> bool \<Rightarrow> (string \<Rightarrow> string) \<Rightarrow> sql_arg list \<Rightarrow> nat \<Rightarrow> cond list \<times> sql_arg list \<times> nat" where
  "applyScopes hs ms requested cols args n =
     (let (c1, args1, n1) = (if AnyHidden hs then exclusionPredicate hs cols [] n args else ([], args, n));
          (c2, args2, n2) = (if requested then spaceScopePredicate ms cols [] n1 args1 requested else ([], args1, n1))
      in (c2 @ c1, args2, n2))"

section \<open>Three values\<close>

definition sql_not :: "bool option \<Rightarrow> bool option" where
  "sql_not v = map_option (\<lambda>b. \<not> b) v"

definition sql_and :: "bool option \<Rightarrow> bool option \<Rightarrow> bool option" where
  "sql_and a b = (if a = Some False \<or> b = Some False then Some False else if a = None \<or> b = None then None else Some True)"

definition sql_or :: "bool option \<Rightarrow> bool option \<Rightarrow> bool option" where
  "sql_or a b = (if a = Some True \<or> b = Some True then Some True else if a = None \<or> b = None then None else Some False)"

text \<open>The columns of a row and the texts spliced in as they are; parameter \<open>$i\<close> is argument \<open>i\<close>.\<close>

record sql_row =
  rw_col :: "string \<Rightarrow> string option"
  rw_text :: "string \<Rightarrow> bool option"

fun cond_value :: "pg_regexp \<Rightarrow> sql_arg list \<Rightarrow> sql_row \<Rightarrow> cond \<Rightarrow> bool option" where
  "cond_value pg args r (CLowerIn col n) = map_option (\<lambda>v. to_lower v \<in> set (texts_arg args n)) (rw_col r col)"
| "cond_value pg args r (CLowerEq col n) = map_option (\<lambda>v. to_lower v = to_lower (text_arg args n)) (rw_col r col)"
| "cond_value pg args r (CMatches col n) = map_option (\<lambda>v. pg_find pg (text_arg args n) v \<noteq> None) (rw_col r col)"
| "cond_value pg args r (CILike col n) = map_option (\<lambda>v. like_match (to_lower (text_arg args n)) (to_lower v)) (rw_col r col)"
| "cond_value pg args r (CText t) = rw_text r t"
| "cond_value pg args r CFalse = Some False"
| "cond_value pg args r (CAnd a b) = sql_and (cond_value pg args r a) (cond_value pg args r b)"
| "cond_value pg args r (CNot a) = sql_not (cond_value pg args r a)"
| "cond_value pg args r (COr cs) = foldr (\<lambda>c v. sql_or (cond_value pg args r c) v) cs (Some False)"

text \<open>A row is kept where every conjunct is true.\<close>

definition kept :: "pg_regexp \<Rightarrow> sql_arg list \<Rightarrow> cond list \<Rightarrow> sql_row \<Rightarrow> bool" where
  "kept pg args cs r \<longleftrightarrow> list_all (\<lambda>c. cond_value pg args r c = Some True) cs"

end
