(* ===== verification/ActivityModel.thy ===== *)
theory ActivityModel
  imports ScopeModel DerivedData
begin

text \<open>
  The rows behind the statistics of an account (\<open>internal/shared/db/activity.go\<close>, \<open>remap.go\<close> and the two
  statements it embeds): the scan of raw beats, the read of the daily rollup, the regrouping by display
  values on top of either, and the choice between the two (\<open>internal/boomtime/stats/stats.go\<close>). The
  shares \<open>pct\<close> and \<open>daily_pct\<close>, which the statement derives from the seconds, are left out.
\<close>

section \<open>Rows\<close>

definition stat_axes :: "string list" where
  "stat_axes = [''project'', ''language'', ''editor'', ''branch'', ''platform'', ''machine'']"

text \<open>The values on the axes above and the entity, and for each axis whether every beat lacked it.\<close>

record stat_row =
  st_day :: int
  st_vals :: "string list"
  st_seconds :: int
  st_missing :: "bool list"

definition column :: "string \<Rightarrow> string" where
  "column a = (if a \<in> set axis_names then a else [])"

definition rawHeartbeatCols :: "string \<Rightarrow> string" where
  "rawHeartbeatCols = column"

definition rollupCols :: "string \<Rightarrow> string" where
  "rollupCols a = (if RollupAxes a then column a else [])"

definition raw_row :: "hb_row \<Rightarrow> sql_row" where
  "raw_row r = \<lparr>rw_col = (\<lambda>c. axis_value c (h_beat r)), rw_text = (\<lambda>_. None)\<rparr>"

definition rollup_row :: "day_row \<Rightarrow> sql_row" where
  "rollup_row d = \<lparr>rw_col = map_of (zip rollup_columns (d_axes d)), rw_text = (\<lambda>_. None)\<rparr>"

text \<open>The parameters a statement has of its own; their values do not matter to the conditions.\<close>

definition base_args :: "string \<Rightarrow> nat \<Rightarrow> sql_arg list" where
  "base_args user k = OneText user # replicate (k - 1) (OneText [])"

section \<open>The scan of beats\<close>

type_synonym scan_key = "int \<times> string option list \<times> string"

definition raw_key :: "(int \<Rightarrow> int) \<Rightarrow> hb_row \<Rightarrow> scan_key" where
  "raw_key day r = (day (h_at r), map (\<lambda>a. axis_value a (h_beat r)) stat_axes, b_entity (h_beat r))"

definition limited_gap :: "int \<Rightarrow> hb_row \<Rightarrow> int" where
  "limited_gap mins r = (case h_gap r of None \<Rightarrow> 0 | Some g \<Rightarrow> if g \<le> mins * 60 then g else 0)"

definition raw_group :: "(int \<Rightarrow> int) \<Rightarrow> int \<Rightarrow> hb_row list \<Rightarrow> scan_key \<Rightarrow> stat_row" where
  "raw_group day mins rs k =
     (case k of (d, vs, e) \<Rightarrow>
       \<lparr>st_day = d, st_vals = map or_other vs @ [e],
        st_seconds = sum_list (map (limited_gap mins) (filter (\<lambda>r. raw_key day r = k) rs)),
        st_missing = map (\<lambda>v. v = None) vs\<rparr>)"

definition raw_base ::
    "pg_regexp \<Rightarrow> zones \<Rightarrow> beats_db \<Rightarrow> string \<Rightarrow> int \<Rightarrow> int \<Rightarrow> int \<Rightarrow> string \<Rightarrow> hidden_sets \<Rightarrow> member_sets \<Rightarrow> bool \<Rightarrow>
     stat_row list \<times> sql_arg list \<times> nat" where
  "raw_base pg zs db user t0 t1 mins tz hs ms requested =
     (let (cs, args, n) = applyScopes hs ms requested rawHeartbeatCols (base_args user 5) 6;
          rs = filter (\<lambda>r. t0 \<le> h_at r \<and> h_at r \<le> t1 \<and> kept pg args cs (raw_row r)) (sender_rows user db)
      in (map (raw_group (z_day zs tz) mins rs) (remdups (map (raw_key (z_day zs tz)) rs)), args, n))"

section \<open>The read of the rollup\<close>

definition rollup_value :: "string \<Rightarrow> day_row \<Rightarrow> string" where
  "rollup_value a d = (case map_of (zip rollup_columns (d_axes d)) a of None \<Rightarrow> [] | Some v \<Rightarrow> v)"

definition rollup_missing :: "string \<Rightarrow> day_row \<Rightarrow> bool" where
  "rollup_missing a d = (case map_of (zip rollup_columns (d_missing d)) a of None \<Rightarrow> False | Some b \<Rightarrow> b)"

text \<open>The branch is a placeholder in this output, and so is the entity.\<close>

definition rollup_axes :: "day_row \<Rightarrow> string list" where
  "rollup_axes d = map (\<lambda>a. if a = ''branch'' then ''Other'' else rollup_value a d) stat_axes @ [''Other'']"

definition rollup_group :: "day_row list \<Rightarrow> int \<times> string list \<Rightarrow> stat_row" where
  "rollup_group ds k =
     (let g = filter (\<lambda>d. (d_day d, rollup_axes d) = k) ds in
      \<lparr>st_day = fst k, st_vals = snd k, st_seconds = sum_list (map d_seconds g),
       st_missing = map (\<lambda>a. if a = ''branch'' then False else list_all (rollup_missing a) g) stat_axes\<rparr>)"

text \<open>The driver sends the bounds of the range as dates: those of the instants in UTC.\<close>

definition utc_date :: "int \<Rightarrow> int" where
  "utc_date t = t div day_us"

definition rollup_base ::
    "pg_regexp \<Rightarrow> beats_db \<Rightarrow> string \<Rightarrow> int \<Rightarrow> int \<Rightarrow> hidden_sets \<Rightarrow> member_sets \<Rightarrow> bool \<Rightarrow> stat_row list \<times> sql_arg list \<times> nat" where
  "rollup_base pg db user t0 t1 hs ms requested =
     (let (cs, args, n) = applyScopes hs ms requested rollupCols (base_args user 3) 4;
          ds = filter (\<lambda>d. utc_date t0 \<le> d_day d \<and> d_day d \<le> utc_date t1 \<and> kept pg args cs (rollup_row d)) (sender_rollup user db)
      in (map (rollup_group ds) (remdups (map (\<lambda>d. (d_day d, rollup_axes d)) ds)), args, n))"

section \<open>Regrouping by display values\<close>

fun remap_exprs :: "rename_sets \<Rightarrow> string list \<Rightarrow> nat \<Rightarrow> sql_arg list \<Rightarrow> case_expr option list \<times> sql_arg list \<times> nat" where
  "remap_exprs rs [] n args = ([], args, n)"
| "remap_exprs rs (a # as) n args =
     (let (e, args1, n1) = remapExpr (rs a) [] n args;
          (es, args2, n2) = remap_exprs rs as n1 args1
      in (e # es, args2, n2))"

text \<open>The values of a row once renamed; the entity has no expression.\<close>

definition display_values :: "pg_regexp \<Rightarrow> case_expr option list \<Rightarrow> sql_arg list \<Rightarrow> stat_row \<Rightarrow> string list" where
  "display_values pg es args r = map (\<lambda>(e, v). case_value pg (\<lambda>_. True) e args v) (zip (es @ [None]) (st_vals r))"

definition variant_seconds :: "(stat_row \<Rightarrow> string) \<Rightarrow> stat_row list \<Rightarrow> string \<Rightarrow> int" where
  "variant_seconds f base v = sum_list (map st_seconds (filter (\<lambda>r. f r = v) base))"

text \<open>Of the spellings of one value the one with the most seconds, then the first in order.\<close>

definition canonicalPick :: "(stat_row \<Rightarrow> string) \<Rightarrow> stat_row list \<Rightarrow> string \<Rightarrow> string" where
  "canonicalPick f base lc =
     (let vs = filter (\<lambda>v. to_lower v = lc) (map f base); m = Max (set (map (variant_seconds f base) vs))
      in Min (set (filter (\<lambda>v. variant_seconds f base v = m) vs)))"

definition display_key :: "(stat_row \<Rightarrow> string list) \<Rightarrow> stat_row list \<Rightarrow> stat_row \<Rightarrow> int \<times> string list" where
  "display_key disp base r =
     (st_day r, map (\<lambda>i. canonicalPick (\<lambda>x. disp x ! i) base (to_lower (disp r ! i))) [0..<Suc (length stat_axes)])"

definition regroup_group :: "(stat_row \<Rightarrow> int \<times> string list) \<Rightarrow> stat_row list \<Rightarrow> int \<times> string list \<Rightarrow> stat_row" where
  "regroup_group key base k =
     (let g = filter (\<lambda>r. key r = k) base in
      \<lparr>st_day = fst k, st_vals = snd k, st_seconds = sum_list (map st_seconds g),
       st_missing = map (\<lambda>i. list_all (\<lambda>r. st_missing r ! i) g) [0..<length stat_axes]\<rparr>)"

definition regroupStatRows :: "pg_regexp \<Rightarrow> rename_sets \<Rightarrow> stat_row list \<times> sql_arg list \<times> nat \<Rightarrow> stat_row list" where
  "regroupStatRows pg rs q =
     (case q of (base, args, n) \<Rightarrow>
       (case remap_exprs rs stat_axes n args of (es, args', _) \<Rightarrow>
         let key = display_key (display_values pg es args') base
         in map (regroup_group key base) (remdups (map key base))))"

definition GetUserActivity ::
    "pg_regexp \<Rightarrow> zones \<Rightarrow> beats_db \<Rightarrow> string \<Rightarrow> int \<Rightarrow> int \<Rightarrow> int \<Rightarrow> string \<Rightarrow> hidden_sets \<Rightarrow> rename_sets \<Rightarrow> member_sets \<Rightarrow> bool \<Rightarrow>
     stat_row list" where
  "GetUserActivity pg zs db user t0 t1 mins tz hs rs ms requested =
     regroupStatRows pg rs (raw_base pg zs db user t0 t1 mins tz hs ms requested)"

definition GetUserActivityRollup ::
    "pg_regexp \<Rightarrow> beats_db \<Rightarrow> string \<Rightarrow> int \<Rightarrow> int \<Rightarrow> hidden_sets \<Rightarrow> rename_sets \<Rightarrow> member_sets \<Rightarrow> bool \<Rightarrow> stat_row list" where
  "GetUserActivityRollup pg db user t0 t1 hs rs ms requested =
     regroupStatRows pg rs (rollup_base pg db user t0 t1 hs ms requested)"

section \<open>The endpoint\<close>

definition ResolveTimezone :: "string \<Rightarrow> string \<Rightarrow> string" where
  "ResolveTimezone userTZ defaultTZ = (if userTZ \<noteq> [] then userTZ else if defaultTZ \<noteq> [] then defaultTZ else ''UTC'')"

definition maxDashboardSpan :: int where
  "maxDashboardSpan = 25 * 365 * day_us"

definition clamp_span :: "int \<Rightarrow> int \<Rightarrow> int" where
  "clamp_span t0 t1 = (if t1 - t0 > maxDashboardSpan then t1 - maxDashboardSpan else t0)"

definition stats_rows ::
    "pg_regexp \<Rightarrow> zones \<Rightarrow> beats_db \<Rightarrow> string \<Rightarrow> int \<Rightarrow> int \<Rightarrow> int \<Rightarrow> string \<Rightarrow> hidden_sets \<Rightarrow> rename_sets \<Rightarrow> member_sets \<Rightarrow> bool \<Rightarrow>
     stat_row list" where
  "stats_rows pg zs db user t0 t1 mins tz hs rs ms requested =
     (if mins = 15 \<and> \<not> HasHiddenOutside hs RollupAxes \<and> (\<not> requested \<or> \<not> HasMemberOutside ms RollupAxes)
      then GetUserActivityRollup pg db user t0 t1 hs rs ms requested
      else GetUserActivity pg zs db user t0 t1 mins tz hs rs ms requested)"

end
