(* ===== verification/ScopeProps.thy ===== *)
theory ScopeProps
  imports ScopeModel RenameProps
begin

text \<open>What the conditions spliced into a statement keep, whatever parameters come before and after theirs.\<close>

section \<open>Truth of conditions\<close>

lemma or_true: "cond_value pg args r (COr cs) = Some True \<longleftrightarrow> (\<exists>c\<in>set cs. cond_value pg args r c = Some True)"
  by (induction cs) (auto simp: sql_or_def)

lemma kept_append: "kept pg args (xs @ ys) r \<longleftrightarrow> kept pg args xs r \<and> kept pg args ys r"
  by (simp add: kept_def)

definition shown_on :: "hidden_sets \<Rightarrow> (string \<Rightarrow> string) \<Rightarrow> string \<Rightarrow> sql_row \<Rightarrow> string \<Rightarrow> bool" where
  "shown_on hs cols scope r axis \<longleftrightarrow> Values hs axis = [] \<or> cols axis = [] \<or> scope \<noteq> [] \<and> rw_text r scope = Some False \<or>
     (\<exists>v. rw_col r (cols axis) = Some v \<and> to_lower v \<notin> set (Values hs axis))"

lemma exclude_axes_value:
  "\<exists>cs new. exclude_axes hs cols scope axs (Suc (length args)) args = (cs, args @ new, Suc (length (args @ new))) \<and>
     (\<forall>after. kept pg ((args @ new) @ after) cs r \<longleftrightarrow> (\<forall>axis\<in>set axs. shown_on hs cols scope r axis))"
proof (induction axs arbitrary: args)
  case (Cons axis rest)
  show ?case
  proof (cases "Values hs axis = [] \<or> cols axis = []")
    case True
    then have "shown_on hs cols scope r axis" by (auto simp: shown_on_def)
    with True Cons.IH [of args] show ?thesis by auto
  next
    case False
    let ?a = "Texts (Values hs axis)"
    obtain cs new where IH: "exclude_axes hs cols scope rest (Suc (length (args @ [?a]))) (args @ [?a]) =
        (cs, (args @ [?a]) @ new, Suc (length ((args @ [?a]) @ new)))"
      "\<And>after. kept pg (((args @ [?a]) @ new) @ after) cs r \<longleftrightarrow> (\<forall>axis\<in>set rest. shown_on hs cols scope r axis)"
      using Cons.IH [of "args @ [?a]"] by blast
    let ?c = "CLowerIn (cols axis) (Suc (length args))"
    let ?d = "CNot (if scope \<noteq> [] then CAnd (CText scope) ?c else ?c)"
    have "texts_arg ((args @ ?a # new) @ after) (Suc (length args)) = Values hs axis" for after
      using arg_at(2) [of args "Values hs axis" "new @ after"] by simp
    then have "cond_value pg ((args @ ?a # new) @ after) r ?d = Some True \<longleftrightarrow> shown_on hs cols scope r axis" for after
      using False by (auto simp: shown_on_def sql_not_def sql_and_def)
    then have "kept pg ((args @ ?a # new) @ after) (?d # cs) r \<longleftrightarrow> (\<forall>axis\<in>set (axis # rest). shown_on hs cols scope r axis)" for after
      using IH(2) [of after] by (simp add: kept_def)
    moreover have "exclude_axes hs cols scope (axis # rest) (Suc (length args)) args =
        (?d # cs, args @ ?a # new, Suc (length (args @ ?a # new)))"
      using False IH(1) by simp
    ultimately show ?thesis by blast
  qed
qed (simp add: kept_def)

section \<open>Arms of a space\<close>

definition arm_true :: "pg_regexp \<Rightarrow> string \<Rightarrow> string \<Rightarrow> bool" where
  "arm_true pg p v =
     (case rewriteAnchoredRegex p of
        (OpRegex, b) \<Rightarrow> pg_find pg b v \<noteq> None
      | (OpLike, b) \<Rightarrow> like_match (to_lower b) (to_lower v)
      | (OpEq, b) \<Rightarrow> to_lower v = to_lower b)"

definition some_true :: "pg_regexp \<Rightarrow> sql_arg list \<Rightarrow> sql_row \<Rightarrow> cond list \<Rightarrow> bool" where
  "some_true pg args r cs \<longleftrightarrow> (\<exists>c\<in>set cs. cond_value pg args r c = Some True)"

lemma some_true_simps [simp]:
  "some_true pg args r [] = False"
  "some_true pg args r (c # cs) \<longleftrightarrow> cond_value pg args r c = Some True \<or> some_true pg args r cs"
  "some_true pg args r (cs @ ds) \<longleftrightarrow> some_true pg args r cs \<or> some_true pg args r ds"
  by (auto simp: some_true_def)

lemma regex_arms_value:
  "\<exists>cs new. regex_arms col ps (Suc (length args)) args = (cs, args @ new, Suc (length (args @ new))) \<and> length cs = length ps \<and>
     (\<forall>after. some_true pg ((args @ new) @ after) r cs \<longleftrightarrow> (\<exists>p\<in>set ps. \<exists>v. rw_col r col = Some v \<and> arm_true pg p v))"
proof (induction ps arbitrary: args)
  case (Cons p ps)
  obtain opr b where b: "rewriteAnchoredRegex p = (opr, b)" by force
  obtain cs new where IH: "regex_arms col ps (Suc (length (args @ [OneText b]))) (args @ [OneText b]) =
      (cs, (args @ [OneText b]) @ new, Suc (length ((args @ [OneText b]) @ new)))" "length cs = length ps"
    "\<And>after. some_true pg (((args @ [OneText b]) @ new) @ after) r cs \<longleftrightarrow> (\<exists>p\<in>set ps. \<exists>v. rw_col r col = Some v \<and> arm_true pg p v)"
    using Cons.IH [of "args @ [OneText b]"] by blast
  let ?c = "case opr of OpEq \<Rightarrow> CLowerEq col (Suc (length args)) | OpLike \<Rightarrow> CILike col (Suc (length args)) | OpRegex \<Rightarrow> CMatches col (Suc (length args))"
  have "text_arg ((args @ OneText b # new) @ after) (Suc (length args)) = b" for after
    using arg_at(1) [of args b "new @ after"] by simp
  then have "cond_value pg ((args @ OneText b # new) @ after) r ?c = Some True \<longleftrightarrow> (\<exists>v. rw_col r col = Some v \<and> arm_true pg p v)" for after
    by (cases opr) (auto simp: arm_true_def b)
  then have "some_true pg ((args @ OneText b # new) @ after) r (?c # cs) \<longleftrightarrow>
      (\<exists>p\<in>set (p # ps). \<exists>v. rw_col r col = Some v \<and> arm_true pg p v)" for after
    using IH(3) [of after] by auto
  moreover have "regex_arms col (p # ps) (Suc (length args)) args = (?c # cs, args @ OneText b # new, Suc (length (args @ OneText b # new)))"
    using b IH(1) by simp
  ultimately show ?case using IH(2) by (metis length_Cons)
qed simp

definition axis_matches_member :: "pg_regexp \<Rightarrow> axisMembers \<Rightarrow> string option \<Rightarrow> bool" where
  "axis_matches_member pg a v =
     (case v of None \<Rightarrow> False | Some s \<Rightarrow> to_lower s \<in> set (am_exact a) \<or> (\<exists>p\<in>set (am_regex a). arm_true pg p s))"

lemma axis_arms_value:
  assumes "some_members a"
  shows "\<exists>cs new. axis_arms a col (Suc (length args)) args = (cs, args @ new, Suc (length (args @ new))) \<and> cs \<noteq> [] \<and>
     (\<forall>after. some_true pg ((args @ new) @ after) r cs \<longleftrightarrow> axis_matches_member pg a (rw_col r col))"
proof (cases "am_exact a = []")
  case True
  with assms have "am_regex a \<noteq> []" by (simp add: some_members_def)
  with True regex_arms_value [of col "am_regex a" args pg r] show ?thesis
    by (auto simp: axis_arms_def axis_matches_member_def split: option.splits)
next
  case False
  let ?a = "Texts (am_exact a)"
  obtain cs new where IH: "regex_arms col (am_regex a) (Suc (length (args @ [?a]))) (args @ [?a]) =
      (cs, (args @ [?a]) @ new, Suc (length ((args @ [?a]) @ new)))"
    "\<And>after. some_true pg (((args @ [?a]) @ new) @ after) r cs \<longleftrightarrow> (\<exists>p\<in>set (am_regex a). \<exists>v. rw_col r col = Some v \<and> arm_true pg p v)"
    using regex_arms_value [of col "am_regex a" "args @ [?a]" pg r] by blast
  have "texts_arg ((args @ ?a # new) @ after) (Suc (length args)) = am_exact a" for after
    using arg_at(2) [of args "am_exact a" "new @ after"] by simp
  then have "some_true pg ((args @ ?a # new) @ after) r (CLowerIn col (Suc (length args)) # cs) \<longleftrightarrow>
      axis_matches_member pg a (rw_col r col)" for after
    using IH(2) [of after] by (auto simp: axis_matches_member_def split: option.splits)
  moreover have "axis_arms a col (Suc (length args)) args =
      (CLowerIn col (Suc (length args)) # cs, args @ ?a # new, Suc (length (args @ ?a # new)))"
    using False IH(1) by (simp add: axis_arms_def)
  ultimately show ?thesis by blast
qed

definition matched_on :: "pg_regexp \<Rightarrow> member_sets \<Rightarrow> (string \<Rightarrow> string) \<Rightarrow> sql_row \<Rightarrow> string \<Rightarrow> bool" where
  "matched_on pg ms cols r axis \<longleftrightarrow> cols axis \<noteq> [] \<and> axis_matches_member pg (members_of ms axis) (rw_col r (cols axis))"

lemma member_arms_value:
  "\<exists>cs new. member_arms ms cols axs (Suc (length args)) args = (cs, args @ new, Suc (length (args @ new))) \<and>
     (\<forall>after. some_true pg ((args @ new) @ after) r cs \<longleftrightarrow> (\<exists>axis\<in>set axs. matched_on pg ms cols r axis))"
proof (induction axs arbitrary: args)
  case (Cons axis rest)
  show ?case
  proof (cases "cols axis = [] \<or> \<not> some_members (members_of ms axis)")
    case True
    then have "\<not> matched_on pg ms cols r axis"
      by (auto simp: matched_on_def axis_matches_member_def some_members_def split: option.splits)
    with True Cons.IH [of args] show ?thesis by auto
  next
    case False
    then obtain c1 n1 where 1: "axis_arms (members_of ms axis) (cols axis) (Suc (length args)) args = (c1, args @ n1, Suc (length (args @ n1)))"
      "\<And>after. some_true pg ((args @ n1) @ after) r c1 \<longleftrightarrow> matched_on pg ms cols r axis"
      using axis_arms_value [of "members_of ms axis" "cols axis" args pg r] by (auto simp: matched_on_def)
    obtain c2 n2 where 2: "member_arms ms cols rest (Suc (length (args @ n1))) (args @ n1) = (c2, (args @ n1) @ n2, Suc (length ((args @ n1) @ n2)))"
      "\<And>after. some_true pg (((args @ n1) @ n2) @ after) r c2 \<longleftrightarrow> (\<exists>axis\<in>set rest. matched_on pg ms cols r axis)"
      using Cons.IH [of "args @ n1"] by blast
    have "member_arms ms cols (axis # rest) (Suc (length args)) args = (c1 @ c2, args @ n1 @ n2, Suc (length (args @ n1 @ n2)))"
      using False 1(1) 2(1) by simp
    moreover have "some_true pg ((args @ n1 @ n2) @ after) r (c1 @ c2) \<longleftrightarrow> (\<exists>axis\<in>set (axis # rest). matched_on pg ms cols r axis)" for after
      using 1(2) [of "n2 @ after"] 2(2) [of after] by simp
    ultimately show ?thesis by blast
  qed
qed simp

section \<open>Anchored literals\<close>

text \<open>
  What the engine has to do with an anchored run of letters, digits and the few separators: match the
  prefix, or the whole text, without regard to case.
\<close>

definition reads_literals :: "pg_regexp \<Rightarrow> bool" where
  "reads_literals pg \<longleftrightarrow> (\<forall>s v. s \<noteq> [] \<and> isLiteralRun s \<longrightarrow>
     (pg_find pg (CHR ''^'' # s) v \<noteq> None \<longleftrightarrow> take (length s) (to_lower v) = to_lower s) \<and>
     (pg_find pg (CHR ''^'' # s @ ''$'') v \<noteq> None \<longleftrightarrow> to_lower v = to_lower s))"

definition plain_char :: "char \<Rightarrow> bool" where
  "plain_char c \<longleftrightarrow> c \<noteq> CHR ''%'' \<and> c \<noteq> bslash \<and> c \<noteq> CHR ''_''"

lemma like_prefix: "list_all plain_char p \<Longrightarrow> like_match (p @ ''%'') v \<longleftrightarrow> take (length p) v = p"
proof (induction p arbitrary: v)
  case Nil
  have "like_match ''%'' v \<longleftrightarrow> (\<exists>u w. v = u @ w \<and> like_match [] w)"
    by (rule like_match_pct)
  then show ?case by simp
next
  case (Cons c p)
  then show ?case by (cases v) (auto simp: plain_char_def)
qed

lemma char_of_nat_95: "char_of (95 :: nat) = CHR ''_''"
  by code_simp

lemma lower_plain:
  assumes "literal_char c" "c \<noteq> CHR ''_''"
  shows "plain_char (lower_char c)"
proof -
  have u: "(of_char c :: nat) \<noteq> 95"
    using assms(2) char_of_nat_95 by (metis char_of_char)
  have "lower_char c \<noteq> d" if d: "(of_char d :: nat) \<in> {37, 92, 95}" for d
  proof
    assume "lower_char c = d"
    then have "(of_char d :: nat) = (if 65 \<le> (of_char c :: nat) \<and> (of_char c :: nat) \<le> 90 then of_char c + 32 else of_char c)"
      by (auto simp: lower_char_def)
    with d u assms(1) show False
      by (auto simp: literal_char_def Let_def split: if_splits)
  qed
  then show ?thesis by (simp add: plain_char_def bslash_def)
qed

text \<open>The rewritten operator reads the pattern as the engine does, unless the text has an underscore.\<close>

definition rewrite_exact :: "string \<Rightarrow> bool" where
  "rewrite_exact p \<longleftrightarrow> fst (rewriteAnchoredRegex p) = OpLike \<longrightarrow> CHR ''_'' \<notin> set p"

lemma rewrite_cases:
  "rewriteAnchoredRegex p = (OpRegex, p) \<or>
   (\<exists>s. p = CHR ''^'' # s \<and> s \<noteq> [] \<and> isLiteralRun s \<and> rewriteAnchoredRegex p = (OpLike, s @ ''%'')) \<or>
   (\<exists>s. p = CHR ''^'' # s @ ''$'' \<and> s \<noteq> [] \<and> isLiteralRun s \<and> rewriteAnchoredRegex p = (OpEq, s))"
proof (cases "p \<noteq> [] \<and> hd p = CHR ''^''")
  case True
  then obtain b where p: "p = CHR ''^'' # b" by (cases p) auto
  show ?thesis
  proof (cases "b \<noteq> [] \<and> last b = CHR ''$''")
    case exact: True
    then obtain s where b: "b = s @ ''$''" by (metis append_butlast_last_id)
    then have "rewriteAnchoredRegex p = (if s = [] \<or> \<not> isLiteralRun s then (OpRegex, p) else (OpEq, s))"
      unfolding p b by (simp add: rewriteAnchoredRegex_def Let_def)
    then show ?thesis unfolding p b by simp
  next
    case False
    then have "rewriteAnchoredRegex p = (if b = [] \<or> \<not> isLiteralRun b then (OpRegex, p) else (OpLike, b @ ''%''))"
      unfolding p by (auto simp: rewriteAnchoredRegex_def Let_def)
    then show ?thesis unfolding p by simp
  qed
qed (auto simp: rewriteAnchoredRegex_def)

lemma arm_is_pattern:
  assumes pg: "reads_literals pg" and p: "rewrite_exact p"
  shows "arm_true pg p v \<longleftrightarrow> pg_find pg p v \<noteq> None"
  using rewrite_cases [of p]
proof (elim disjE exE conjE)
  fix s assume s: "p = CHR ''^'' # s" "s \<noteq> []" "isLiteralRun s" "rewriteAnchoredRegex p = (OpLike, s @ ''%'')"
  have "CHR ''_'' \<notin> set s"
    using p s(4) unfolding rewrite_exact_def s(1) by simp
  then have "plain_char (lower_char c)" if "c \<in> set s" for c
    using s(3) that by (intro lower_plain) (auto simp: isLiteralRun_def list_all_iff)
  then have "list_all plain_char (to_lower s)"
    by (simp add: list_all_iff to_lower_def)
  from like_prefix [OF this] have "like_match (to_lower (s @ ''%'')) (to_lower v) \<longleftrightarrow> take (length s) (to_lower v) = to_lower s"
    by (simp add: to_lower_def lower_char_def)
  with pg s show ?thesis by (simp add: arm_true_def reads_literals_def)
next
  fix s assume "p = CHR ''^'' # s @ ''$''" "s \<noteq> []" "isLiteralRun s" "rewriteAnchoredRegex p = (OpEq, s)"
  with pg show ?thesis by (simp add: arm_true_def reads_literals_def)
qed (simp add: arm_true_def)

lemma underscore_matches_any: "arm_true pg ''^my_proj'' ''myXproject''"
proof -
  have "rewriteAnchoredRegex ''^my_proj'' = (OpLike, ''my_proj%'')" by code_simp
  moreover have "like_match (to_lower ''my_proj%'') (to_lower ''myXproject'')" by code_simp
  ultimately show ?thesis by (simp add: arm_true_def)
qed

section \<open>The theorem\<close>

lemma no_hidden: "\<not> AnyHidden hs \<Longrightarrow> Values hs axis = []"
  by (auto simp: AnyHidden_def Values_def list_ex_iff split: option.splits dest: aget_SomeD)

lemma no_member: "\<not> AnyMember ms \<Longrightarrow> \<not> some_members (members_of ms axis)"
  by (cases "aget ms axis") (auto simp: AnyMember_def members_of_def no_members_def some_members_def list_ex_iff dest!: aget_SomeD)

lemma matched_some: "matched_on pg ms cols r axis \<Longrightarrow> some_members (members_of ms axis)"
  by (auto simp: matched_on_def axis_matches_member_def some_members_def split: option.splits)

lemma hidden_value:
  "\<exists>cs new. (if AnyHidden hs then exclusionPredicate hs cols [] (Suc (length args)) args else ([], args, Suc (length args))) =
      (cs, args @ new, Suc (length (args @ new))) \<and>
    (\<forall>after. kept pg ((args @ new) @ after) cs r \<longleftrightarrow> (\<forall>axis\<in>set hiddenAxes. shown_on hs cols [] r axis))"
proof (cases "AnyHidden hs")
  case True
  then show ?thesis
    using exclude_axes_value [of hs cols "[]" hiddenAxes args pg r] by (simp add: exclusionPredicate_def)
next
  case False
  then show ?thesis using no_hidden [of hs] by (auto simp: kept_def shown_on_def)
qed

lemma space_value:
  "\<exists>cs new. (if requested then spaceScopePredicate ms cols [] (Suc (length args)) args requested else ([], args, Suc (length args))) =
      (cs, args @ new, Suc (length (args @ new))) \<and>
    (\<forall>after. kept pg ((args @ new) @ after) cs r \<longleftrightarrow> (requested \<longrightarrow> (\<exists>axis\<in>set hiddenAxes. matched_on pg ms cols r axis)))"
proof (cases "requested \<and> AnyMember ms")
  case True
  obtain cs new where v: "member_arms ms cols hiddenAxes (Suc (length args)) args = (cs, args @ new, Suc (length (args @ new)))"
    "\<And>after. some_true pg ((args @ new) @ after) r cs \<longleftrightarrow> (\<exists>axis\<in>set hiddenAxes. matched_on pg ms cols r axis)"
    using member_arms_value [of ms cols hiddenAxes args pg r] by blast
  have "spaceScopePredicate ms cols [] (Suc (length args)) args True =
      (if cs = [] then [CFalse] else [COr cs], args @ new, Suc (length (args @ new)))"
    using True v(1) by (cases cs) (simp_all add: spaceScopePredicate_def inclusionPredicate_def)
  moreover have "kept pg ((args @ new) @ after) (if cs = [] then [CFalse] else [COr cs]) r \<longleftrightarrow> (\<exists>axis\<in>set hiddenAxes. matched_on pg ms cols r axis)" for after
    using v(2) [of after] by (auto simp: kept_def or_true some_true_def simp del: cond_value.simps(9))
  ultimately show ?thesis using True by auto
next
  case False
  then show ?thesis
    using no_member [of ms] matched_some [of pg ms cols r] by (auto simp: spaceScopePredicate_def kept_def)
qed

lemma applyScopes_value:
  assumes "applyScopes hs ms requested cols args (Suc (length args)) = (cs, args', n')"
  shows "\<exists>new. args' = args @ new" "n' = Suc (length args')"
    "kept pg (args' @ after) cs r \<longleftrightarrow> (\<forall>axis\<in>set hiddenAxes. shown_on hs cols [] r axis) \<and>
       (requested \<longrightarrow> (\<exists>axis\<in>set hiddenAxes. matched_on pg ms cols r axis))"
proof -
  obtain c1 a1 where 1: "(if AnyHidden hs then exclusionPredicate hs cols [] (Suc (length args)) args else ([], args, Suc (length args))) =
      (c1, args @ a1, Suc (length (args @ a1)))"
    "\<And>after. kept pg ((args @ a1) @ after) c1 r \<longleftrightarrow> (\<forall>axis\<in>set hiddenAxes. shown_on hs cols [] r axis)"
    using hidden_value [of hs cols args pg r] by blast
  obtain c2 a2 where 2: "(if requested then spaceScopePredicate ms cols [] (Suc (length (args @ a1))) (args @ a1) requested
        else ([], args @ a1, Suc (length (args @ a1)))) = (c2, (args @ a1) @ a2, Suc (length ((args @ a1) @ a2)))"
    "\<And>after. kept pg (((args @ a1) @ a2) @ after) c2 r \<longleftrightarrow> (requested \<longrightarrow> (\<exists>axis\<in>set hiddenAxes. matched_on pg ms cols r axis))"
    using space_value [of requested ms cols "args @ a1" pg r] by blast
  have res: "cs = c2 @ c1" "args' = (args @ a1) @ a2" "n' = Suc (length args')"
    using assms(1) unfolding applyScopes_def 1(1) Let_def prod.case 2(1) by auto
  show "\<exists>new. args' = args @ new" "n' = Suc (length args')"
    using res by auto
  show "kept pg (args' @ after) cs r \<longleftrightarrow> (\<forall>axis\<in>set hiddenAxes. shown_on hs cols [] r axis) \<and>
       (requested \<longrightarrow> (\<exists>axis\<in>set hiddenAxes. matched_on pg ms cols r axis))"
    using 1(2) [of "a2 @ after"] 2(2) [of after] by (auto simp: res(1,2) kept_append)
qed

definition visible :: "pg_regexp \<Rightarrow> hidden_sets \<Rightarrow> member_sets \<Rightarrow> bool \<Rightarrow> (string \<Rightarrow> string option) \<Rightarrow> bool" where
  "visible pg hs ms requested val \<longleftrightarrow>
     list_all (\<lambda>axis. Values hs axis \<noteq> [] \<longrightarrow> (case val axis of None \<Rightarrow> False | Some v \<Rightarrow> to_lower v \<notin> set (Values hs axis))) hiddenAxes \<and>
     (requested \<longrightarrow> list_ex (\<lambda>axis. case val axis of None \<Rightarrow> False | Some v \<Rightarrow>
        to_lower v \<in> set (am_exact (members_of ms axis)) \<or> list_ex (\<lambda>p. pg_find pg p v \<noteq> None) (am_regex (members_of ms axis))) hiddenAxes)"


text \<open>An engine that knows anchored literals only, and a space of one pattern beside a hidden language.\<close>

definition found :: re_match where
  "found = \<lparr>m_start = 0, m_end = 0, m_groups = []\<rparr>"

definition literal_pg :: pg_regexp where
  "literal_pg = \<lparr>pg_compiles = (\<lambda>_. True), pg_array_length = (\<lambda>_. None),
     pg_find = (\<lambda>p v. if p = [] \<or> hd p \<noteq> CHR ''^'' then None
       else if tl p \<noteq> [] \<and> last p = CHR ''$'' then (if to_lower v = to_lower (butlast (tl p)) then Some found else None)
       else (if take (length (tl p)) (to_lower v) = to_lower (tl p) then Some found else None)),
     pg_expand = (\<lambda>_ t. t)\<rparr>"

lemma literal_pg_reads: "reads_literals literal_pg"
proof -
  have "last s \<noteq> CHR ''$''" if "s \<noteq> []" "isLiteralRun s" for s
    using last_in_set [OF that(1)] that(2) by (auto simp: isLiteralRun_def list_all_iff literal_char_def Let_def)
  then show ?thesis
    by (auto simp: reads_literals_def literal_pg_def)
qed

definition scope_rules :: "cur_rule list" where
  "scope_rules = [\<lparr>cu_id = 1, cu_rule = \<lparr>rr_sender = ''ann'', rr_axis = ''language'', rr_action = ''hide'', rr_match_type = ''exact'',
     rr_match = ''JSON'', rr_new_value = None, rr_enabled = True, rr_at_ingest = False\<rparr>, cu_created = 0\<rparr>]"

definition scope_members :: member_sets where
  "scope_members = [(''project'', \<lparr>am_exact = [], am_regex = [''^boom'']\<rparr>)]"

definition scope_row :: "string \<Rightarrow> string option \<Rightarrow> sql_row" where
  "scope_row p l = \<lparr>rw_col = (\<lambda>c. if c = ''project'' then Some p else if c = ''language'' then l else None), rw_text = (\<lambda>_. None)\<rparr>"


end
