(* ===== verification/ActivityProps.thy ===== *)
theory ActivityProps
  imports ActivityModel ScopeProps HeartbeatProps
begin

text \<open>
  The rollup is an optimisation: where its preconditions hold, reading it gives per day and per project,
  language, editor, platform and machine what the scan of the beats gives. Branch and entity are finer in
  the scan, so rows are compared by their cells, the five axes both have.
\<close>

section \<open>Cells\<close>

definition five :: "stat_row \<Rightarrow> int \<times> string list" where
  "five r = (st_day r, (st_vals r)[3 := [], 6 := []])"

definition cell :: "int \<times> string list \<Rightarrow> stat_row list \<Rightarrow> int" where
  "cell k rows = sum_list (map st_seconds (filter (\<lambda>r. five r = k) rows))"

definition cell_missing :: "int \<times> string list \<Rightarrow> nat \<Rightarrow> stat_row list \<Rightarrow> bool" where
  "cell_missing k i rows \<longleftrightarrow> list_all (\<lambda>r. five r = k \<longrightarrow> st_missing r ! i) rows"

definition same_cells :: "stat_row list \<Rightarrow> stat_row list \<Rightarrow> bool" where
  "same_cells A B \<longleftrightarrow> five ` set A = five ` set B \<and> (\<forall>k. cell k A = cell k B) \<and>
     (\<forall>k. \<forall>i\<in>{0, 1, 2, 4, 5}. cell_missing k i A = cell_missing k i B)"

text \<open>The sum over the chosen groups is the sum over the chosen elements.\<close>

lemma grouped_sum:
  fixes w :: "'a \<Rightarrow> int"
  assumes "\<And>j. j \<in> k ` set rs \<Longrightarrow> P (G j) \<longleftrightarrow> R j"
    and "\<And>j. j \<in> k ` set rs \<Longrightarrow> f (G j) = sum_list (map w (filter (\<lambda>r. k r = j) rs))"
  shows "sum_list (map f (filter P (map G (remdups (map k rs))))) = sum_list (map w (filter (\<lambda>r. R (k r)) rs))"
proof -
  let ?js = "filter R (remdups (map k rs))"
  have "filter (P \<circ> G) (remdups (map k rs)) = ?js"
    using assms(1) by (intro filter_cong) auto
  then have "sum_list (map f (filter P (map G (remdups (map k rs))))) = sum_list (map (f \<circ> G) ?js)"
    by (simp add: filter_map)
  also have "\<dots> = sum_list (map (\<lambda>j. sum_list (map w (filter (\<lambda>r. k r = j) (filter (\<lambda>r. R (k r)) rs)))) ?js)"
  proof (intro arg_cong [where f = sum_list] map_cong refl)
    fix j assume "j \<in> set ?js"
    then show "(f \<circ> G) j = sum_list (map w (filter (\<lambda>r. k r = j) (filter (\<lambda>r. R (k r)) rs)))"
      using assms(2) [of j] by (auto simp: filter_filter intro!: arg_cong [where f = "\<lambda>x. sum_list (map w x)"] filter_cong)
  qed
  also have "\<dots> = sum_list (map w (filter (\<lambda>r. R (k r)) rs))"
    by (rule sum_by_key) auto
  finally show ?thesis .
qed

lemma sum_by_image:
  fixes w :: "'a \<Rightarrow> int"
  assumes "finite K" "k ` set xs \<subseteq> K"
  shows "sum_list (map w xs) = (\<Sum>j\<in>K. sum_list (map w (filter (\<lambda>x. k x = j) xs)))"
  using assms(2)
proof (induction xs)
  case (Cons x xs)
  have "(\<Sum>j\<in>K. sum_list (map w (filter (\<lambda>y. k y = j) (x # xs)))) =
      (\<Sum>j\<in>K. (if k x = j then w x else 0) + sum_list (map w (filter (\<lambda>y. k y = j) xs)))"
    by (intro sum.cong) auto
  also have "\<dots> = w x + sum_list (map w xs)"
    using Cons assms(1) by (simp add: sum.distrib)
  finally show ?case by simp
qed simp

text \<open>Sums over coarser classes are determined by the cells.\<close>

lemma coarser_sum:
  assumes "five ` set A = five ` set B" "\<And>k. cell k A = cell k B"
  shows "sum_list (map st_seconds (filter (\<lambda>r. g (five r)) A)) = sum_list (map st_seconds (filter (\<lambda>r. g (five r)) B))"
proof -
  let ?K = "{k \<in> five ` set A. g k}"
  have e: "sum_list (map st_seconds (filter (\<lambda>r. g (five r)) X)) = (\<Sum>k\<in>?K. cell k X)" if "five ` set X = five ` set A" for X
  proof -
    have "sum_list (map st_seconds (filter (\<lambda>r. g (five r)) X)) =
        (\<Sum>k\<in>?K. sum_list (map st_seconds (filter (\<lambda>r. five r = k) (filter (\<lambda>r. g (five r)) X))))"
      by (rule sum_by_image) (use that in auto)
    also have "\<dots> = (\<Sum>k\<in>?K. cell k X)"
      unfolding cell_def by (intro sum.cong refl arg_cong [where f = "\<lambda>x. sum_list (map st_seconds x)"]) (auto intro!: filter_cong)
    finally show ?thesis .
  qed
  show ?thesis
    using e [of A] e [of B] assms by (simp add: refl)
qed

section \<open>Regrouping keeps the cells equal\<close>

lemma remap_exprs_value:
  assumes "\<And>a. distinct (map fst (ren_exact (rs a)))"
  shows "\<exists>es new. remap_exprs rs axs (Suc (length args)) args = (es, args @ new, Suc (length (args @ new))) \<and> length es = length axs \<and>
    (\<forall>after i v. i < length axs \<longrightarrow> case_value pg (\<lambda>_. True) (es ! i) ((args @ new) @ after) v = remap_value pg (rs (axs ! i)) v)"
proof (induction axs arbitrary: args)
  case (Cons a axs)
  obtain e args1 n1 where e: "remapExpr (rs a) [] (Suc (length args)) args = (e, args1, n1)"
    by (metis prod_cases3)
  obtain new1 where n1: "args1 = args @ new1" "n1 = Suc (length (args @ new1))"
    using remap_expr_value(2,3) [OF assms e] by auto
  have v1: "case_value pg (\<lambda>_. True) e (args1 @ after) v = remap_value pg (rs a) v" for after v
    using remap_expr_value(1) [OF assms e, of pg "\<lambda>_. True" after v] by simp
  obtain es new where IH: "remap_exprs rs axs (Suc (length (args @ new1))) (args @ new1) =
      (es, (args @ new1) @ new, Suc (length ((args @ new1) @ new)))" "length es = length axs"
    "\<And>after i v. i < length axs \<Longrightarrow> case_value pg (\<lambda>_. True) (es ! i) (((args @ new1) @ new) @ after) v = remap_value pg (rs (axs ! i)) v"
    using Cons.IH [of "args @ new1"] by blast
  have "remap_exprs rs (a # axs) (Suc (length args)) args = (e # es, args @ new1 @ new, Suc (length (args @ new1 @ new)))"
    using e n1 IH(1) by simp
  moreover have "case_value pg (\<lambda>_. True) ((e # es) ! i) ((args @ new1 @ new) @ after) v = remap_value pg (rs ((a # axs) ! i)) v"
    if "i < length (a # axs)" for after i v
    using that v1 [of "new @ after" v] IH(3) [of "i - 1" after v] n1 by (cases i) simp_all
  ultimately show ?case using IH(2) by (metis length_Cons)
qed simp

definition both_axes :: "nat set" where
  "both_axes = {0, 1, 2, 4, 5}"

definition full_row :: "stat_row \<Rightarrow> bool" where
  "full_row r \<longleftrightarrow> length (st_vals r) = 7"

definition shown_at :: "pg_regexp \<Rightarrow> rename_sets \<Rightarrow> nat \<Rightarrow> int \<times> string list \<Rightarrow> string" where
  "shown_at pg rs i k = remap_value pg (rs (stat_axes ! i)) (snd k ! i)"

lemma five_at: "full_row r \<Longrightarrow> i \<in> both_axes \<Longrightarrow> snd (five r) ! i = st_vals r ! i"
  by (auto simp: five_def full_row_def both_axes_def nth_list_update)

lemma display_at:
  assumes d: "\<And>a. distinct (map fst (ren_exact (rs a)))" and e: "remap_exprs rs stat_axes (Suc (length args)) args = (es, args', n')"
    and r: "full_row r" and i: "i \<in> both_axes"
  shows "display_values pg es args' r ! i = shown_at pg rs i (five r)"
proof -
  obtain es2 new where v: "remap_exprs rs stat_axes (Suc (length args)) args = (es2, args @ new, Suc (length (args @ new)))" "length es2 = length stat_axes"
    "\<And>after i v. i < length stat_axes \<Longrightarrow> case_value pg (\<lambda>_. True) (es2 ! i) ((args @ new) @ after) v = remap_value pg (rs (stat_axes ! i)) v"
    using remap_exprs_value [where rs = rs, OF d, where axs = stat_axes and args = args and pg = pg] by blast
  have i6: "i < 6" using i by (auto simp: both_axes_def)
  have "length es = 6" "args' = args @ new" "es = es2"
    using v(1,2) e by (simp_all add: stat_axes_def)
  then have "display_values pg es args' r ! i = case_value pg (\<lambda>_. True) (es ! i) args' (st_vals r ! i)"
    using i6 r by (simp add: display_values_def full_row_def nth_append)
  also have "\<dots> = remap_value pg (rs (stat_axes ! i)) (st_vals r ! i)"
    using v(3) [of i "[]"] i6 \<open>es = es2\<close> \<open>args' = args @ new\<close> by (simp add: stat_axes_def)
  finally show ?thesis
    using five_at [OF r i] by (simp add: shown_at_def)
qed

lemma canonical_cells:
  assumes AB: "same_cells A B" and f: "\<And>r. r \<in> set A \<Longrightarrow> f r = s (five r)" and g: "\<And>r. r \<in> set B \<Longrightarrow> g r = s (five r)"
  shows "canonicalPick f A lc = canonicalPick g B lc"
proof -
  have fives: "five ` set A = five ` set B" and cells: "\<And>k. cell k A = cell k B"
    using AB by (auto simp: same_cells_def)
  have fA: "f ` set A = s ` five ` set A" and gB: "g ` set B = s ` five ` set B"
    using f g by (auto simp: image_image)
  then have vs: "f ` set A = g ` set B" using fives by simp
  have "variant_seconds f A v = variant_seconds g B v" for v
  proof -
    have "filter (\<lambda>r. f r = v) A = filter (\<lambda>r. s (five r) = v) A" "filter (\<lambda>r. g r = v) B = filter (\<lambda>r. s (five r) = v) B"
      using f g by (auto intro: filter_cong)
    then show ?thesis
      using coarser_sum [OF fives cells, of "\<lambda>k. s k = v"] by (simp add: variant_seconds_def)
  qed
  then have sec: "variant_seconds f A = variant_seconds g B" by blast
  let ?a = "filter (\<lambda>v. to_lower v = lc) (map f A)" and ?b = "filter (\<lambda>v. to_lower v = lc) (map g B)"
  have sets: "set ?a = set ?b"
    using vs by auto
  have m: "set (map h ?a) = set (map h ?b)" for h :: "string \<Rightarrow> int"
    unfolding set_map [of h] sets ..
  have p: "set (filter P ?a) = set (filter P ?b)" for P
    unfolding set_filter [of P] sets ..
  show ?thesis
    unfolding canonicalPick_def Let_def sec m p ..
qed

text \<open>The five axes of a regrouped row.\<close>

definition regrouped_five :: "(nat \<Rightarrow> string \<Rightarrow> string) \<Rightarrow> (nat \<Rightarrow> int \<times> string list \<Rightarrow> string) \<Rightarrow> int \<times> string list \<Rightarrow> int \<times> string list" where
  "regrouped_five pick s k = (fst k, (map (\<lambda>i. if i \<in> both_axes then pick i (to_lower (s i k)) else []) [0..<7]))"

lemma five_of_group:
  assumes "\<And>i. i \<in> both_axes \<Longrightarrow> disp r ! i = s i (five r)"
    and "\<And>i lc. i \<in> both_axes \<Longrightarrow> canonicalPick (\<lambda>x. disp x ! i) base lc = pick i lc"
  shows "five (regroup_group (display_key disp base) base (display_key disp base r)) = regrouped_five pick s (five r)"
proof -
  have "[0..<Suc (length stat_axes)] = [0, 1, 2, 3, 4, 5, 6]" "[0..<7] = [0, 1, 2, 3, 4, 5, 6 :: nat]"
    by code_simp+
  then show ?thesis
    using assms by (simp add: five_def regroup_group_def display_key_def regrouped_five_def both_axes_def Let_def)
qed

lemma regroup_cells:
  assumes s: "\<And>r i. r \<in> set base \<Longrightarrow> i \<in> both_axes \<Longrightarrow> disp r ! i = s i (five r)"
    and pick: "\<And>i lc. i \<in> both_axes \<Longrightarrow> canonicalPick (\<lambda>x. disp x ! i) base lc = pick i lc"
    and out: "out = map (regroup_group (display_key disp base) base) (remdups (map (display_key disp base) base))"
  shows "five ` set out = regrouped_five pick s ` five ` set base"
    and "cell c out = sum_list (map st_seconds (filter (\<lambda>r. regrouped_five pick s (five r) = c) base))"
    and "i \<in> both_axes \<Longrightarrow> cell_missing c i out \<longleftrightarrow> (\<forall>r\<in>set base. regrouped_five pick s (five r) = c \<longrightarrow> st_missing r ! i)"
proof -
  let ?key = "display_key disp base" and ?h = "regrouped_five pick s"
  have h: "five (regroup_group ?key base (?key r)) = ?h (five r)" if "r \<in> set base" for r
    by (rule five_of_group) (use s [OF that] pick in auto)
  show "five ` set out = ?h ` five ` set base"
    using h by (auto simp: out image_image)
  show "cell c out = sum_list (map st_seconds (filter (\<lambda>r. ?h (five r) = c) base))"
  proof -
    have "cell c out = sum_list (map st_seconds (filter (\<lambda>r. five (regroup_group ?key base (?key r)) = c) base))"
      unfolding cell_def out by (rule grouped_sum) (auto simp: regroup_group_def Let_def)
    also have "filter (\<lambda>r. five (regroup_group ?key base (?key r)) = c) base = filter (\<lambda>r. ?h (five r) = c) base"
      using h by (intro filter_cong) auto
    finally show ?thesis .
  qed
  assume i: "i \<in> both_axes"
  have m: "st_missing (regroup_group ?key base k) ! i \<longleftrightarrow> (\<forall>r\<in>set base. ?key r = k \<longrightarrow> st_missing r ! i)" for k
  proof -
    have "i < length stat_axes" using i by (auto simp: both_axes_def stat_axes_def)
    then show ?thesis by (auto simp: regroup_group_def list_all_iff Let_def)
  qed
  show "cell_missing c i out \<longleftrightarrow> (\<forall>r\<in>set base. ?h (five r) = c \<longrightarrow> st_missing r ! i)"
    unfolding cell_missing_def out list_all_iff set_map set_remdups image_image ball_simps(9) m
    using h by (metis (no_types, lifting))
qed

lemma regroup_same_cells:
  assumes AB: "same_cells A B" and d: "\<And>a. distinct (map fst (ren_exact (rs a)))"
    and full: "\<And>r. r \<in> set A \<union> set B \<Longrightarrow> full_row r"
    and n: "nA = Suc (length argsA)" "nB = Suc (length argsB)"
  shows "same_cells (regroupStatRows pg rs (A, argsA, nA)) (regroupStatRows pg rs (B, argsB, nB))"
proof -
  obtain esA aA kA where eA: "remap_exprs rs stat_axes (Suc (length argsA)) argsA = (esA, aA, kA)" by (metis prod_cases3)
  obtain esB aB kB where eB: "remap_exprs rs stat_axes (Suc (length argsB)) argsB = (esB, aB, kB)" by (metis prod_cases3)
  let ?dA = "display_values pg esA aA" and ?dB = "display_values pg esB aB" and ?s = "shown_at pg rs"
  let ?pick = "\<lambda>i lc. canonicalPick (\<lambda>x. ?dA x ! i) A lc"
  have sA: "\<And>r i. r \<in> set A \<Longrightarrow> i \<in> both_axes \<Longrightarrow> ?dA r ! i = ?s i (five r)"
    by (rule display_at [OF d eA]) (use full in auto)
  have sB: "\<And>r i. r \<in> set B \<Longrightarrow> i \<in> both_axes \<Longrightarrow> ?dB r ! i = ?s i (five r)"
    by (rule display_at [OF d eB]) (use full in auto)
  have pick: "canonicalPick (\<lambda>x. ?dB x ! i) B lc = ?pick i lc" if i: "i \<in> both_axes" for i lc
    by (rule canonical_cells [OF AB, symmetric]) (use sA sB i in auto)
  note cA = regroup_cells [of A ?dA ?s ?pick, OF sA refl refl, simplified]
  note cB = regroup_cells [of B ?dB ?s ?pick, OF sB pick refl, simplified]
  have fives: "five ` set A = five ` set B" and cells: "\<And>k. cell k A = cell k B"
    and miss: "\<And>k i. i \<in> both_axes \<Longrightarrow> cell_missing k i A = cell_missing k i B"
    using AB by (auto simp: same_cells_def both_axes_def)
  have m: "(\<forall>r\<in>set X. h (five r) = c \<longrightarrow> st_missing r ! i) \<longleftrightarrow> (\<forall>k. h k = c \<longrightarrow> cell_missing k i X)" for X h c i
    unfolding cell_missing_def list_all_iff by blast
  let ?oA = "map (regroup_group (display_key ?dA A) A) (remdups (map (display_key ?dA A) A))"
    and ?oB = "map (regroup_group (display_key ?dB B) B) (remdups (map (display_key ?dB B) B))"
  have "five ` set ?oA = five ` set ?oB"
    using cA(1) cB(1) fives by simp
  moreover have "cell k ?oA = cell k ?oB" for k
    using cA(2) cB(2) coarser_sum [OF fives cells, of "\<lambda>x. regrouped_five ?pick ?s x = k"] by simp
  moreover have "cell_missing k i ?oA = cell_missing k i ?oB" if "i \<in> both_axes" for k i
    using cA(3) [OF that, of k] cB(3) [OF that, of k] miss [OF that] unfolding m by simp
  ultimately have "same_cells ?oA ?oB"
    unfolding same_cells_def both_axes_def by blast
  then show ?thesis
    unfolding regroupStatRows_def prod.case n eA eB Let_def .
qed

section \<open>The base rows have the same cells\<close>

definition beat_five :: "(int \<Rightarrow> int) \<Rightarrow> hb_row \<Rightarrow> int \<times> string list" where
  "beat_five day r = (day (h_at r), (map (\<lambda>a. or_other (axis_value a (h_beat r))) stat_axes @ [[]])[3 := []])"

definition raw_five :: "scan_key \<Rightarrow> int \<times> string list" where
  "raw_five k = (fst k, (map or_other (fst (snd k)) @ [[]])[3 := []])"

lemma raw_five_key: "raw_five (raw_key day r) = beat_five day r"
  by (simp add: raw_five_def raw_key_def beat_five_def comp_def)

lemma five_raw_group: "k = raw_key day r \<Longrightarrow> five (raw_group day mins rs k) = beat_five day r"
  by (simp add: five_def raw_group_def raw_key_def beat_five_def stat_axes_def comp_def)

lemma raw_cells:
  fixes rs :: "hb_row list"
  assumes "base = map (raw_group day mins rs) (remdups (map (raw_key day) rs))"
  shows "five ` set base = beat_five day ` set rs" "r \<in> set base \<Longrightarrow> full_row r"
    and "cell c base = sum_list (map (limited_gap mins) (filter (\<lambda>r. beat_five day r = c) rs))"
    and "i < 6 \<Longrightarrow> cell_missing c i base \<longleftrightarrow> (\<forall>r\<in>set rs. beat_five day r = c \<longrightarrow> axis_value (stat_axes ! i) (h_beat r) = None)"
proof -
  show "five ` set base = beat_five day ` set rs"
    using five_raw_group [of _ day _ mins rs] by (auto simp: assms image_image)
  show "r \<in> set base \<Longrightarrow> full_row r"
    by (auto simp: assms full_row_def raw_group_def raw_key_def stat_axes_def)
  show "cell c base = sum_list (map (limited_gap mins) (filter (\<lambda>r. beat_five day r = c) rs))"
    unfolding cell_def assms raw_five_key [symmetric]
    by (rule grouped_sum) (auto simp: five_raw_group raw_five_key, auto simp: raw_group_def raw_key_def)
  have m: "st_missing (raw_group day mins rs (raw_key day r)) ! i \<longleftrightarrow> axis_value (stat_axes ! i) (h_beat r) = None" if "i < 6" for r
    using that by (simp add: raw_group_def raw_key_def stat_axes_def del: list.map)
  show "cell_missing c i base \<longleftrightarrow> (\<forall>r\<in>set rs. beat_five day r = c \<longrightarrow> axis_value (stat_axes ! i) (h_beat r) = None)" if "i < 6"
    using m [OF that] five_raw_group [OF refl] by (auto simp: cell_missing_def assms list_all_iff)
qed

text \<open>The rows of the rollup that a grouping of beats gives.\<close>

definition rollup_five :: "int \<times> string list \<Rightarrow> int \<times> string list" where
  "rollup_five k = (fst k, (map (\<lambda>a. if a = ''branch'' then [] else (case map_of (zip rollup_columns (snd k)) a of None \<Rightarrow> [] | Some v \<Rightarrow> v)) stat_axes @ [[]]))"

lemma rollup_five_key: "rollup_five (rollup_key day r) = beat_five day r"
  by (simp add: rollup_five_def rollup_key_def beat_five_def rollup_columns_def stat_axes_def)

lemma five_rollup_group: "five (rollup_group ds (d_day d, rollup_axes d)) = rollup_five (d_day d, d_axes d)"
  by (simp add: five_def rollup_group_def rollup_axes_def rollup_five_def rollup_value_def stat_axes_def Let_def)

lemma rollup_cells:
  assumes "base = map (rollup_group ds) (remdups (map (\<lambda>d. (d_day d, rollup_axes d)) ds))"
  shows "five ` set base = (\<lambda>d. rollup_five (d_day d, d_axes d)) ` set ds" "r \<in> set base \<Longrightarrow> full_row r"
    and "cell c base = sum_list (map d_seconds (filter (\<lambda>d. rollup_five (d_day d, d_axes d) = c) ds))"
    and "i \<in> both_axes \<Longrightarrow> cell_missing c i base \<longleftrightarrow>
      (\<forall>d\<in>set ds. rollup_five (d_day d, d_axes d) = c \<longrightarrow> rollup_missing (stat_axes ! i) d)"
proof -
  let ?k = "\<lambda>d. (d_day d, rollup_axes d)"
  show "five ` set base = (\<lambda>d. rollup_five (d_day d, d_axes d)) ` set ds"
    using five_rollup_group [of ds] by (auto simp: assms image_image)
  show "r \<in> set base \<Longrightarrow> full_row r"
    by (auto simp: assms full_row_def rollup_group_def rollup_axes_def stat_axes_def Let_def)
  have "cell c base = sum_list (map d_seconds (filter (\<lambda>d. five (rollup_group ds (?k d)) = c) ds))"
    unfolding cell_def assms by (rule grouped_sum) (auto simp: rollup_group_def Let_def)
  then show "cell c base = sum_list (map d_seconds (filter (\<lambda>d. rollup_five (d_day d, d_axes d) = c) ds))"
    by (simp add: five_rollup_group)
  assume i: "i \<in> both_axes"
  have m: "st_missing (rollup_group ds k) ! i \<longleftrightarrow> (\<forall>d\<in>set ds. ?k d = k \<longrightarrow> rollup_missing (stat_axes ! i) d)" for k
    using i by (auto simp: rollup_group_def Let_def stat_axes_def both_axes_def list_all_iff)
  have same: "rollup_five (d_day d, d_axes d) = rollup_five (d_day d', d_axes d')" if "?k d = ?k d'" for d d'
    using that five_rollup_group [of ds d] five_rollup_group [of ds d'] by simp
  show "cell_missing c i base \<longleftrightarrow> (\<forall>d\<in>set ds. rollup_five (d_day d, d_axes d) = c \<longrightarrow> rollup_missing (stat_axes ! i) d)"
    unfolding cell_missing_def assms list_all_iff set_map set_remdups image_image ball_simps(9) five_rollup_group m
    using same by (metis (no_types, lifting))
qed

section \<open>The two selections agree\<close>

definition constrained :: "hidden_sets \<Rightarrow> member_sets \<Rightarrow> bool \<Rightarrow> string \<Rightarrow> bool" where
  "constrained hs ms requested axis \<longleftrightarrow> Values hs axis \<noteq> [] \<or> requested \<and> some_members (members_of ms axis)"

lemma same_kept:
  assumes a: "applyScopes hs ms requested cols args (Suc (length args)) = (cs, args', n')"
    and b: "applyScopes hs ms requested cols2 args2 (Suc (length args2)) = (cs2, args2', n2')"
    and c: "\<And>axis. axis \<in> set hiddenAxes \<Longrightarrow> cols axis = axis \<and> cols2 axis = axis"
    and v: "\<And>axis. axis \<in> set hiddenAxes \<Longrightarrow> constrained hs ms requested axis \<Longrightarrow> rw_col r axis = rw_col r2 axis"
  shows "kept pg args' cs r \<longleftrightarrow> kept pg args2' cs2 r2"
proof -
  have "shown_on hs cols [] r axis \<longleftrightarrow> shown_on hs cols2 [] r2 axis" if "axis \<in> set hiddenAxes" for axis
    using c [OF that] v [OF that] by (auto simp: shown_on_def constrained_def)
  moreover have "matched_on pg ms cols r axis \<longleftrightarrow> matched_on pg ms cols2 r2 axis" if "axis \<in> set hiddenAxes" requested for axis
    using c [OF that(1)] v [OF that(1)] matched_some [of pg ms cols r axis] matched_some [of pg ms cols2 r2 axis] that(2)
    by (auto simp: matched_on_def constrained_def)
  ultimately show ?thesis
    using applyScopes_value(3) [OF a, of pg "[]" r] applyScopes_value(3) [OF b, of pg "[]" r2] by auto
qed

lemma sum_permuted:
  fixes f :: "'a \<Rightarrow> int"
  assumes "mset xs = mset ys"
  shows "sum_list (map f (filter P xs)) = sum_list (map f (filter P ys))"
  using assms by (metis mset_filter mset_map sum_mset_sum_list)

text \<open>A row of the rollup as the filter sees it.\<close>

definition key_row :: "int \<times> string list \<Rightarrow> sql_row" where
  "key_row k = \<lparr>rw_col = map_of (zip rollup_columns (snd k)), rw_text = (\<lambda>_. None)\<rparr>"

lemma rollup_row_key: "rollup_row d = key_row (d_day d, d_axes d)"
  by (simp add: rollup_row_def key_row_def)

lemma key_row_value: "axis \<in> set hiddenAxes \<Longrightarrow> rw_col (key_row (rollup_key day r)) axis = Some (or_other (axis_value axis (h_beat r)))"
  by (auto simp: key_row_def rollup_key_def rollup_columns_def hiddenAxes_def axis_names_def)

lemma day_group_simps' [simp]:
  "d_day (day_group s day rs k) = fst k" "d_axes (day_group s day rs k) = snd k"
  "d_seconds (day_group s day rs k) = sum_list (map row_seconds (filter (\<lambda>r. rollup_key day r = k) rs))"
  by (simp_all add: day_group_def Let_def)

lemma day_group_missing:
  "i \<in> both_axes \<Longrightarrow> rollup_missing (stat_axes ! i) (day_group s day rs k) \<longleftrightarrow>
     (\<forall>r\<in>set rs. rollup_key day r = k \<longrightarrow> axis_value (stat_axes ! i) (h_beat r) = None)"
  by (auto simp: rollup_missing_def day_group_def Let_def both_axes_def stat_axes_def rollup_columns_def list_all_iff)

lemma length_base_args [simp]: "0 < k \<Longrightarrow> length (base_args user k) = k"
  by (simp add: base_args_def)

section \<open>The theorem\<close>

definition whole_days :: "zones \<Rightarrow> string \<Rightarrow> int \<Rightarrow> int \<Rightarrow> hb_row list \<Rightarrow> bool" where
  "whole_days zs tz t0 t1 rs \<longleftrightarrow>
     list_all (\<lambda>r. (t0 \<le> h_at r \<and> h_at r \<le> t1) = (utc_date t0 \<le> z_day zs tz (h_at r) \<and> z_day zs tz (h_at r) \<le> utc_date t1)) rs"

definition values_known :: "hidden_sets \<Rightarrow> member_sets \<Rightarrow> bool \<Rightarrow> hb_row list \<Rightarrow> bool" where
  "values_known hs ms requested rs \<longleftrightarrow>
     list_all (\<lambda>r. list_all (\<lambda>axis. constrained hs ms requested axis \<longrightarrow> axis_value axis (h_beat r) \<noteq> None) hiddenAxes) rs"

lemma ball_image_filter: "(\<forall>y\<in>f ` {x \<in> S. P x}. R y) \<longleftrightarrow> (\<forall>x\<in>S. P x \<longrightarrow> R (f x))"
  by auto

lemma mates_ball:
  assumes "\<And>r r'. r \<in> S \<Longrightarrow> r' \<in> S \<Longrightarrow> k r' = k r \<Longrightarrow> P r \<Longrightarrow> P r' \<and> f r' = f r"
  shows "(\<forall>r\<in>S. P r \<longrightarrow> f r = c \<longrightarrow> (\<forall>r'\<in>S. k r' = k r \<longrightarrow> N r')) \<longleftrightarrow> (\<forall>r\<in>S. P r \<longrightarrow> f r = c \<longrightarrow> N r)"
  using assms by metis

lemma base_same_cells:
  assumes ok: "derived_ok zs user db" and tz: "rollup_zone db user = Some tz"
    and wo: "list_all (\<lambda>r. b_workout (h_beat r) = None) (sender_rows user db)"
    and days: "whole_days zs tz t0 t1 (sender_rows user db)" and known: "values_known hs ms requested (sender_rows user db)"
    and raw: "raw_base pg zs db user t0 t1 15 tz hs ms requested = (A, argsA, nA)"
    and roll: "rollup_base pg db user t0 t1 hs ms requested = (B, argsB, nB)"
  shows "same_cells B A" "nA = Suc (length argsA)" "nB = Suc (length argsB)" "r \<in> set A \<union> set B \<Longrightarrow> full_row r"
proof -
  let ?day = "z_day zs tz" and ?rows = "sender_rows user db"
  obtain csA where sA: "applyScopes hs ms requested rawHeartbeatCols (base_args user 5) (Suc (length (base_args user 5))) = (csA, argsA, nA)"
    and A: "A = map (raw_group ?day 15 (filter (\<lambda>r. t0 \<le> h_at r \<and> h_at r \<le> t1 \<and> kept pg argsA csA (raw_row r)) ?rows))
        (remdups (map (raw_key ?day) (filter (\<lambda>r. t0 \<le> h_at r \<and> h_at r \<le> t1 \<and> kept pg argsA csA (raw_row r)) ?rows)))"
    using raw by (auto simp: raw_base_def Let_def split: prod.splits)
  obtain csB where sB: "applyScopes hs ms requested rollupCols (base_args user 3) (Suc (length (base_args user 3))) = (csB, argsB, nB)"
    and B: "B = map (rollup_group (filter (\<lambda>d. utc_date t0 \<le> d_day d \<and> d_day d \<le> utc_date t1 \<and> kept pg argsB csB (rollup_row d)) (sender_rollup user db)))
        (remdups (map (\<lambda>d. (d_day d, rollup_axes d))
          (filter (\<lambda>d. utc_date t0 \<le> d_day d \<and> d_day d \<le> utc_date t1 \<and> kept pg argsB csB (rollup_row d)) (sender_rollup user db))))"
    using roll by (auto simp: rollup_base_def Let_def split: prod.splits)
  let ?sel = "\<lambda>r. t0 \<le> h_at r \<and> h_at r \<le> t1 \<and> kept pg argsA csA (raw_row r)"
  let ?R = "\<lambda>k. utc_date t0 \<le> fst k \<and> fst k \<le> utc_date t1 \<and> kept pg argsB csB (key_row k)"
  let ?ds = "filter (\<lambda>d. utc_date t0 \<le> d_day d \<and> d_day d \<le> utc_date t1 \<and> kept pg argsB csB (rollup_row d)) (sender_rollup user db)"
  let ?agg = "aggregate user ?day ?rows"
  let ?key = "rollup_key ?day"
  have m: "mset (sender_rollup user db) = mset ?agg"
    using ok tz by (simp add: derived_ok_def rollup_ok_def)
  have cols: "rawHeartbeatCols axis = axis \<and> rollupCols axis = axis" if "axis \<in> set hiddenAxes" for axis
    using that by (auto simp: rawHeartbeatCols_def rollupCols_def RollupAxes_def column_def hiddenAxes_def)
  have sel: "?R (?key r) \<longleftrightarrow> ?sel r" if r: "r \<in> set ?rows" for r
  proof -
    have "axis_value axis (h_beat r) \<noteq> None" if "axis \<in> set hiddenAxes" "constrained hs ms requested axis" for axis
      using known r that by (simp add: values_known_def list_all_iff)
    then have "rw_col (raw_row r) axis = rw_col (key_row (?key r)) axis" if "axis \<in> set hiddenAxes" "constrained hs ms requested axis" for axis
      using that by (fastforce simp: key_row_value raw_row_def or_other_def)
    then have "kept pg argsA csA (raw_row r) \<longleftrightarrow> kept pg argsB csB (key_row (?key r))"
      by (intro same_kept [OF sA sB cols]) auto
    moreover have "fst (?key r) = ?day (h_at r)" by (simp add: rollup_key_def)
    ultimately show ?thesis
      using days r by (auto simp: whole_days_def list_all_iff)
  qed
  have secs: "limited_gap 15 r = row_seconds r" if "r \<in> set ?rows" for r
    using wo that by (auto simp: limited_gap_def row_seconds_def list_all_iff split: option.splits)
  have dsset: "set ?ds = (\<lambda>r. day_group user ?day ?rows (?key r)) ` {r \<in> set ?rows. ?sel r}"
  proof -
    have "set (sender_rollup user db) = set ?agg"
      using m by (rule mset_eq_setD)
    also have "\<dots> = (\<lambda>r. day_group user ?day ?rows (?key r)) ` set ?rows"
      by (auto simp: aggregate_def)
    finally have roll: "set (sender_rollup user db) = (\<lambda>r. day_group user ?day ?rows (?key r)) ` set ?rows" .
    have "set ?ds = (\<lambda>r. day_group user ?day ?rows (?key r)) ` {r \<in> set ?rows. ?R (?key r)}"
      unfolding set_filter roll by (auto simp: rollup_row_key)
    also have "{r \<in> set ?rows. ?R (?key r)} = {r \<in> set ?rows. ?sel r}"
      by (rule Collect_cong) (rule conj_cong [OF refl sel])
    finally show ?thesis .
  qed
  note cA = raw_cells [OF A] and cB = rollup_cells [OF B]
  have "cell c B = cell c A" for c
  proof -
    have "cell c B = sum_list (map d_seconds (filter (\<lambda>d. ?R (d_day d, d_axes d) \<and> rollup_five (d_day d, d_axes d) = c) (sender_rollup user db)))"
      unfolding cB(3) rollup_row_key by (simp add: conj_ac)
    also have "\<dots> = sum_list (map d_seconds (filter (\<lambda>d. ?R (d_day d, d_axes d) \<and> rollup_five (d_day d, d_axes d) = c) ?agg))"
      by (rule sum_permuted [OF m])
    also have "\<dots> = sum_list (map row_seconds (filter (\<lambda>r. ?R (?key r) \<and> rollup_five (?key r) = c) ?rows))"
      unfolding aggregate_def by (rule grouped_sum [where R = "\<lambda>k. ?R k \<and> rollup_five k = c"]) simp_all
    also have "\<dots> = sum_list (map (limited_gap 15) (filter (\<lambda>r. beat_five ?day r = c) (filter ?sel ?rows)))"
      unfolding filter_filter using sel secs
      by (intro arg_cong [where f = sum_list] map_cong filter_cong) (auto simp: rollup_five_key)
    finally show ?thesis using cA(3) [of c] by simp
  qed
  moreover have "five ` set B = five ` set A"
    unfolding cA(1) cB(1) dsset by (auto simp: image_image rollup_five_key)
  moreover have mates: "?sel r' \<and> beat_five ?day r' = beat_five ?day r"
    if "r \<in> set ?rows" "r' \<in> set ?rows" "?key r' = ?key r" "?sel r" for r r'
    using sel [OF that(1)] sel [OF that(2)] that(3,4) rollup_five_key [of ?day r] rollup_five_key [of ?day r'] by simp
  moreover have "cell_missing c i B \<longleftrightarrow> cell_missing c i A" if i: "i \<in> both_axes" for c i
  proof -
    have "cell_missing c i B \<longleftrightarrow> (\<forall>r\<in>set ?rows. ?sel r \<longrightarrow> beat_five ?day r = c \<longrightarrow>
        (\<forall>r'\<in>set ?rows. ?key r' = ?key r \<longrightarrow> axis_value (stat_axes ! i) (h_beat r') = None))"
      unfolding cB(4) [OF i] dsset ball_image_filter by (simp add: day_group_missing [OF i] rollup_five_key)
    also have "\<dots> \<longleftrightarrow> (\<forall>r\<in>set ?rows. ?sel r \<longrightarrow> beat_five ?day r = c \<longrightarrow> axis_value (stat_axes ! i) (h_beat r) = None)"
      by (rule mates_ball [where k = ?key and P = ?sel and f = "beat_five ?day"]) (rule mates)
    also have "\<dots> \<longleftrightarrow> cell_missing c i A"
      using cA(4) [of i c] i by (auto simp: both_axes_def)
    finally show ?thesis .
  qed
  ultimately show "same_cells B A"
    unfolding same_cells_def both_axes_def by blast
  show "nA = Suc (length argsA)" "nB = Suc (length argsB)"
    using applyScopes_value(2) [OF sA] applyScopes_value(2) [OF sB] by simp_all
  show "r \<in> set A \<union> set B \<Longrightarrow> full_row r"
    using cA(2) [of r] cB(2) [of r] by auto
qed

lemma loaded_distinct: "distinct (map fst (ren_exact (LoadRenameSets rules user a)))"
proof -
  have "distinct (map fst (ren_exact (foldl add_rename s xs a)))" if "\<And>x. distinct (map fst (ren_exact (s x)))" for s xs
    using that by (induction xs arbitrary: s) (auto simp: add_rename_def Let_def distinct_aput)
  then show ?thesis
    by (simp add: LoadRenameSets_def no_renames_def)
qed


definition stats_rules :: "rename_rule list" where
  "stats_rules = [\<lparr>rr_sender = ''ann'', rr_axis = ''project'', rr_action = ''rename'', rr_match_type = ''exact'', rr_match = ''P'',
     rr_new_value = Some ''boom'', rr_enabled = True, rr_at_ingest = False\<rparr>]"

definition stats_today :: "hidden_sets \<Rightarrow> int \<Rightarrow> stat_row list" where
  "stats_today hs l = stats_rows literal_pg utc_zone sample_db ''ann'' 0 (day_us - 1) l ''UTC'' hs (LoadRenameSets stats_rules ''ann'') [] False"

lemma sample_derived: "derived_ok utc_zone ''ann'' sample_db"
proof -
  have "list_ex (\<lambda>u. fst u = ''ann'') (bd_zones sample_db)" by code_simp
  then show ?thesis
    using sample_ok by (auto simp: beats_ok_def list_all_iff list_ex_iff)
qed


text \<open>
  Where a hidden value meets beats without any on its axis the paths differ: the scan drops them, since a
  negated comparison with null is null, and the rollup, which stores Other, keeps them.
\<close>

lemma hidden_drops_missing:
  "stats_today [(''language'', [''json''])] 14 = [] \<and> map st_seconds (stats_today [(''language'', [''json''])] 15) = [300]"
  by code_simp

text \<open>
  The bounds of the rollup are dates in UTC while its days are local: east of Greenwich the range of one
  local day reads the evening of the day before too.
\<close>

definition tokyo :: zones where
  "tokyo = \<lparr>z_day = (\<lambda>_ t. (t + 32400000000) div day_us), z_start = (\<lambda>_ d. d * day_us - 32400000000)\<rparr>"

definition tokyo_db :: beats_db where
  "tokyo_db = fst (the (SaveHeartbeats tokyo (no_beats [(''ann'', ''Asia/Tokyo'')])
     (map (\<lambda>t. sample_beat ''ann'' ''e'' t) [0, 600, 54000, 54300])))"

lemma local_day_reads_day_before:
  "let t0 = 54000000000; t1 = t0 + day_us - 1 in
   map (\<lambda>r. (st_day r, st_seconds r)) (stats_rows literal_pg tokyo tokyo_db ''ann'' t0 t1 15 ''Asia/Tokyo'' [] (\<lambda>_. no_renames) [] False) = [(0, 600), (1, 300)] \<and>
   map (\<lambda>r. (st_day r, st_seconds r)) (stats_rows literal_pg tokyo tokyo_db ''ann'' t0 t1 14 ''Asia/Tokyo'' [] (\<lambda>_. no_renames) [] False) = [(1, 300)]"
  by code_simp

end
