(* ===== verification/Spec2Isabelle.thy ===== *)
theory Spec2Isabelle
  imports JobFlow QueryEndpoint LabelProps GoalIsolation GoalCost GoalMeaning AccountChange TtlCache
    HeartbeatProps RenameProps IngestTheorems CurationTheorems SpaceProps ActivityProps
begin

text \<open>
  A model of the core of boomtime (a self-hosted tracker of coding and reading activity, in Go).

  The parts and how they meet. HTTP handlers and cron schedules enqueue rows into the durable job
  queue (\<open>internal/jobs\<close>); workers of a fleet claim rows under per-kind concurrency limits, run the
  registered handler and write the outcome back, while a reaper returns rows of dead workers.
  Dashboards read through one query language (\<open>internal/shared/query\<close>) that compiles a request to
  a parameterised SQL statement, exposed by an endpoint (\<open>internal/shared/queryapi\<close>). Profile
  labels (\<open>internal/boomtime/labels\<close>) are rules stored as JSON, validated on write and evaluated
  against a statistics payload.

  Theories and the code they model.
  \<^item> \<open>Prelude\<close>, \<open>GoTime\<close>, \<open>GoJson\<close>: strings, stable sorting, the UTC calendar and JSON struct
    decoding, as far as the sources use the Go standard library.
  \<^item> \<open>JobStore\<close>: \<open>jobs/store.go\<close> and its tables; every method is one atomic step on the rows.
    \<open>JobLimiter\<close>: \<open>jobs/limiter.go\<close>. \<open>JobRegistry\<close>: \<open>jobs/jobs.go\<close>. \<open>JobExec\<close>: \<open>exec.go\<close>,
    \<open>local.go\<close>, \<open>provider.go\<close>, \<open>scheduler.go\<close>. \<open>JobSystem\<close>: the fleet as a step relation in which
    workers, reapers, schedulers and administrators interleave, with its invariants.
    \<open>JobCorrect\<close>, \<open>JobRecovery\<close>, \<open>JobFlow\<close>: the properties of the queue.
  \<^item> \<open>QueryModel\<close>, \<open>QueryDomains\<close>: \<open>query.go\<close>, \<open>registry.go\<close>, \<open>domains.go\<close>. \<open>QueryCompile\<close>: the
    compiler, whose SQL text is a list of tokens that carry their origin (literal text of the
    compiler, registry text, or a numbered placeholder). \<open>QueryRun\<close>: \<open>Run\<close>, the bucket policy and
    the mapping of a request. \<open>QueryCorrect\<close>, \<open>QuerySafety\<close>, \<open>QueryProps\<close>, \<open>QueryBehaviour\<close>,
    \<open>QueryEndpoint\<close>: their properties.
  \<^item> \<open>LabelModel\<close>, \<open>LabelEval\<close>, \<open>LabelValidate\<close>: \<open>labels/types.go\<close>, \<open>evaluator.go\<close> with
    \<open>dbrow.go\<close>, and \<open>validate.go\<close>. \<open>LabelJson\<close>, \<open>LabelProps\<close>: their properties.

  Conventions. A call that can fail returns a sum, \<open>Inl\<close> the error. A SQL statement is atomic; its
  effect is written out from the statement in the source. Times are instants in nanoseconds, in
  UTC, without a range limit. \<open>float64\<close> is an exact rational. Integers are unbounded except where
  64-bit wrap-around is written out. Case folding is the ASCII part of Go's. Go maps that are ranged
  over become lists whose order is arbitrary. No loop needs fuel: the recursions are structural or
  come with a measure.

  Not modelled. Authentication, HTTP plumbing, configuration, logging and metrics; the SQL wrappers
  of \<open>internal/shared/db\<close> outside the job tables; the connectors to external services; rendering.
  PROJECT.json lists these parts with the reason for each.
\<close>

end
